(* ===== verification/Prelude.thy ===== *)
theory Prelude
  imports Main "HOL-Library.Word" "HOL-Library.Sublist" "HOL-Library.AList"
    "HOL-Library.Multiset"
begin

text \<open>
  Shared vocabulary of the development: the machine integers of the Rust code, the error
  type that stands for \<open>anyhow::Error\<close>, durations, the string operations of the standard
  library that the code uses, state-passing programs with an error result, and generic
  lemmas on association lists (the model of \<open>DashMap\<close> and \<open>HashMap\<close>) that the component
  theories share.
\<close>

named_theorems prog_simps \<open>unfolding rules of state-passing programs\<close>

section \<open>Machine integers and durations\<close>

type_synonym u8 = "8 word"
type_synonym u16 = "16 word"
type_synonym u32 = "32 word"
type_synonym u64 = "64 word"
type_synonym i32 = "32 word"
type_synonym i64 = "64 word"

text \<open>
  \<open>std::time::Duration\<close> as a number of nanoseconds. \<open>as_millis\<close> returns a \<open>u128\<close>, which is
  wide enough for every duration, so it is a natural number here; an \<open>as\<close> cast of it to a
  narrower type is \<open>of_nat\<close> at that width, which wraps as Rust's cast does.
\<close>

type_synonym duration = nat

definition from_millis :: "u64 \<Rightarrow> duration" where
  "from_millis m = unat m * 10 ^ 6"

definition from_secs :: "u64 \<Rightarrow> duration" where
  "from_secs s = unat s * 10 ^ 9"

definition as_millis :: "duration \<Rightarrow> nat" where
  "as_millis d = d div 10 ^ 6"

lemma as_millis_from_millis [simp]: "as_millis (from_millis m) = unat m"
  by (simp add: as_millis_def from_millis_def)

lemma from_millis_0 [simp]: "from_millis 0 = 0"
  by (simp add: from_millis_def)

lemma from_millis_pos [simp]: "0 < from_millis m \<longleftrightarrow> m \<noteq> 0"
  by (simp add: from_millis_def unat_gt_0)

lemma from_secs_pos [simp]: "0 < from_secs m \<longleftrightarrow> m \<noteq> 0"
  by (simp add: from_secs_def unat_gt_0)

section \<open>Errors\<close>

text \<open>
  An \<open>anyhow::Error\<close> is a message written by this code, or an error of the \<open>fred\<close> client,
  of which the code reads two texts: \<open>details()\<close> and the \<open>Display\<close> output.
\<close>

datatype err = Msg string | Fred string string

fun err_string :: "err \<Rightarrow> string" where
  "err_string (Msg m) = m"
| "err_string (Fred details display) = display"

fun err_details :: "err \<Rightarrow> string" where
  "err_details (Msg m) = m"
| "err_details (Fred details display) = details"

section \<open>Strings\<close>

text \<open>
  A Rust \<open>String\<close> is its UTF-8 bytes, a \<open>char list\<close> here. \<open>chars\<close> decodes them to code
  points; an invalid byte (no Rust string holds one) decodes to itself.
\<close>

fun chars :: "string \<Rightarrow> nat list" where
  "chars [] = []"
| "chars (a # xs) =
     (let n = of_char a in
      if n < 192 then n # chars xs
      else if n < 224 then
        (case xs of b # ys \<Rightarrow> ((n - 192) * 64 + (of_char b - 128)) # chars ys | [] \<Rightarrow> [n])
      else if n < 240 then
        (case xs of b # c # ys \<Rightarrow>
             ((n - 224) * 4096 + (of_char b - 128) * 64 + (of_char c - 128)) # chars ys
         | _ \<Rightarrow> n # chars xs)
      else
        (case xs of b # c # d # ys \<Rightarrow>
             ((n - 240) * 262144 + (of_char b - 128) * 4096 + (of_char c - 128) * 64
               + (of_char d - 128)) # chars ys
         | _ \<Rightarrow> n # chars xs))"

definition ascii :: "string \<Rightarrow> bool" where
  "ascii s \<longleftrightarrow> list_all (\<lambda>c. of_char c < (128::nat)) s"

lemma chars_ascii: "ascii s \<Longrightarrow> chars s = map of_char s"
  by (induction s) (auto simp: ascii_def Let_def)

definition starts_with :: "string \<Rightarrow> string \<Rightarrow> bool" where
  "starts_with s p \<longleftrightarrow> take (length p) s = p"

lemma starts_with_iff: "starts_with s p \<longleftrightarrow> (\<exists>r. s = p @ r)"
  unfolding starts_with_def by (metis append_eq_conv_conj append_take_drop_id)

lemma starts_with_append [simp]: "starts_with (p @ r) p"
  by (simp add: starts_with_def)

definition strip_prefix :: "string \<Rightarrow> string \<Rightarrow> string option" where
  "strip_prefix s p = (if starts_with s p then Some (drop (length p) s) else None)"

lemma strip_prefix_Some: "strip_prefix s p = Some r \<longleftrightarrow> s = p @ r"
  by (auto simp: strip_prefix_def starts_with_iff)

fun str_contains :: "string \<Rightarrow> string \<Rightarrow> bool" where
  "str_contains [] p \<longleftrightarrow> p = []"
| "str_contains (c # s) p \<longleftrightarrow> starts_with (c # s) p \<or> str_contains s p"

lemma str_contains_iff: "str_contains s p \<longleftrightarrow> sublist p s"
proof (induction s)
  case Nil
  then show ?case by simp
next
  case (Cons c s)
  have "starts_with (c # s) p \<longleftrightarrow> prefix p (c # s)"
    by (auto simp: starts_with_iff prefix_def)
  with Cons show ?case by (auto simp: sublist_Cons_right)
qed

lemma str_contains_append:
  "str_contains s p \<Longrightarrow> str_contains (xs @ s) p"
  by (metis str_contains_iff sublist_appendI sublist_order.order_trans append_Nil2)

text \<open>
  \<open>to_lowercase\<close> of the ASCII letters; other letters are left as they are. The only one among
  them whose lower case is an ASCII letter, the Kelvin sign, becomes a k, which no word that a
  lowered text is compared with has; so only the texts of error messages can differ.
\<close>

fun to_lower :: "string \<Rightarrow> string" where
  "to_lower [] = []"
| "to_lower (c # s) =
     (let n = of_char c :: nat in
      if 65 \<le> n \<and> n \<le> 90 then char_of (n + 32) # to_lower s else c # to_lower s)"

text \<open>A text between single quotes, as the error messages write it.\<close>

definition quoted :: "string \<Rightarrow> string" where
  "quoted s = CHR 0x27 # s @ [CHR 0x27]"

text \<open>Decimal \<open>Display\<close> of unsigned numbers, of flags, and of signed numbers.\<close>

fun show_nat :: "nat \<Rightarrow> string" where
  "show_nat n =
     (if n < 10 then [char_of (n + 48)] else show_nat (n div 10) @ [char_of (n mod 10 + 48)])"

declare show_nat.simps [simp del]

lemma digit_chars:
  "char_of (48::nat) = CHR ''0''" "char_of (49::nat) = CHR ''1''" "char_of (50::nat) = CHR ''2''"
  "char_of (51::nat) = CHR ''3''" "char_of (52::nat) = CHR ''4''" "char_of (53::nat) = CHR ''5''"
  "char_of (54::nat) = CHR ''6''" "char_of (55::nat) = CHR ''7''" "char_of (56::nat) = CHR ''8''"
  "char_of (57::nat) = CHR ''9''"
  by code_simp+

definition show_bool :: "bool \<Rightarrow> string" where
  "show_bool b = (if b then ''true'' else ''false'')"

definition show_int :: "int \<Rightarrow> string" where
  "show_int i = (if i < 0 then ''-'' @ show_nat (nat (- i)) else show_nat (nat i))"

text \<open>
  \<open>Debug\<close> of a duration: the whole part in the largest unit that fits, and the fraction
  without its trailing zeros.
\<close>

fun trim_zeros :: "string \<Rightarrow> string" where
  "trim_zeros s = rev (dropWhile (\<lambda>c. c = CHR ''0'') (rev s))"

definition show_decimal :: "nat \<Rightarrow> nat \<Rightarrow> nat \<Rightarrow> string" where
  "show_decimal whole frac width =
     (let digits = show_nat frac;
          padded = replicate (width - length digits) (CHR ''0'') @ digits
      in show_nat whole @ (if frac = 0 then [] else CHR ''.'' # trim_zeros padded))"

definition show_duration :: "duration \<Rightarrow> string" where
  "show_duration d =
     (if 10 ^ 9 \<le> d then show_decimal (d div 10 ^ 9) (d mod 10 ^ 9) 9 @ ''s''
      else if 10 ^ 6 \<le> d then show_decimal (d div 10 ^ 6) (d mod 10 ^ 6) 6 @ ''ms''
      else if 10 ^ 3 \<le> d then
        show_decimal (d div 10 ^ 3) (d mod 10 ^ 3) 3 @ [CHR 0xC2, CHR 0xB5, CHR ''s'']
      else show_nat d @ ''ns'')"

section \<open>State-passing programs\<close>

text \<open>
  An \<open>async fn\<close> that returns a \<open>Result\<close> and reads or writes shared state is a function
  from the state before to its result and the state after. \<open>pbind\<close> is the \<open>?\<close> operator.
\<close>

type_synonym ('s, 'a) prog = "'s \<Rightarrow> (err + 'a) \<times> 's"

definition pret :: "'a \<Rightarrow> ('s, 'a) prog" where
  "pret x = (\<lambda>s. (Inr x, s))"

definition pfail :: "err \<Rightarrow> ('s, 'a) prog" where
  "pfail e = (\<lambda>s. (Inl e, s))"

definition pbind :: "('s, 'a) prog \<Rightarrow> ('a \<Rightarrow> ('s, 'b) prog) \<Rightarrow> ('s, 'b) prog" where
  "pbind m f = (\<lambda>s. case m s of (Inl e, t) \<Rightarrow> (Inl e, t) | (Inr x, t) \<Rightarrow> f x t)"

lemma pret_apply [simp, prog_simps]: "pret x s = (Inr x, s)"
  by (simp add: pret_def)

lemma pfail_apply [simp, prog_simps]: "pfail e s = (Inl e, s)"
  by (simp add: pfail_def)

lemma pbind_apply [prog_simps]:
  "pbind m f s = (case m s of (Inl e, t) \<Rightarrow> (Inl e, t) | (Inr x, t) \<Rightarrow> f x t)"
  by (simp add: pbind_def)

lemma pbind_Inr [simp]: "m s = (Inr x, t) \<Longrightarrow> pbind m f s = f x t"
  by (simp add: pbind_def)

lemma pbind_Inl [simp]: "m s = (Inl e, t) \<Longrightarrow> pbind m f s = (Inl e, t)"
  by (simp add: pbind_def)

lemma pbind_InrE:
  assumes "pbind m f s = (Inr y, u)"
  obtains x t where "m s = (Inr x, t)" and "f x t = (Inr y, u)"
  using assms by (auto simp: pbind_def split: prod.splits sum.splits)

text \<open>A relation between the states before and after that every step of a program keeps.\<close>

definition preserves :: "('s \<Rightarrow> 's \<Rightarrow> bool) \<Rightarrow> ('s, 'a) prog \<Rightarrow> bool" where
  "preserves R m \<longleftrightarrow> (\<forall>s. R s (snd (m s)))"

lemma preservesI [intro?]: "(\<And>s. R s (snd (m s))) \<Longrightarrow> preserves R m"
  by (simp add: preserves_def)

lemma preservesD: "preserves R m \<Longrightarrow> m s = (r, t) \<Longrightarrow> R s t"
  by (metis preserves_def snd_conv)

lemma preserves_pret: "reflp R \<Longrightarrow> preserves R (pret x)"
  by (simp add: preserves_def reflpD)

lemma preserves_pfail: "reflp R \<Longrightarrow> preserves R (pfail e)"
  by (simp add: preserves_def reflpD)

lemma preserves_pbind:
  assumes "transp R" and "preserves R m" and "\<And>x. preserves R (f x)"
  shows "preserves R (pbind m f)"
proof
  fix s
  obtain r t where m: "m s = (r, t)" by (cases "m s")
  with assms(2) have st: "R s t" by (rule preservesD)
  show "R s (snd (pbind m f s))"
  proof (cases r)
    case (Inl e)
    with m st show ?thesis by simp
  next
    case (Inr x)
    obtain r' u where f: "f x t = (r', u)" by (cases "f x t")
    with assms(3) have "R t u" by (rule preservesD)
    with st assms(1) have "R s u" by (blast dest: transpD)
    with m Inr f show ?thesis by simp
  qed
qed

section \<open>Association lists\<close>

lemma map_of_delete_None [simp]: "map_of (AList.delete k m) k = None"
  by (simp add: delete_conv')

lemma set_delete_subset: "set (AList.delete k m) \<subseteq> set m"
  by (auto simp: AList.delete_eq)

lemma distinct_keys_delete [simp]:
  "distinct (map fst m) \<Longrightarrow> distinct (map fst (AList.delete k m))"
  by (simp add: distinct_delete)

lemma distinct_keys_update [simp]:
  "distinct (map fst m) \<Longrightarrow> distinct (map fst (AList.update k v m))"
  by (simp add: distinct_update)

lemma fst_set_update [simp]: "fst ` set (AList.update k v m) = insert k (fst ` set m)"
  by (simp add: AList.dom_update)

lemma fst_set_delete [simp]: "fst ` set (AList.delete k m) = fst ` set m - {k}"
  by (metis AList.delete_keys list.set_map set_removeAll)

lemma map_of_is_Some_in: "map_of m k = Some v \<Longrightarrow> k \<in> fst ` set m"
  by (metis domI dom_map_of_conv_image_fst)

section \<open>Keys of hash maps\<close>

text \<open>
  The contract of \<open>Eq\<close> and \<open>Hash\<close> for the keys of a hash map: equality is an equivalence and
  equal keys have equal hashes. Under it a lookup that compares only the keys with the same
  hash finds what a lookup through the whole list of entries finds, which is why the hash
  maps of the program are modelled as lists of entries.
\<close>

fun assoc_find :: "('k \<Rightarrow> 'k \<Rightarrow> bool) \<Rightarrow> 'k \<Rightarrow> ('k \<times> 'v) list \<Rightarrow> 'v option" where
  "assoc_find eq k [] = None"
| "assoc_find eq k ((k', v) # xs) = (if eq k' k then Some v else assoc_find eq k xs)"

definition bucket_find ::
  "('k \<Rightarrow> 'k \<Rightarrow> bool) \<Rightarrow> ('k \<Rightarrow> u64) \<Rightarrow> 'k \<Rightarrow> ('k \<times> 'v) list \<Rightarrow> 'v option" where
  "bucket_find eq hash k xs = assoc_find eq k (filter (\<lambda>(k', v). hash k' = hash k) xs)"

locale hash_key =
  fixes eq :: "'k \<Rightarrow> 'k \<Rightarrow> bool"
    and hash :: "'k \<Rightarrow> u64"
  assumes eq_equiv: "equivp eq"
    and eq_hash: "eq a b \<Longrightarrow> hash a = hash b"
begin

lemma find_in_bucket: "bucket_find eq hash k xs = assoc_find eq k xs"
  unfolding bucket_find_def
  by (induction xs) (auto dest: eq_hash)

lemma find_equal: "eq a b \<Longrightarrow> assoc_find eq a xs = assoc_find eq b xs"
proof (induction xs)
  case (Cons x xs)
  have "eq (fst x) a \<longleftrightarrow> eq (fst x) b"
    using Cons.prems eq_equiv by (metis equivp_symp equivp_transp)
  with Cons show ?case by (cases x) simp
qed simp

end

section \<open>Lists split by a key\<close>

text \<open>A list split by a key is the list again, up to its order.\<close>

lemma mset_split_by:
  assumes "distinct ks" and "\<forall>x \<in> set xs. k x \<in> set ks"
  shows "mset (concat (map (\<lambda>j. filter (\<lambda>x. k x = j) xs) ks)) = mset xs"
  using assms
proof (induction ks arbitrary: xs)
  case (Cons j ks)
  let ?ys = "filter (\<lambda>x. k x \<noteq> j) xs"
  have "filter (\<lambda>x. k x = i) xs = filter (\<lambda>x. k x = i) ?ys" if "i \<in> set ks" for i
    using that Cons.prems(1) by (auto intro: filter_cong)
  then have "concat (map (\<lambda>i. filter (\<lambda>x. k x = i) xs) ks) =
      concat (map (\<lambda>i. filter (\<lambda>x. k x = i) ?ys) ks)"
    by (intro arg_cong [where f = concat] map_cong refl)
  moreover have "mset (concat (map (\<lambda>i. filter (\<lambda>x. k x = i) ?ys) ks)) = mset ?ys"
    using Cons.prems by (intro Cons.IH) auto
  ultimately show ?case by (simp add: multiset_partition [of "mset xs" "\<lambda>x. k x = j", symmetric])
qed simp

end
