(* ===== verification/Runtime.thy ===== *)
theory Runtime
  imports Prelude
begin

text \<open>
  What the crate relies on and does not define: the \<open>fred\<close> Redis client. Its data types
  are listed as far as this crate builds or inspects them; its behaviour (what a request
  answers, the routing table, the key slot and SHA-1 functions) is the record \<open>fred\<close>, an
  argument of every definition that uses it. The remote side is a state of any type \<open>'w\<close>.

  The record \<open>globals\<close> holds the mutable statics of the crate: the two support flags of
  \<open>src/command/command_async_service.rs\<close> and the three caches of
  \<open>src/connection/service_manager.rs\<close>.
\<close>

section \<open>Data of the client library\<close>

type_synonym key = string
type_synonym f64 = "64 word"

datatype rvalue =
    Null
  | Boolean bool
  | Integer i64
  | Double f64
  | Str string
  | Bytes string
  | Queued
  | Array "rvalue list"

datatype server = Server (host: string) (port: u16)

datatype expiration = EX i64 | PX i64 | EXAT i64 | PXAT i64 | KEEPTTL

datatype set_options = NX | XX

datatype cluster_hash = FirstKey | Custom u16

record fred_options =
  max_attempts :: "u32 option"
  timeout :: "duration option"
  cluster_node :: "server option"

text \<open>One constructor per client method that the crate calls, with the arguments it passes.\<close>

datatype request =
    QGet key
  | QSet key rvalue "expiration option" "set_options option" bool
  | QDel "key list"
  | QExists "key list"
  | QExpire key i64
  | QPexpire key i64
  | QTtl key
  | QPttl key
  | QPersist key
  | QHGet key key
  | QHSet key "key \<times> rvalue"
  | QHGetAll key
  | QHDel key "key list"
  | QHExists key key
  | QHLen key
  | QHIncrBy key key i64
  | QSAdd key "rvalue list"
  | QSRem key "rvalue list"
  | QSMembers key
  | QSIsMember key rvalue
  | QSCard key
  | QZAdd key "set_options option" bool bool "f64 \<times> rvalue"
  | QZRem key "rvalue list"
  | QZScore key rvalue
  | QZCard key
  | QEval string "key list" "rvalue list"
  | QEvalSha string "key list" "rvalue list"
  | QWait i64 i64
  | QScriptLoadCluster string
  | QCustom string cluster_hash "rvalue list"

text \<open>The routing table snapshot that \<open>Pool::cached_cluster_state\<close> returns.\<close>

record routing =
  get_server :: "u16 \<Rightarrow> server option"
  replicas :: "server \<Rightarrow> server list"
  unique_primary_nodes :: "server list"

text \<open>
  \<open>fr_call\<close> is a call through \<open>pool.with_options\<close>, \<open>fr_pool\<close> one on the pool itself.
  \<open>fr_pick\<close> is \<open>pool.next()\<close>: the position of the client the pool hands out; \<open>fr_client\<close> is
  a call on that client. \<open>fr_pick_replicas\<close> and \<open>fr_replica\<close> are the same for
  \<open>pool.replicas()\<close>. \<open>fr_push\<close> says whether a pipeline refuses to buffer a request.
  \<open>fr_info\<close> is \<open>info(All)\<close> read as a string, \<open>fr_debug\<close> the \<open>Debug\<close> text of a value.
\<close>

record 'w fred =
  fr_call :: "fred_options \<Rightarrow> request \<Rightarrow> ('w, rvalue) prog"
  fr_pool :: "request \<Rightarrow> ('w, rvalue) prog"
  fr_pick :: "'w \<Rightarrow> nat \<times> 'w"
  fr_client :: "nat \<Rightarrow> request \<Rightarrow> ('w, rvalue) prog"
  fr_pick_replicas :: "'w \<Rightarrow> nat \<times> 'w"
  fr_replica :: "nat \<Rightarrow> request \<Rightarrow> ('w, rvalue) prog"
  fr_push :: "request \<Rightarrow> err option"
  fr_info :: "fred_options \<Rightarrow> ('w, string) prog"
  fr_cluster_state :: "'w \<Rightarrow> routing option"
  fr_hosts :: "'w \<Rightarrow> server list"
  fr_sleep :: "duration \<Rightarrow> 'w \<Rightarrow> 'w"
  fr_keyslot :: "string \<Rightarrow> u16"
  fr_sha1 :: "string \<Rightarrow> string"
  fr_debug :: "rvalue \<Rightarrow> string"

section \<open>The statics of the crate\<close>

record cached_slave_info =
  connected_slaves :: i64
  aof_enabled :: bool

text \<open>An LRU cache, the most recently used entry first.\<close>

type_synonym ('k, 'v) lru = "('k \<times> 'v) list"

record 'w globals =
  sort_ro_supported :: bool
  eval_sha_ro_supported :: bool
  sha_cache :: "(string, string) lru"
  script_sha_cache :: "server \<rightharpoonup> string set"
  slave_info_cache :: "server \<rightharpoonup> cached_slave_info"
  remote :: 'w

text \<open>The initial values of the statics.\<close>

definition initial_globals :: "'w \<Rightarrow> 'w globals" where
  "initial_globals w =
     \<lparr>sort_ro_supported = True, eval_sha_ro_supported = True, sha_cache = [],
      script_sha_cache = Map.empty, slave_info_cache = Map.empty, remote = w\<rparr>"

text \<open>The next client of the pool, as a program.\<close>

definition pick :: "('w \<Rightarrow> nat \<times> 'w) \<Rightarrow> ('w, nat) prog" where
  "pick p w = (case p w of (i, w') \<Rightarrow> (Inr i, w'))"

text \<open>\<open>pool.next().f(..)\<close> and \<open>pool.replicas().f(..)\<close>.\<close>

definition call_next :: "'w fred \<Rightarrow> request \<Rightarrow> ('w, rvalue) prog" where
  "call_next fr q = pbind (pick (fr_pick fr)) (\<lambda>i. fr_client fr i q)"

definition call_replicas :: "'w fred \<Rightarrow> request \<Rightarrow> ('w, rvalue) prog" where
  "call_replicas fr q = pbind (pick (fr_pick_replicas fr)) (\<lambda>i. fr_replica fr i q)"

definition on_remote :: "('w, 'a) prog \<Rightarrow> ('w globals, 'a) prog" where
  "on_remote m = (\<lambda>s. case m (remote s) of (r, w) \<Rightarrow> (r, s\<lparr>remote := w\<rparr>))"

lemma on_remote_apply [prog_simps]:
  "on_remote m s = (fst (m (remote s)), s\<lparr>remote := snd (m (remote s))\<rparr>)"
  by (simp add: on_remote_def case_prod_unfold)

lemma on_remote_frame [simp]:
  "sort_ro_supported (snd (on_remote m s)) = sort_ro_supported s"
  "eval_sha_ro_supported (snd (on_remote m s)) = eval_sha_ro_supported s"
  "sha_cache (snd (on_remote m s)) = sha_cache s"
  "script_sha_cache (snd (on_remote m s)) = script_sha_cache s"
  "slave_info_cache (snd (on_remote m s)) = slave_info_cache s"
  by (simp_all add: on_remote_apply)

text \<open>
  A client that also writes down every request it is given, with the options or the part
  of the pool it went through. The theorems on which requests an operation sends are
  stated for the recorded client.
\<close>

datatype via =
    WithOptions fred_options
  | OnPool
  | OnClient nat
  | OnReplica nat
  | Info fred_options

type_synonym 'w logged = "'w \<times> (via \<times> request option) list"

definition logged_call ::
  "via \<Rightarrow> request option \<Rightarrow> ('w, 'a) prog \<Rightarrow> ('w logged, 'a) prog" where
  "logged_call v q m = (\<lambda>(w, l). case m w of (r, w') \<Rightarrow> (r, (w', l @ [(v, q)])))"

definition logged :: "'w fred \<Rightarrow> 'w logged fred" where
  "logged fr =
     \<lparr>fr_call = (\<lambda>opts q. logged_call (WithOptions opts) (Some q) (fr_call fr opts q)),
      fr_pool = (\<lambda>q. logged_call OnPool (Some q) (fr_pool fr q)),
      fr_pick = (\<lambda>(w, l). case fr_pick fr w of (i, w') \<Rightarrow> (i, (w', l))),
      fr_client = (\<lambda>i q. logged_call (OnClient i) (Some q) (fr_client fr i q)),
      fr_pick_replicas = (\<lambda>(w, l). case fr_pick_replicas fr w of (i, w') \<Rightarrow> (i, (w', l))),
      fr_replica = (\<lambda>i q. logged_call (OnReplica i) (Some q) (fr_replica fr i q)),
      fr_push = fr_push fr,
      fr_info = (\<lambda>opts. logged_call (Info opts) None (fr_info fr opts)),
      fr_cluster_state = fr_cluster_state fr \<circ> fst,
      fr_hosts = fr_hosts fr \<circ> fst,
      fr_sleep = (\<lambda>d (w, l). (fr_sleep fr d w, l)),
      fr_keyslot = fr_keyslot fr,
      fr_sha1 = fr_sha1 fr, fr_debug = fr_debug fr\<rparr>"

lemma logged_call_apply [prog_simps]:
  "logged_call v q m (w, l) = (fst (m w), (snd (m w), l @ [(v, q)]))"
  by (simp add: logged_call_def case_prod_unfold)

lemma logged_simps [simp]:
  "fr_call (logged fr) opts q = logged_call (WithOptions opts) (Some q) (fr_call fr opts q)"
  "fr_pool (logged fr) q = logged_call OnPool (Some q) (fr_pool fr q)"
  "fr_pick (logged fr) (w, l) = (fst (fr_pick fr w), (snd (fr_pick fr w), l))"
  "fr_client (logged fr) i q = logged_call (OnClient i) (Some q) (fr_client fr i q)"
  "fr_pick_replicas (logged fr) (w, l) =
     (fst (fr_pick_replicas fr w), (snd (fr_pick_replicas fr w), l))"
  "fr_replica (logged fr) i q = logged_call (OnReplica i) (Some q) (fr_replica fr i q)"
  "fr_push (logged fr) = fr_push fr"
  "fr_info (logged fr) opts = logged_call (Info opts) None (fr_info fr opts)"
  "fr_cluster_state (logged fr) wl = fr_cluster_state fr (fst wl)"
  "fr_hosts (logged fr) wl = fr_hosts fr (fst wl)"
  "fr_keyslot (logged fr) = fr_keyslot fr"
  "fr_sha1 (logged fr) = fr_sha1 fr"
  "fr_debug (logged fr) = fr_debug fr"
  by (simp_all add: logged_def case_prod_unfold)

end
