(* ===== verification/Services.thy ===== *)
theory Services
  imports Runtime
begin

text \<open>
  \<open>src/connection/service_manager.rs\<close>: the digest cache, the per-node script caches, the
  per-node replication state and the registry of client-side caches. The digest cache is an
  LRU cache of capacity 500, the two per-node caches are maps from endpoints.

  Two interfaces are stated as locales and interpreted on these operations: a memoised
  digest function (\<open>sha_oracle\<close>), on which the script cache and the script commands rely,
  and a cache with per-key and global invalidation (\<open>node_cache\<close>), on which the
  synchronised evaluation relies.
\<close>

section \<open>Interfaces\<close>

text \<open>Threading a stateful function through a list, as the iterator adaptors do.\<close>

fun calc_list :: "('x \<Rightarrow> 's \<Rightarrow> 'y \<times> 's) \<Rightarrow> 'x list \<Rightarrow> 's \<Rightarrow> 'y list \<times> 's" where
  "calc_list calc [] s = ([], s)"
| "calc_list calc (x # xs) s =
     (case calc x s of (y, t) \<Rightarrow> case calc_list calc xs t of (ys, u) \<Rightarrow> (y # ys, u))"

locale sha_oracle =
  fixes digest :: "string \<Rightarrow> string"
    and calc :: "string \<Rightarrow> 's \<Rightarrow> string \<times> 's"
    and ok :: "'s \<Rightarrow> bool"
  assumes calc_digest: "ok s \<Longrightarrow> fst (calc x s) = digest x"
    and calc_ok: "ok s \<Longrightarrow> ok (snd (calc x s))"
begin

lemma calc_eq: "ok s \<Longrightarrow> calc x s = (y, t) \<Longrightarrow> y = digest x \<and> ok t"
  using calc_digest [of s x] calc_ok [of s x] by simp

lemma calc_list_eq:
  "ok s \<Longrightarrow> calc_list calc xs s = (ys, t) \<Longrightarrow> ys = map digest xs \<and> ok t"
proof (induction xs arbitrary: s ys t)
  case Nil
  then show ?case by simp
next
  case (Cons x xs)
  obtain y u where y: "calc x s = (y, u)" by fastforce
  obtain zs v where zs: "calc_list calc xs u = (zs, v)" by fastforce
  from calc_eq [OF Cons.prems(1) y] have "y = digest x" and "ok u" by auto
  with Cons.IH [OF \<open>ok u\<close> zs] Cons.prems(2) y zs show ?case by simp
qed

end

locale node_cache =
  fixes get :: "'s \<Rightarrow> 'k \<Rightarrow> 'v option"
    and put :: "'k \<Rightarrow> 'v \<Rightarrow> 's \<Rightarrow> 's"
    and drop_key :: "'k \<Rightarrow> 's \<Rightarrow> 's"
    and clear :: "'s \<Rightarrow> 's"
  assumes get_put: "get (put k v s) = (get s)(k \<mapsto> v)"
    and get_drop: "get (drop_key k s) = (get s)(k := None)"
    and get_clear: "get (clear s) = Map.empty"
begin

lemmas cache_laws = get_put get_drop get_clear

lemma drop_put: "get (drop_key k (put k v s)) = get (drop_key k s)"
  by (simp add: cache_laws)

lemma put_put: "get (put k v (put k u s)) = get (put k v s)"
  by (simp add: cache_laws)

text \<open>
  Reading through the cache: after a miss is answered and stored, the entry is the answer;
  no other entry changes.
\<close>

lemma read_through:
  "get s k = None \<Longrightarrow> get (put k v s) k = Some v \<and> (\<forall>j. j \<noteq> k \<longrightarrow> get (put k v s) j = get s j)"
  by (simp add: cache_laws)

end

section \<open>The digest cache\<close>

definition lru_get :: "'k \<Rightarrow> ('k, 'v) lru \<Rightarrow> 'v option \<times> ('k, 'v) lru" where
  "lru_get k c =
     (case map_of c k of None \<Rightarrow> (None, c) | Some v \<Rightarrow> (Some v, (k, v) # AList.delete k c))"

definition lru_put :: "nat \<Rightarrow> 'k \<Rightarrow> 'v \<Rightarrow> ('k, 'v) lru \<Rightarrow> ('k, 'v) lru" where
  "lru_put cap k v c = take cap ((k, v) # AList.delete k c)"

definition sha_capacity :: nat where
  "sha_capacity = 500"

definition calc_sha :: "'w fred \<Rightarrow> string \<Rightarrow> 'w globals \<Rightarrow> string \<times> 'w globals" where
  "calc_sha fr script s =
     (case lru_get script (sha_cache s) of
        (Some sha, c) \<Rightarrow> (sha, s\<lparr>sha_cache := c\<rparr>)
      | (None, c) \<Rightarrow>
          let sha = fr_sha1 fr script
          in (sha, s\<lparr>sha_cache := lru_put sha_capacity script sha c\<rparr>))"

definition sha_cache_ok :: "'w fred \<Rightarrow> 'w globals \<Rightarrow> bool" where
  "sha_cache_ok fr s \<longleftrightarrow>
     distinct (map fst (sha_cache s)) \<and> length (sha_cache s) \<le> sha_capacity \<and>
     (\<forall>(k, v) \<in> set (sha_cache s). v = fr_sha1 fr k)"

lemma length_delete_Some: "map_of c k = Some v \<Longrightarrow> length (AList.delete k c) < length c"
  by (auto simp: AList.delete_eq intro!: length_filter_less dest: map_of_SomeD)

lemma lru_get_props:
  assumes "lru_get k c = (r, c')" and "distinct (map fst c)"
  shows "r = map_of c k \<and> distinct (map fst c') \<and> length c' \<le> length c \<and> set c' \<subseteq> set c"
proof (cases "map_of c k")
  case None
  with assms show ?thesis by (auto simp: lru_get_def)
next
  case (Some v)
  then have "(k, v) \<in> set c" by (rule map_of_SomeD)
  moreover have "k \<notin> fst ` set (AList.delete k c)" by simp
  ultimately show ?thesis
    using assms Some length_delete_Some [OF Some] set_delete_subset [of k c]
    by (auto simp: lru_get_def)
qed

lemma lru_put_props:
  assumes "distinct (map fst c)" and "0 < cap"
  shows "distinct (map fst (lru_put cap k v c))" "length (lru_put cap k v c) \<le> cap"
    "set (lru_put cap k v c) \<subseteq> insert (k, v) (set c)" "map_of (lru_put cap k v c) k = Some v"
proof -
  have "distinct (map fst ((k, v) # AList.delete k c))" using assms(1) by simp
  then have "distinct (take cap (map fst ((k, v) # AList.delete k c)))"
    by (rule distinct_take)
  then show "distinct (map fst (lru_put cap k v c))"
    by (simp only: lru_put_def take_map)
  show "length (lru_put cap k v c) \<le> cap" by (simp add: lru_put_def)
  show "set (lru_put cap k v c) \<subseteq> insert (k, v) (set c)"
    using set_take_subset [of cap "(k, v) # AList.delete k c"] set_delete_subset [of k c]
    by (auto simp: lru_put_def)
  show "map_of (lru_put cap k v c) k = Some v"
    using assms(2) by (cases cap) (simp_all add: lru_put_def)
qed

lemma calc_sha_value:
  assumes "sha_cache_ok fr s"
  shows "fst (calc_sha fr x s) = fr_sha1 fr x"
proof -
  obtain r c where g: "lru_get x (sha_cache s) = (r, c)" by fastforce
  with assms have "r = map_of (sha_cache s) x"
    by (auto simp: sha_cache_ok_def dest: lru_get_props)
  with assms g show ?thesis
    by (auto simp: calc_sha_def sha_cache_ok_def Let_def split: option.splits
        dest!: map_of_SomeD)
qed

lemma calc_sha_ok:
  assumes "sha_cache_ok fr s"
  shows "sha_cache_ok fr (snd (calc_sha fr x s))"
proof -
  obtain r c where g: "lru_get x (sha_cache s) = (r, c)" by fastforce
  have c: "distinct (map fst c)" "length c \<le> sha_capacity" "\<forall>(k, v) \<in> set c. v = fr_sha1 fr k"
    using lru_get_props [OF g] assms by (auto simp: sha_cache_ok_def)
  show ?thesis
  proof (cases r)
    case None
    let ?c = "lru_put sha_capacity x (fr_sha1 fr x) c"
    have "0 < sha_capacity" by (simp add: sha_capacity_def)
    note put = lru_put_props [OF c(1) this, of x "fr_sha1 fr x"]
    have "\<forall>(k, v) \<in> set ?c. v = fr_sha1 fr k" using put(3) c(3) by blast
    with put(1,2) have "sha_cache_ok fr (s\<lparr>sha_cache := ?c\<rparr>)" by (simp add: sha_cache_ok_def)
    with g None show ?thesis by (simp add: calc_sha_def Let_def)
  next
    case (Some v)
    with g c show ?thesis by (simp add: calc_sha_def sha_cache_ok_def)
  qed
qed

interpretation sha: sha_oracle "fr_sha1 fr" "calc_sha fr" "sha_cache_ok fr"
  for fr :: "'w fred"
  by unfold_locales (rule calc_sha_value, assumption, rule calc_sha_ok)

lemma calc_sha_frame [simp]:
  "script_sha_cache (snd (calc_sha fr x s)) = script_sha_cache s"
  "slave_info_cache (snd (calc_sha fr x s)) = slave_info_cache s"
  "remote (snd (calc_sha fr x s)) = remote s"
  "sort_ro_supported (snd (calc_sha fr x s)) = sort_ro_supported s"
  "eval_sha_ro_supported (snd (calc_sha fr x s)) = eval_sha_ro_supported s"
  by (simp_all add: calc_sha_def Let_def split: prod.split option.split)

lemma calc_shas_frame:
  "calc_list (calc_sha fr) xs s = (ys, t) \<Longrightarrow>
   script_sha_cache t = script_sha_cache s \<and> slave_info_cache t = slave_info_cache s \<and>
   remote t = remote s \<and> sort_ro_supported t = sort_ro_supported s \<and>
   eval_sha_ro_supported t = eval_sha_ro_supported s"
proof (induction xs arbitrary: s ys t)
  case (Cons x xs)
  obtain y u where u: "calc_sha fr x s = (y, u)" by fastforce
  obtain zs where zs: "calc_list (calc_sha fr) xs u = (zs, t)"
    using Cons.prems u by (auto split: prod.splits)
  show ?case using Cons.IH [OF zs] calc_sha_frame [of fr x s] u by simp
qed simp

section \<open>Script caches\<close>

definition is_cached :: "'w fred \<Rightarrow> server \<Rightarrow> string \<Rightarrow> 'w globals \<Rightarrow> bool \<times> 'w globals" where
  "is_cached fr srv script s =
     (case calc_sha fr script s of (sha, t) \<Rightarrow>
        (case script_sha_cache t srv of None \<Rightarrow> False | Some shas \<Rightarrow> sha \<in> shas, t))"

definition cache_scripts :: "'w fred \<Rightarrow> server \<Rightarrow> string list \<Rightarrow> 'w globals \<Rightarrow> 'w globals" where
  "cache_scripts fr srv scripts s =
     (case calc_list (calc_sha fr) scripts s of (shas, t) \<Rightarrow>
        t\<lparr>script_sha_cache := (script_sha_cache t)
            (srv \<mapsto> (case script_sha_cache t srv of None \<Rightarrow> {} | Some old \<Rightarrow> old) \<union> set shas)\<rparr>)"

definition clear_all_script_caches :: "'w globals \<Rightarrow> 'w globals" where
  "clear_all_script_caches s = s\<lparr>script_sha_cache := Map.empty\<rparr>"

text \<open>The digests known to be loaded on a node.\<close>

definition loaded_shas :: "'w globals \<Rightarrow> server \<Rightarrow> string set" where
  "loaded_shas s srv = (case script_sha_cache s srv of None \<Rightarrow> {} | Some shas \<Rightarrow> shas)"

lemma is_cached_iff:
  assumes "sha_cache_ok fr s" and "is_cached fr srv script s = (b, t)"
  shows "b \<longleftrightarrow> fr_sha1 fr script \<in> loaded_shas s srv"
    and "sha_cache_ok fr t" and "loaded_shas t = loaded_shas s"
    and "remote t = remote s" and "slave_info_cache t = slave_info_cache s"
proof -
  obtain sha u where u: "calc_sha fr script s = (sha, u)" by fastforce
  have sha: "sha = fr_sha1 fr script" "sha_cache_ok fr u" using sha.calc_eq [OF assms(1) u] by auto
  have frame: "script_sha_cache u = script_sha_cache s" "remote u = remote s"
    "slave_info_cache u = slave_info_cache s"
    using calc_sha_frame [of fr script s] u by auto
  have t: "t = u" and b: "b \<longleftrightarrow> sha \<in> loaded_shas s srv"
    using assms(2) u frame by (auto simp: is_cached_def loaded_shas_def split: option.splits)
  show "b \<longleftrightarrow> fr_sha1 fr script \<in> loaded_shas s srv" using b sha by simp
  show "sha_cache_ok fr t" using t sha by simp
  show "loaded_shas t = loaded_shas s" using t frame by (simp add: loaded_shas_def fun_eq_iff)
  show "remote t = remote s" and "slave_info_cache t = slave_info_cache s" using t frame by auto
qed

lemma cache_scripts_props:
  assumes "sha_cache_ok fr s"
  shows "loaded_shas (cache_scripts fr srv scripts s) =
           (loaded_shas s)(srv := loaded_shas s srv \<union> fr_sha1 fr ` set scripts)"
    and "sha_cache_ok fr (cache_scripts fr srv scripts s)"
    and "remote (cache_scripts fr srv scripts s) = remote s"
    and "slave_info_cache (cache_scripts fr srv scripts s) = slave_info_cache s"
proof -
  obtain shas t where c: "calc_list (calc_sha fr) scripts s = (shas, t)" by fastforce
  with assms have t: "shas = map (fr_sha1 fr) scripts" "sha_cache_ok fr t"
    by (auto dest: sha.calc_list_eq)
  note frame = calc_shas_frame [OF c]
  show "loaded_shas (cache_scripts fr srv scripts s) =
      (loaded_shas s)(srv := loaded_shas s srv \<union> fr_sha1 fr ` set scripts)"
    using c t(1) frame
    by (auto simp: cache_scripts_def loaded_shas_def fun_eq_iff split: option.splits)
  show "sha_cache_ok fr (cache_scripts fr srv scripts s)"
    using c t(2) by (simp add: cache_scripts_def sha_cache_ok_def)
  show "remote (cache_scripts fr srv scripts s) = remote s"
    and "slave_info_cache (cache_scripts fr srv scripts s) = slave_info_cache s"
    using c frame by (simp_all add: cache_scripts_def)
qed

section \<open>Replication state per node\<close>

definition get_slave_info :: "'w globals \<Rightarrow> server \<Rightarrow> cached_slave_info option" where
  "get_slave_info s srv = slave_info_cache s srv"

definition set_slave_info :: "server \<Rightarrow> cached_slave_info \<Rightarrow> 'w globals \<Rightarrow> 'w globals" where
  "set_slave_info srv info s = s\<lparr>slave_info_cache := (slave_info_cache s)(srv \<mapsto> info)\<rparr>"

definition invalidate_slave_info :: "server \<Rightarrow> 'w globals \<Rightarrow> 'w globals" where
  "invalidate_slave_info srv s = s\<lparr>slave_info_cache := (slave_info_cache s)(srv := None)\<rparr>"

definition clear_all_slave_info :: "'w globals \<Rightarrow> 'w globals" where
  "clear_all_slave_info s = s\<lparr>slave_info_cache := Map.empty\<rparr>"

interpretation slave_info: node_cache get_slave_info set_slave_info invalidate_slave_info
  clear_all_slave_info
  by unfold_locales
    (auto simp: get_slave_info_def set_slave_info_def invalidate_slave_info_def
      clear_all_slave_info_def)

text \<open>The listener that \<open>register_reconnect_listener\<close> installs.\<close>

definition on_reconnect :: "server \<Rightarrow> 'w globals \<Rightarrow> 'w globals" where
  "on_reconnect srv s =
     s\<lparr>script_sha_cache := (script_sha_cache s)(srv := None),
       slave_info_cache := (slave_info_cache s)(srv := None)\<rparr>"

section \<open>Client-side caches\<close>

text \<open>An \<open>Arc\<close> is its address and the object behind it; the registry is keyed by address.\<close>

datatype 'i arc = Arc (arc_addr: u64) (arc_obj: 'i)

record 'i service_manager =
  caching_instances :: "(u64 \<times> 'i arc) list"

definition service_manager_new :: "'i service_manager" where
  "service_manager_new = \<lparr>caching_instances = []\<rparr>"

definition add_client_side_caching :: "'i arc \<Rightarrow> 'i service_manager \<Rightarrow> 'i service_manager" where
  "add_client_side_caching a sm =
     sm\<lparr>caching_instances := AList.update (arc_addr a) a (caching_instances sm)\<rparr>"

definition remove_client_side_caching :: "'i arc \<Rightarrow> 'i service_manager \<Rightarrow> 'i service_manager" where
  "remove_client_side_caching a sm =
     sm\<lparr>caching_instances := AList.delete (arc_addr a) (caching_instances sm)\<rparr>"

definition has_caching_instances :: "'i service_manager \<Rightarrow> bool" where
  "has_caching_instances sm \<longleftrightarrow> caching_instances sm \<noteq> []"

text \<open>The calls of \<open>clear_cache\<close> that an eviction makes: the instance and the key name.\<close>

definition evict_client_side_caching :: "string \<Rightarrow> 'i service_manager \<Rightarrow> ('i \<times> string) list" where
  "evict_client_side_caching name sm =
     map (\<lambda>(k, a). (arc_obj a, name)) (caching_instances sm)"

definition registry_ok :: "'i service_manager \<Rightarrow> bool" where
  "registry_ok sm \<longleftrightarrow> distinct (map fst (caching_instances sm)) \<and>
     (\<forall>(k, a) \<in> set (caching_instances sm). k = arc_addr a)"

lemma registry_new: "registry_ok service_manager_new"
  by (simp add: registry_ok_def service_manager_new_def)

lemma set_update_subset: "set (AList.update k v m) \<subseteq> insert (k, v) (set m)"
  by (induction m) auto

lemma registry_add: "registry_ok sm \<Longrightarrow> registry_ok (add_client_side_caching a sm)"
  using set_update_subset [of "arc_addr a" a "caching_instances sm"]
  by (auto simp: registry_ok_def add_client_side_caching_def)

lemma registry_remove: "registry_ok sm \<Longrightarrow> registry_ok (remove_client_side_caching a sm)"
  using set_delete_subset [of "arc_addr a" "caching_instances sm"]
  by (auto simp: registry_ok_def remove_client_side_caching_def)

section \<open>Histories of the caches\<close>

text \<open>
  Every operation on the statics as one event, and the effect of a history of them. The
  reference for the script caches reads the history alone: the digests loaded on a node are
  those stored for it since the caches were last dropped for it.
\<close>

datatype cache_event =
    CalcSha string
  | IsCached server string
  | CacheScripts server "string list"
  | ClusterChange
  | Reconnect server
  | SetSlaveInfo server cached_slave_info
  | InvalidateSlaveInfo server

fun cache_step :: "'w fred \<Rightarrow> cache_event \<Rightarrow> 'w globals \<Rightarrow> 'w globals" where
  "cache_step fr (CalcSha x) s = snd (calc_sha fr x s)"
| "cache_step fr (IsCached srv x) s = snd (is_cached fr srv x s)"
| "cache_step fr (CacheScripts srv xs) s = cache_scripts fr srv xs s"
| "cache_step fr ClusterChange s = clear_all_slave_info (clear_all_script_caches s)"
| "cache_step fr (Reconnect srv) s = on_reconnect srv s"
| "cache_step fr (SetSlaveInfo srv info) s = set_slave_info srv info s"
| "cache_step fr (InvalidateSlaveInfo srv) s = invalidate_slave_info srv s"

fun loaded_in :: "(string \<Rightarrow> string) \<Rightarrow> cache_event list \<Rightarrow> server \<Rightarrow> string set" where
  \<comment> \<open>the history, latest event first\<close>
  "loaded_in sha [] srv = {}"
| "loaded_in sha (CacheScripts node xs # es) srv =
     (if node = srv then sha ` set xs else {}) \<union> loaded_in sha es srv"
| "loaded_in sha (ClusterChange # es) srv = {}"
| "loaded_in sha (Reconnect node # es) srv = (if node = srv then {} else loaded_in sha es srv)"
| "loaded_in sha (_ # es) srv = loaded_in sha es srv"

text \<open>The same for the replication state: the last value stored and not dropped since.\<close>

fun slave_info_in :: "cache_event list \<Rightarrow> server \<Rightarrow> cached_slave_info option" where
  "slave_info_in [] srv = None"
| "slave_info_in (SetSlaveInfo node info # es) srv =
     (if node = srv then Some info else slave_info_in es srv)"
| "slave_info_in (InvalidateSlaveInfo node # es) srv =
     (if node = srv then None else slave_info_in es srv)"
| "slave_info_in (Reconnect node # es) srv =
     (if node = srv then None else slave_info_in es srv)"
| "slave_info_in (ClusterChange # es) srv = None"
| "slave_info_in (_ # es) srv = slave_info_in es srv"

lemma cache_step_refines:
  assumes "sha_cache_ok fr s" and "loaded_shas s = loaded_in (fr_sha1 fr) es"
    and "get_slave_info s = slave_info_in es"
  shows "sha_cache_ok fr (cache_step fr e s) \<and>
    loaded_shas (cache_step fr e s) = loaded_in (fr_sha1 fr) (e # es) \<and>
    get_slave_info (cache_step fr e s) = slave_info_in (e # es)"
proof (cases e)
  case (CalcSha x)
  with assms show ?thesis
    by (auto simp: sha.calc_ok loaded_shas_def get_slave_info_def fun_eq_iff)
next
  case (IsCached srv x)
  obtain b t where t: "is_cached fr srv x s = (b, t)" by fastforce
  with assms IsCached is_cached_iff [OF assms(1) t] show ?thesis
    by (auto simp: get_slave_info_def fun_eq_iff)
next
  case (CacheScripts srv xs)
  with assms cache_scripts_props [OF assms(1), of srv xs] show ?thesis
    by (auto simp: get_slave_info_def fun_eq_iff)
qed (use assms in \<open>auto simp: sha_cache_ok_def loaded_shas_def get_slave_info_def on_reconnect_def
  clear_all_slave_info_def clear_all_script_caches_def set_slave_info_def
  invalidate_slave_info_def fun_eq_iff\<close>)

lemma cache_history_refines:
  "sha_cache_ok fr (foldr (cache_step fr) es (initial_globals w)) \<and>
   loaded_shas (foldr (cache_step fr) es (initial_globals w)) = loaded_in (fr_sha1 fr) es \<and>
   get_slave_info (foldr (cache_step fr) es (initial_globals w)) = slave_info_in es"
proof (induction es)
  case Nil
  show ?case
    by (auto simp: initial_globals_def sha_cache_ok_def loaded_shas_def get_slave_info_def)
next
  case (Cons e es)
  then show ?case using cache_step_refines by fastforce
qed

end
