(* ===== verification/Config.thy ===== *)
theory Config
  imports Runtime
begin

text \<open>
  Configuration, \<open>src/config\<close>: the deserialised \<open>RedisConfig\<close> with its defaults, the typed
  \<open>RedissonConfig\<close>, the conversion between the two, and the client library's own
  configuration records that are built from it. The library's defaults are arguments.
\<close>

section \<open>Modes\<close>

record redis_node =
  rn_host :: string
  rn_port :: u16

datatype server_mode =
    Standalone redis_node u8
  | Cluster "redis_node list"
  | Sentinel "redis_node list" string "string option" "string option" u8

datatype read_mode = Slave | Master | MasterSlave

definition default_read_mode :: read_mode where
  "default_read_mode = Slave"

datatype sharded_subscription_mode = Auto | On | Off

definition default_sharded_subscription_mode :: sharded_subscription_mode where
  "default_sharded_subscription_mode = Auto"

fun is_cluster :: "server_mode \<Rightarrow> bool" where
  "is_cluster (Cluster ns) = True"
| "is_cluster _ = False"

fun is_standalone :: "server_mode \<Rightarrow> bool" where
  "is_standalone (Standalone n d) = True"
| "is_standalone _ = False"

section \<open>The deserialised configuration\<close>

record redis_config =
  rc_mode :: string
  rc_host :: string
  rc_port :: u16
  rc_nodes :: "redis_node list"
  rc_sentinel_service_name :: string
  rc_sentinel_username :: "string option"
  rc_sentinel_password :: "string option"
  rc_username :: "string option"
  rc_password :: "string option"
  rc_db :: u8
  rc_command_timeout_secs :: u64
  rc_connect_timeout_secs :: u64
  rc_max_command_attempts :: u32
  rc_max_redirections :: u32
  rc_reconnect_max_attempts :: u32
  rc_reconnect_min_delay_ms :: u32
  rc_reconnect_max_delay_ms :: u32
  rc_reconnect_multiplier :: u32
  rc_pool_size :: nat
  rc_lock_watchdog_timeout :: u64
  rc_subscription_timeout :: u64
  rc_command_timeout_ms :: u64
  rc_retry_attempts :: u32
  rc_retry_delay_base_ms :: u64
  rc_retry_delay_max_ms :: u64
  rc_sharded_subscription_mode :: string
  rc_read_mode :: string
  rc_use_script_cache :: bool
  rc_slaves_sync_timeout_ms :: u64
  rc_check_lock_synced_slaves :: bool

definition default_redis_config :: redis_config where
  "default_redis_config =
     \<lparr>rc_mode = ''standalone'', rc_host = ''localhost'', rc_port = 6379, rc_nodes = [],
      rc_sentinel_service_name = ''mymaster'', rc_sentinel_username = None,
      rc_sentinel_password = None, rc_username = None, rc_password = None, rc_db = 0,
      rc_command_timeout_secs = 0, rc_connect_timeout_secs = 5, rc_max_command_attempts = 3,
      rc_max_redirections = 5, rc_reconnect_max_attempts = 0, rc_reconnect_min_delay_ms = 1,
      rc_reconnect_max_delay_ms = 30000, rc_reconnect_multiplier = 2, rc_pool_size = 5,
      rc_lock_watchdog_timeout = 30, rc_subscription_timeout = 7500,
      rc_command_timeout_ms = 3000, rc_retry_attempts = 4, rc_retry_delay_base_ms = 1000,
      rc_retry_delay_max_ms = 2000, rc_sharded_subscription_mode = ''auto'',
      rc_read_mode = ''slave'', rc_use_script_cache = True, rc_slaves_sync_timeout_ms = 1000,
      rc_check_lock_synced_slaves = True\<rparr>"

section \<open>The typed configuration\<close>

record redisson_config =
  cf_mode :: server_mode
  cf_username :: "string option"
  cf_password :: "string option"
  cf_command_timeout :: duration
  cf_connect_timeout :: duration
  cf_max_command_attempts :: u32
  cf_max_redirections :: u32
  cf_reconnect_max_attempts :: u32
  cf_reconnect_min_delay :: duration
  cf_reconnect_max_delay :: duration
  cf_reconnect_multiplier :: u32
  cf_pool_size :: nat
  cf_lock_watchdog_timeout :: duration
  cf_subscription_timeout :: duration
  cf_retry_attempts :: u32
  cf_retry_delay :: duration
  cf_sharded_subscription_mode :: sharded_subscription_mode
  cf_read_mode :: read_mode
  cf_use_script_cache :: bool
  cf_slaves_sync_timeout :: duration
  cf_check_lock_synced_slaves :: bool

definition parse_mode :: "redis_config \<Rightarrow> err + server_mode" where
  "parse_mode c =
     (let m = to_lower (rc_mode c) in
      if m = ''standalone'' then
        Inr (Standalone \<lparr>rn_host = rc_host c, rn_port = rc_port c\<rparr> (rc_db c))
      else if m = ''cluster'' then
        (if rc_nodes c = [] then Inl (Msg (''Cluster mode requires at least one node in '' @ quoted ''nodes''))
         else Inr (Cluster (rc_nodes c)))
      else if m = ''sentinel'' then
        (if rc_nodes c = [] then Inl (Msg (''Sentinel mode requires at least one node in '' @ quoted ''nodes''))
         else Inr (Sentinel (rc_nodes c) (rc_sentinel_service_name c) (rc_sentinel_username c)
                (rc_sentinel_password c) (rc_db c)))
      else Inl (Msg (''Invalid mode '' @ quoted m @ ''. Expected: standalone, cluster, sentinel'')))"

definition parse_sharded_mode :: "redis_config \<Rightarrow> err + sharded_subscription_mode" where
  "parse_sharded_mode c =
     (let m = to_lower (rc_sharded_subscription_mode c) in
      if m = ''auto'' then Inr Auto
      else if m = ''on'' then Inr On
      else if m = ''off'' then Inr Off
      else Inl (Msg (''Invalid sharded_subscription_mode '' @ quoted m
             @ ''. Expected: auto, on, off'')))"

definition parse_read_mode :: "redis_config \<Rightarrow> err + read_mode" where
  "parse_read_mode c =
     (let m = to_lower (rc_read_mode c) in
      if m = ''slave'' then Inr Slave
      else if m = ''master'' then Inr Master
      else if m = ''master_slave'' then Inr MasterSlave
      else Inl (Msg (''Invalid read_mode '' @ quoted m
             @ ''. Expected: slave, master, master_slave'')))"

definition try_from_config :: "redis_config \<Rightarrow> err + redisson_config" where
  "try_from_config c =
     (case parse_mode c of Inl e \<Rightarrow> Inl e | Inr md \<Rightarrow>
      case parse_sharded_mode c of Inl e \<Rightarrow> Inl e | Inr ssm \<Rightarrow>
      case parse_read_mode c of Inl e \<Rightarrow> Inl e | Inr rm \<Rightarrow>
      Inr \<lparr>cf_mode = md, cf_username = rc_username c, cf_password = rc_password c,
           cf_command_timeout = from_millis (rc_command_timeout_ms c),
           cf_connect_timeout = from_secs (rc_connect_timeout_secs c),
           cf_max_command_attempts = rc_max_command_attempts c,
           cf_max_redirections = rc_max_redirections c,
           cf_reconnect_max_attempts = rc_reconnect_max_attempts c,
           cf_reconnect_min_delay = from_millis (ucast (rc_reconnect_min_delay_ms c)),
           cf_reconnect_max_delay = from_millis (ucast (rc_reconnect_max_delay_ms c)),
           cf_reconnect_multiplier = rc_reconnect_multiplier c,
           cf_pool_size = rc_pool_size c,
           cf_lock_watchdog_timeout = from_secs (rc_lock_watchdog_timeout c),
           cf_subscription_timeout = from_millis (rc_subscription_timeout c),
           cf_retry_attempts = rc_retry_attempts c,
           cf_retry_delay = from_millis (rc_retry_delay_base_ms c),
           cf_sharded_subscription_mode = ssm, cf_read_mode = rm,
           cf_use_script_cache = rc_use_script_cache c,
           cf_slaves_sync_timeout = from_millis (rc_slaves_sync_timeout_ms c),
           cf_check_lock_synced_slaves = rc_check_lock_synced_slaves c\<rparr>)"

section \<open>The configuration records of the client\<close>

datatype discovery_policy = DefaultDiscovery

datatype server_config =
    Centralized server
  | Clustered "server list" discovery_policy
  | SentinelConfig "server list" string "string option" "string option"

record fred_config =
  fc_server :: server_config
  fc_username :: "string option"
  fc_password :: "string option"
  fc_database :: "u8 option"

record perf_config =
  default_command_timeout :: duration

record connection_config =
  connection_timeout :: duration
  cc_max_command_attempts :: u32
  cc_max_redirections :: u32

record reconnect_policy =
  rp_max_attempts :: u32
  rp_min_delay :: u32
  rp_max_delay :: u32
  rp_mult :: u32

definition node_server :: "redis_node \<Rightarrow> server" where
  "node_server n = Server (rn_host n) (rn_port n)"

definition build_fred_config :: "redisson_config \<Rightarrow> err + fred_config" where
  "build_fred_config c =
     (let (srv, database) =
        (case cf_mode c of
           Standalone n d \<Rightarrow> (Centralized (node_server n), Some d)
         | Cluster ns \<Rightarrow> (Clustered (map node_server ns) DefaultDiscovery, None)
         | Sentinel ns name user pass d \<Rightarrow>
             (SentinelConfig (map node_server ns) name user pass, Some d))
      in Inr \<lparr>fc_server = srv, fc_username = cf_username c, fc_password = cf_password c,
              fc_database = database\<rparr>)"

definition build_perf_config :: "perf_config \<Rightarrow> redisson_config \<Rightarrow> perf_config" where
  "build_perf_config dflt c =
     (if cf_command_timeout c > 0 then dflt\<lparr>default_command_timeout := cf_command_timeout c\<rparr>
      else dflt)"

definition build_connection_config ::
  "connection_config \<Rightarrow> redisson_config \<Rightarrow> connection_config" where
  "build_connection_config dflt c =
     (let conn = (if cf_connect_timeout c > 0
                  then dflt\<lparr>connection_timeout := cf_connect_timeout c\<rparr> else dflt)
      in conn\<lparr>cc_max_command_attempts := cf_max_command_attempts c,
              cc_max_redirections := cf_max_redirections c\<rparr>)"

text \<open>The arguments of \<open>ReconnectPolicy::new_exponential\<close>, with the casts to \<open>u32\<close>.\<close>

definition build_reconnect_policy :: "redisson_config \<Rightarrow> reconnect_policy" where
  "build_reconnect_policy c =
     \<lparr>rp_max_attempts = cf_reconnect_max_attempts c,
      rp_min_delay = of_nat (as_millis (cf_reconnect_min_delay c)),
      rp_max_delay = of_nat (as_millis (cf_reconnect_max_delay c)),
      rp_mult = cf_reconnect_multiplier c\<rparr>"

section \<open>Lemmas\<close>

lemmas parse_defs = parse_mode_def parse_sharded_mode_def parse_read_mode_def

lemma parse_mode_ok:
  "(\<exists>m. parse_mode c = Inr m) \<longleftrightarrow>
     to_lower (rc_mode c) = ''standalone'' \<or>
     to_lower (rc_mode c) \<in> {''cluster'', ''sentinel''} \<and> rc_nodes c \<noteq> []"
  by (auto simp: parse_mode_def Let_def)

lemma parse_sharded_mode_ok:
  "(\<exists>m. parse_sharded_mode c = Inr m) \<longleftrightarrow>
     to_lower (rc_sharded_subscription_mode c) \<in> {''auto'', ''on'', ''off''}"
  by (auto simp: parse_sharded_mode_def Let_def)

lemma parse_read_mode_ok:
  "(\<exists>m. parse_read_mode c = Inr m) \<longleftrightarrow>
     to_lower (rc_read_mode c) \<in> {''slave'', ''master'', ''master_slave''}"
  by (auto simp: parse_read_mode_def Let_def)

lemma try_from_config_ok:
  "(\<exists>r. try_from_config c = Inr r) \<longleftrightarrow>
     (\<exists>m. parse_mode c = Inr m) \<and> (\<exists>m. parse_sharded_mode c = Inr m) \<and>
     (\<exists>m. parse_read_mode c = Inr m)"
  by (simp add: try_from_config_def split: sum.split)

text \<open>What a successful conversion consists of.\<close>

lemma try_from_configE:
  assumes "try_from_config c = Inr r"
  obtains md ssm rm where "parse_mode c = Inr md" "parse_sharded_mode c = Inr ssm"
    "parse_read_mode c = Inr rm" "cf_mode r = md" "cf_sharded_subscription_mode r = ssm"
    "cf_read_mode r = rm"
  using assms by (auto simp: try_from_config_def split: sum.splits)

lemma ucast_ucast_u32 [simp]: "(ucast (ucast (x :: u32) :: u64) :: u32) = x"
  by (rule ucast_up_ucast_id) (simp add: is_up)

lemma try_from_config_reconnect:
  "try_from_config c = Inr r \<Longrightarrow>
   build_reconnect_policy r =
     \<lparr>rp_max_attempts = rc_reconnect_max_attempts c,
      rp_min_delay = rc_reconnect_min_delay_ms c,
      rp_max_delay = rc_reconnect_max_delay_ms c,
      rp_mult = rc_reconnect_multiplier c\<rparr>"
  by (auto simp: try_from_config_def build_reconnect_policy_def split: sum.splits)

text \<open>The endpoints a client configuration names, in the order the client is given them.\<close>

fun config_hosts :: "server_config \<Rightarrow> server list" where
  "config_hosts (Centralized s) = [s]"
| "config_hosts (Clustered hs p) = hs"
| "config_hosts (SentinelConfig hs n u p) = hs"

text \<open>The endpoints a deserialised configuration names.\<close>

definition configured_hosts :: "redis_config \<Rightarrow> server list" where
  "configured_hosts c =
     (if to_lower (rc_mode c) = ''standalone'' then [Server (rc_host c) (rc_port c)]
      else map (\<lambda>n. Server (rn_host n) (rn_port n)) (rc_nodes c))"

lemma build_fred_config_hosts:
  assumes "try_from_config c = Inr r" and "build_fred_config r = Inr fc"
  shows "config_hosts (fc_server fc) = configured_hosts c"
  using assms
  by (auto simp: try_from_config_def parse_mode_def build_fred_config_def configured_hosts_def
      node_server_def Let_def split: sum.splits if_splits)

lemma build_fred_config_total: "\<exists>fc. build_fred_config c = Inr fc"
  by (simp add: build_fred_config_def Let_def split_beta)

end
