(* ===== verification/Connection.thy ===== *)
theory Connection
  imports Config
begin

text \<open>
  Routing: \<open>src/connection/master_slave_entry.rs\<close>, \<open>src/connection/node_source.rs\<close> and the
  routing part of \<open>src/connection/fred_connection_manager.rs\<close>. The routing table and the
  configured endpoints belong to the client; the manager picks entries from them. The
  locale \<open>topology\<close> is the contract of the three lookups on which the batch service and
  the pub/sub service rely.
\<close>

section \<open>Entries\<close>

record master_slave_entry =
  primary :: server
  mse_slot :: "u16 option"

definition from_slot :: "u16 \<Rightarrow> server \<Rightarrow> master_slave_entry" where
  "from_slot sl p = \<lparr>primary = p, mse_slot = Some sl\<rparr>"

definition from_server :: "server \<Rightarrow> master_slave_entry" where
  "from_server p = \<lparr>primary = p, mse_slot = None\<rparr>"

definition get_client :: "master_slave_entry \<Rightarrow> server" where
  "get_client e = primary e"

text \<open>\<open>PartialEq\<close> (and \<open>Hash\<close>) of entries: host and port of the primary, not the slot.\<close>

definition mse_eq :: "master_slave_entry \<Rightarrow> master_slave_entry \<Rightarrow> bool" where
  "mse_eq a b \<longleftrightarrow>
     host (primary a) = host (primary b) \<and> port (primary a) = port (primary b)"

lemma mse_eq_primary: "mse_eq a b \<longleftrightarrow> primary a = primary b"
  by (auto simp: mse_eq_def server.expand)

lemma equivp_mse_eq: "equivp mse_eq"
  by (auto simp: equivp_def mse_eq_primary fun_eq_iff)

text \<open>\<open>Hash\<close> feeds the host and then the port to the hasher, whose steps are arguments.\<close>

definition mse_hash ::
  "(string \<Rightarrow> 's \<Rightarrow> 's) \<Rightarrow> (u16 \<Rightarrow> 's \<Rightarrow> 's) \<Rightarrow> master_slave_entry \<Rightarrow> 's \<Rightarrow> 's" where
  "mse_hash feed_str feed_u16 e st = feed_u16 (port (primary e)) (feed_str (host (primary e)) st)"

interpretation mse_key: hash_key mse_eq "\<lambda>e. finish (mse_hash feed_str feed_u16 e st)"
  for feed_str :: "string \<Rightarrow> 's \<Rightarrow> 's" and feed_u16 :: "u16 \<Rightarrow> 's \<Rightarrow> 's" and finish :: "'s \<Rightarrow> u64" and st
  by unfold_locales (simp_all add: equivp_mse_eq mse_hash_def mse_eq_def)

text \<open>Two entries of one primary with different slots are the same key of a node map.\<close>

lemma mse_same_key:
  "bucket_find mse_eq (\<lambda>e. finish (mse_hash fs fu e st)) (from_slot sl p) xs =
   bucket_find mse_eq (\<lambda>e. finish (mse_hash fs fu e st)) (from_slot sl' p) xs"
  unfolding mse_key.find_in_bucket
  by (rule mse_key.find_equal) (simp add: mse_eq_primary from_slot_def)

section \<open>Node sources\<close>

datatype redirect = Moved | Ask

record node_source =
  ns_entry :: "master_slave_entry option"
  ns_slot :: "u16 option"
  ns_server :: "server option"
  ns_redirect :: "redirect option"

definition node_source_from_slot :: "u16 \<Rightarrow> node_source" where
  "node_source_from_slot sl =
     \<lparr>ns_entry = None, ns_slot = Some sl, ns_server = None, ns_redirect = None\<rparr>"

definition node_source_from_entry :: "master_slave_entry \<Rightarrow> node_source" where
  "node_source_from_entry e =
     \<lparr>ns_entry = Some e, ns_slot = None, ns_server = None, ns_redirect = None\<rparr>"

definition from_entry_and_server :: "master_slave_entry \<Rightarrow> server \<Rightarrow> node_source" where
  "from_entry_and_server e srv =
     \<lparr>ns_entry = Some e, ns_slot = None, ns_server = Some srv, ns_redirect = None\<rparr>"

definition from_slot_redirect :: "u16 \<Rightarrow> server \<Rightarrow> redirect \<Rightarrow> node_source" where
  "from_slot_redirect sl srv r =
     \<lparr>ns_entry = None, ns_slot = Some sl, ns_server = Some srv, ns_redirect = Some r\<rparr>"

definition node_source_get_entry :: "node_source \<Rightarrow> master_slave_entry option" where
  "node_source_get_entry ns = ns_entry ns"

definition node_source_get_slot :: "node_source \<Rightarrow> u16 option" where
  "node_source_get_slot ns = ns_slot ns"

definition node_source_get_server :: "node_source \<Rightarrow> server option" where
  "node_source_get_server ns = ns_server ns"

definition node_source_get_redirect :: "node_source \<Rightarrow> redirect option" where
  "node_source_get_redirect ns = ns_redirect ns"

text \<open>
  The states the constructors can build: a node is addressed by an entry or by a slot, never
  by both, and a redirect always comes with the slot and the address it redirects to.
\<close>

definition node_source_ok :: "node_source \<Rightarrow> bool" where
  "node_source_ok ns \<longleftrightarrow>
     (ns_entry ns = None) \<noteq> (ns_slot ns = None) \<and>
     (ns_redirect ns \<noteq> None \<longrightarrow> ns_slot ns \<noteq> None \<and> ns_server ns \<noteq> None)"

lemma node_source_constructors_ok:
  "node_source_ok (node_source_from_slot sl)" "node_source_ok (node_source_from_entry e)"
  "node_source_ok (from_entry_and_server e srv)" "node_source_ok (from_slot_redirect sl srv r)"
  by (simp_all add: node_source_ok_def node_source_from_slot_def node_source_from_entry_def
      from_entry_and_server_def from_slot_redirect_def)

section \<open>The lookups of the connection manager\<close>

text \<open>
  \<open>hosts().into_iter().next()\<close>, as an entry. Outside a cluster the code reads the hosts from
  the client that \<open>pool.next()\<close> hands out, all clients having the same configuration. That the
  rotation of the pool moves on by one is left out: the lookups are functions of the remote
  state that do not change it.
\<close>

definition first_host_entry :: "'w fred \<Rightarrow> 'w \<Rightarrow> master_slave_entry option" where
  "first_host_entry fr w = (case fr_hosts fr w of [] \<Rightarrow> None | h # hs \<Rightarrow> Some (from_server h))"

definition get_write_entry :: "'w fred \<Rightarrow> 'w \<Rightarrow> u16 \<Rightarrow> master_slave_entry option" where
  "get_write_entry fr w sl =
     (case fr_cluster_state fr w of
        Some rt \<Rightarrow> map_option (from_slot sl) (get_server rt sl)
      | None \<Rightarrow> first_host_entry fr w)"

definition get_entry_set :: "'w fred \<Rightarrow> 'w \<Rightarrow> master_slave_entry list" where
  "get_entry_set fr w =
     (case fr_cluster_state fr w of
        Some rt \<Rightarrow> map from_server (unique_primary_nodes rt)
      | None \<Rightarrow> (case first_host_entry fr w of None \<Rightarrow> [] | Some e \<Rightarrow> [e]))"

definition get_read_entry ::
  "'w fred \<Rightarrow> read_mode \<Rightarrow> 'w \<Rightarrow> u16 \<Rightarrow> master_slave_entry option" where
  "get_read_entry fr rm w sl =
     (if rm = Master then get_write_entry fr w sl
      else
        (case fr_cluster_state fr w of
           Some rt \<Rightarrow>
             (case get_server rt sl of
                Some p \<Rightarrow>
                  let rs = replicas rt p in
                  if rs \<noteq> [] then Some (from_slot sl (rs ! (unat sl mod length rs)))
                  else Some (from_slot sl p)
              | None \<Rightarrow> get_write_entry fr w sl)
         | None \<Rightarrow> get_write_entry fr w sl))"

text \<open>
  The publish command the cluster supports. In automatic mode the answer to
  \<open>PUBSUB SHARDNUMSUB\<close> decides; the request is an argument, its answer is what matters.
\<close>

definition check_sharding_support ::
  "('w, rvalue) prog \<Rightarrow> redisson_config \<Rightarrow> 'w \<Rightarrow> string \<times> 'w" where
  "check_sharding_support shardnumsub c w =
     (if \<not> is_cluster (cf_mode c) then (''publish'', w)
      else
        (case cf_sharded_subscription_mode c of
           Off \<Rightarrow> (''publish'', w)
         | On \<Rightarrow> (''spublish'', w)
         | Auto \<Rightarrow>
             (case shardnumsub w of
                (Inr v, w') \<Rightarrow> (''spublish'', w')
              | (Inl e, w') \<Rightarrow> (''publish'', w'))))"

section \<open>The contract of the lookups\<close>

locale topology =
  fixes write_entry :: "'w \<Rightarrow> u16 \<Rightarrow> master_slave_entry option"
    and read_entry :: "read_mode \<Rightarrow> 'w \<Rightarrow> u16 \<Rightarrow> master_slave_entry option"
    and entry_set :: "'w \<Rightarrow> master_slave_entry list"
    and backs :: "'w \<Rightarrow> server \<Rightarrow> server \<Rightarrow> bool"
    and consistent :: "'w \<Rightarrow> bool"
  assumes read_defined: "read_entry rm w sl = None \<longleftrightarrow> write_entry w sl = None"
    and read_backs:
      "read_entry rm w sl = Some r \<Longrightarrow> write_entry w sl = Some e \<Longrightarrow>
       mse_slot r = mse_slot e \<and>
       (primary r = primary e \<or> rm \<noteq> Master \<and> backs w (primary e) (primary r))"
    and write_in_set:
      "consistent w \<Longrightarrow> write_entry w sl = Some e \<Longrightarrow>
       \<exists>e' \<in> set (entry_set w). mse_eq e' e"
begin

lemma master_reads_primary:
  "read_entry Master w sl = Some r \<Longrightarrow> \<exists>e. write_entry w sl = Some e \<and> mse_eq r e"
  using read_defined [of Master w sl] read_backs [of Master w sl r]
  by (auto simp: mse_eq_primary)

lemma broadcast_reaches_writer:
  "consistent w \<Longrightarrow> write_entry w sl = Some e \<Longrightarrow>
   primary e \<in> primary ` set (entry_set w)"
  by (metis imageI mse_eq_primary write_in_set)

end

definition is_replica_of :: "'w fred \<Rightarrow> 'w \<Rightarrow> server \<Rightarrow> server \<Rightarrow> bool" where
  "is_replica_of fr w p r \<longleftrightarrow>
     (case fr_cluster_state fr w of None \<Rightarrow> False | Some rt \<Rightarrow> r \<in> set (replicas rt p))"

text \<open>The routing table lists every server it routes a slot to among its primaries.\<close>

definition routing_consistent :: "'w fred \<Rightarrow> 'w \<Rightarrow> bool" where
  "routing_consistent fr w \<longleftrightarrow>
     (case fr_cluster_state fr w of None \<Rightarrow> True
      | Some rt \<Rightarrow> \<forall>sl p. get_server rt sl = Some p \<longrightarrow> p \<in> set (unique_primary_nodes rt))"

lemma read_entry_backs:
  assumes "get_read_entry fr rm w sl = Some r" and "get_write_entry fr w sl = Some e"
  shows "mse_slot r = mse_slot e \<and>
    (primary r = primary e \<or> rm \<noteq> Master \<and> is_replica_of fr w (primary e) (primary r))"
proof (cases "rm = Master")
  case True
  with assms show ?thesis by (simp add: get_read_entry_def)
next
  case False
  show ?thesis
  proof (cases "fr_cluster_state fr w")
    case None
    with False assms show ?thesis by (simp add: get_read_entry_def)
  next
    case (Some rt)
    with assms(2) obtain p where p: "get_server rt sl = Some p" "e = from_slot sl p"
      by (auto simp: get_write_entry_def)
    have "rs \<noteq> [] \<Longrightarrow> rs ! (unat sl mod length rs) \<in> set rs" for rs :: "server list"
      by (simp add: nth_mem)
    with False Some p assms(1) show ?thesis
      by (auto simp: get_read_entry_def is_replica_of_def from_slot_def Let_def split: if_splits)
  qed
qed

interpretation topo: topology "get_write_entry fr" "get_read_entry fr" "get_entry_set fr"
  "is_replica_of fr" "routing_consistent fr"
  for fr :: "'w fred"
proof unfold_locales
  fix rm w sl
  show "get_read_entry fr rm w sl = None \<longleftrightarrow> get_write_entry fr w sl = None"
    by (auto simp: get_read_entry_def get_write_entry_def Let_def split: option.splits)
next
  fix rm w sl r e
  assume "get_read_entry fr rm w sl = Some r" and "get_write_entry fr w sl = Some e"
  then show "mse_slot r = mse_slot e \<and>
    (primary r = primary e \<or> rm \<noteq> Master \<and> is_replica_of fr w (primary e) (primary r))"
    by (rule read_entry_backs)
next
  fix w sl e
  assume "routing_consistent fr w" and "get_write_entry fr w sl = Some e"
  then show "\<exists>e'\<in>set (get_entry_set fr w). mse_eq e' e"
    by (auto simp: routing_consistent_def get_write_entry_def get_entry_set_def mse_eq_primary
        from_slot_def from_server_def split: option.splits)
qed

end
