(* ===== verification/Options.thy ===== *)
theory Options
  imports Runtime
begin

text \<open>
  \<open>src/api/batch_options.rs\<close>, \<open>src/api/batch_result.rs\<close> and \<open>src/api/sync_mode.rs\<close>: the
  settings of a batch with their builder methods, and the result of a batch. The builders
  consume and return the settings; a chain of builder calls is a list of \<open>option_call\<close>s.
\<close>

datatype execution_mode = InMemory | InMemoryAtomic | RedisReadAtomic | RedisWriteAtomic

datatype sync_mode = SyncAuto | SyncWait | SyncWaitAof

record batch_options =
  bo_execution_mode :: execution_mode
  bo_response_timeout :: "duration option"
  bo_retry_attempts :: i32
  bo_retry_delay :: "duration option"
  bo_sync_slaves :: i64
  bo_sync_locals :: i64
  bo_sync_timeout :: duration
  bo_sync_aof :: bool
  bo_skip_result :: bool

definition defaults :: batch_options where
  "defaults =
     \<lparr>bo_execution_mode = InMemory, bo_response_timeout = None, bo_retry_attempts = -1,
      bo_retry_delay = None, bo_sync_slaves = 0, bo_sync_locals = 0, bo_sync_timeout = 0,
      bo_sync_aof = False, bo_skip_result = False\<rparr>"

definition sync :: "i64 \<Rightarrow> duration \<Rightarrow> batch_options \<Rightarrow> batch_options" where
  "sync slaves t o1 = o1\<lparr>bo_sync_slaves := slaves, bo_sync_timeout := t, bo_sync_aof := False\<rparr>"

definition sync_aof :: "i64 \<Rightarrow> i64 \<Rightarrow> duration \<Rightarrow> batch_options \<Rightarrow> batch_options" where
  "sync_aof locals slaves t o1 =
     o1\<lparr>bo_sync_locals := locals, bo_sync_slaves := slaves, bo_sync_timeout := t,
        bo_sync_aof := True\<rparr>"

definition set_execution_mode :: "execution_mode \<Rightarrow> batch_options \<Rightarrow> batch_options" where
  "set_execution_mode m o1 = o1\<lparr>bo_execution_mode := m\<rparr>"

definition skip_result :: "batch_options \<Rightarrow> batch_options" where
  "skip_result o1 = o1\<lparr>bo_skip_result := True\<rparr>"

definition set_response_timeout :: "duration \<Rightarrow> batch_options \<Rightarrow> batch_options" where
  "set_response_timeout t o1 = o1\<lparr>bo_response_timeout := Some t\<rparr>"

definition set_retry_attempts :: "i32 \<Rightarrow> batch_options \<Rightarrow> batch_options" where
  "set_retry_attempts n o1 = o1\<lparr>bo_retry_attempts := n\<rparr>"

definition set_retry_delay :: "duration \<Rightarrow> batch_options \<Rightarrow> batch_options" where
  "set_retry_delay d o1 = o1\<lparr>bo_retry_delay := Some d\<rparr>"

text \<open>The getters.\<close>

definition get_execution_mode :: "batch_options \<Rightarrow> execution_mode" where
  "get_execution_mode o1 = bo_execution_mode o1"

definition get_sync_slaves :: "batch_options \<Rightarrow> i64" where
  "get_sync_slaves o1 = bo_sync_slaves o1"

definition get_sync_locals :: "batch_options \<Rightarrow> i64" where
  "get_sync_locals o1 = bo_sync_locals o1"

definition get_sync_timeout :: "batch_options \<Rightarrow> duration" where
  "get_sync_timeout o1 = bo_sync_timeout o1"

definition is_sync_aof :: "batch_options \<Rightarrow> bool" where
  "is_sync_aof o1 = bo_sync_aof o1"

definition is_skip_result :: "batch_options \<Rightarrow> bool" where
  "is_skip_result o1 = bo_skip_result o1"

definition get_response_timeout :: "batch_options \<Rightarrow> duration option" where
  "get_response_timeout o1 = bo_response_timeout o1"

definition get_retry_attempts :: "batch_options \<Rightarrow> i32" where
  "get_retry_attempts o1 = bo_retry_attempts o1"

definition get_retry_delay :: "batch_options \<Rightarrow> duration option" where
  "get_retry_delay o1 = bo_retry_delay o1"

definition is_redis_based_queue :: "batch_options \<Rightarrow> bool" where
  "is_redis_based_queue o1 \<longleftrightarrow>
     bo_execution_mode o1 = RedisReadAtomic \<or> bo_execution_mode o1 = RedisWriteAtomic"

record batch_result =
  responses :: "rvalue list"
  synced_slaves :: i64

definition batch_result_new :: "rvalue list \<Rightarrow> i64 \<Rightarrow> batch_result" where
  "batch_result_new vs n = \<lparr>responses = vs, synced_slaves = n\<rparr>"

section \<open>Chains of builder calls\<close>

datatype option_call =
    CallSync i64 duration
  | CallSyncAof i64 i64 duration
  | CallMode execution_mode
  | CallSkip
  | CallResponseTimeout duration
  | CallRetryAttempts i32
  | CallRetryDelay duration

fun apply_call :: "option_call \<Rightarrow> batch_options \<Rightarrow> batch_options" where
  "apply_call (CallSync n t) = sync n t"
| "apply_call (CallSyncAof l n t) = sync_aof l n t"
| "apply_call (CallMode m) = set_execution_mode m"
| "apply_call CallSkip = skip_result"
| "apply_call (CallResponseTimeout t) = set_response_timeout t"
| "apply_call (CallRetryAttempts n) = set_retry_attempts n"
| "apply_call (CallRetryDelay d) = set_retry_delay d"

definition build_options :: "option_call list \<Rightarrow> batch_options" where
  "build_options cs = fold apply_call cs defaults"

text \<open>The last call of a chain that asks for replica synchronisation.\<close>

fun last_sync :: "option_call list \<Rightarrow> option_call option" where
  "last_sync [] = None"
| "last_sync (c # cs) =
     (case last_sync cs of Some d \<Rightarrow> Some d
      | None \<Rightarrow> (case c of CallSync n t \<Rightarrow> Some c | CallSyncAof l n t \<Rightarrow> Some c | _ \<Rightarrow> None))"

lemmas builder_defs = sync_def sync_aof_def set_execution_mode_def skip_result_def
  set_response_timeout_def set_retry_attempts_def set_retry_delay_def

text \<open>The synchronisation settings are those of the last synchronising call.\<close>

lemma fold_apply_call_sync:
  "(case last_sync cs of
      None \<Rightarrow> bo_sync_aof (fold apply_call cs o1) = bo_sync_aof o1 \<and>
        bo_sync_slaves (fold apply_call cs o1) = bo_sync_slaves o1 \<and>
        bo_sync_timeout (fold apply_call cs o1) = bo_sync_timeout o1 \<and>
        bo_sync_locals (fold apply_call cs o1) = bo_sync_locals o1
    | Some (CallSync n t) \<Rightarrow> \<not> bo_sync_aof (fold apply_call cs o1) \<and>
        bo_sync_slaves (fold apply_call cs o1) = n \<and>
        bo_sync_timeout (fold apply_call cs o1) = t
    | Some (CallSyncAof l n t) \<Rightarrow> bo_sync_aof (fold apply_call cs o1) \<and>
        bo_sync_slaves (fold apply_call cs o1) = n \<and>
        bo_sync_timeout (fold apply_call cs o1) = t \<and>
        bo_sync_locals (fold apply_call cs o1) = l
    | Some _ \<Rightarrow> False)"
proof (induction cs arbitrary: o1)
  case Nil
  show ?case by simp
next
  case (Cons c cs)
  show ?case
  proof (cases "last_sync cs")
    case None
    with Cons.IH [of "apply_call c o1"] show ?thesis
      by (cases c) (simp_all add: builder_defs)
  next
    case (Some d)
    with Cons.IH [of "apply_call c o1"] show ?thesis by (cases d) simp_all
  qed
qed

lemmas getter_defs = get_execution_mode_def get_sync_slaves_def get_sync_locals_def
  get_sync_timeout_def is_sync_aof_def is_skip_result_def get_response_timeout_def
  get_retry_attempts_def get_retry_delay_def

text \<open>A getter reads what the builder of the same setting wrote last, and no other builder writes it.\<close>

lemma getters_of_builders:
  "get_execution_mode (apply_call c o1) = (case c of CallMode m \<Rightarrow> m | _ \<Rightarrow> get_execution_mode o1)"
  "is_skip_result (apply_call c o1) \<longleftrightarrow> c = CallSkip \<or> is_skip_result o1"
  "get_response_timeout (apply_call c o1) =
     (case c of CallResponseTimeout t \<Rightarrow> Some t | _ \<Rightarrow> get_response_timeout o1)"
  "get_retry_attempts (apply_call c o1) = (case c of CallRetryAttempts n \<Rightarrow> n | _ \<Rightarrow> get_retry_attempts o1)"
  "get_retry_delay (apply_call c o1) = (case c of CallRetryDelay d \<Rightarrow> Some d | _ \<Rightarrow> get_retry_delay o1)"
  "get_sync_slaves (apply_call c o1) =
     (case c of CallSync n t \<Rightarrow> n | CallSyncAof l n t \<Rightarrow> n | _ \<Rightarrow> get_sync_slaves o1)"
  "get_sync_timeout (apply_call c o1) =
     (case c of CallSync n t \<Rightarrow> t | CallSyncAof l n t \<Rightarrow> t | _ \<Rightarrow> get_sync_timeout o1)"
  "get_sync_locals (apply_call c o1) = (case c of CallSyncAof l n t \<Rightarrow> l | _ \<Rightarrow> get_sync_locals o1)"
  "is_sync_aof (apply_call c o1) =
     (case c of CallSync n t \<Rightarrow> False | CallSyncAof l n t \<Rightarrow> True | _ \<Rightarrow> is_sync_aof o1)"
  by (cases c; simp add: builder_defs getter_defs)+

end
