(* ===== verification/Glob.thy ===== *)
theory Glob
  imports Prelude
begin

text \<open>
  The glob matcher of the pub/sub dispatcher: \<open>redis_glob_matches\<close> and \<open>glob_inner\<close> of
  \<open>src/pubsub/publish_subscribe_service.rs\<close>. The code keeps the pattern and the text as
  vectors of code points and two indices; so does the model, which is why its termination
  needs a measure on the pattern index. The reference is the inductive relation \<open>gmatch\<close>.
\<close>

function glob_inner :: "nat list \<Rightarrow> nat \<Rightarrow> nat list \<Rightarrow> nat \<Rightarrow> bool" where
  "glob_inner p pi t ti =
     (if length p \<le> pi then ti = length t
      else if p ! pi = 42 then list_ex (\<lambda>i. glob_inner p (Suc pi) t i) [ti..<Suc (length t)]
      else if p ! pi = 63 then ti < length t \<and> glob_inner p (Suc pi) t (Suc ti)
      else ti < length t \<and> t ! ti = p ! pi \<and> glob_inner p (Suc pi) t (Suc ti))"
  by pat_completeness auto
termination
  by (relation "measure (\<lambda>(p, pi, t, ti). length p - pi)") auto

declare glob_inner.simps [simp del]

definition redis_glob_matches :: "string \<Rightarrow> string \<Rightarrow> bool" where
  "redis_glob_matches pattern txt =
     (let p = chars pattern; t = chars txt in glob_inner p 0 t 0)"

text \<open>
  What a glob means: a star stands for any run of characters, a question mark for any one
  character, every other character for itself.
\<close>

inductive gmatch :: "nat list \<Rightarrow> nat list \<Rightarrow> bool" where
  gm_end: "gmatch [] []"
| gm_star: "gmatch ps ts \<Longrightarrow> gmatch (42 # ps) (us @ ts)"
| gm_any: "gmatch ps ts \<Longrightarrow> gmatch (63 # ps) (c # ts)"
| gm_char: "c \<noteq> 42 \<Longrightarrow> c \<noteq> 63 \<Longrightarrow> gmatch ps ts \<Longrightarrow> gmatch (c # ps) (c # ts)"

inductive_simps gmatch_Nil [simp]: "gmatch [] ts"
inductive_simps gmatch_Cons: "gmatch (c # ps) ts"

lemma drop_suffixes:
  "k \<le> length t \<Longrightarrow>
   (\<exists>us ts. drop k t = us @ ts \<and> P ts) \<longleftrightarrow> (\<exists>i\<in>{k..length t}. P (drop i t))"
proof
  assume k: "k \<le> length t" and "\<exists>us ts. drop k t = us @ ts \<and> P ts"
  then obtain us ts where d: "drop k t = us @ ts" and ts: "P ts" by blast
  have "drop (k + length us) t = ts"
    by (metis add.commute append_eq_conv_conj d drop_drop)
  moreover have "k + length us \<le> length t"
    using arg_cong [OF d, of length] k by simp
  ultimately show "\<exists>i\<in>{k..length t}. P (drop i t)" using ts by force
next
  assume "\<exists>i\<in>{k..length t}. P (drop i t)"
  then obtain i where i: "k \<le> i" "P (drop i t)" by auto
  have "drop k t = take (i - k) (drop k t) @ drop i t"
    using i(1) by (metis append_take_drop_id drop_drop le_add_diff_inverse2)
  with i(2) show "\<exists>us ts. drop k t = us @ ts \<and> P ts" by blast
qed

text \<open>One unfolding of the matcher, by the pattern character at the index.\<close>

lemma glob_inner_end: "length p \<le> pi \<Longrightarrow> glob_inner p pi t ti \<longleftrightarrow> ti = length t"
  by (simp add: glob_inner.simps)

lemma glob_inner_star:
  "pi < length p \<Longrightarrow> p ! pi = 42 \<Longrightarrow>
   glob_inner p pi t ti \<longleftrightarrow> (\<exists>i\<in>{ti..length t}. glob_inner p (Suc pi) t i)"
  by (subst glob_inner.simps)
    (simp add: list_ex_iff atLeastLessThanSuc_atLeastAtMost del: upt_Suc)

lemma glob_inner_any:
  "pi < length p \<Longrightarrow> p ! pi = 63 \<Longrightarrow>
   glob_inner p pi t ti \<longleftrightarrow> ti < length t \<and> glob_inner p (Suc pi) t (Suc ti)"
  by (subst glob_inner.simps) simp

lemma glob_inner_char:
  "pi < length p \<Longrightarrow> p ! pi \<noteq> 42 \<Longrightarrow> p ! pi \<noteq> 63 \<Longrightarrow>
   glob_inner p pi t ti \<longleftrightarrow>
     ti < length t \<and> t ! ti = p ! pi \<and> glob_inner p (Suc pi) t (Suc ti)"
  by (subst glob_inner.simps) simp

text \<open>The code's recursion on indices is the relation on the remaining suffixes.\<close>

lemma glob_inner_gmatch:
  "pi \<le> length p \<Longrightarrow> ti \<le> length t \<Longrightarrow>
   glob_inner p pi t ti \<longleftrightarrow> gmatch (drop pi p) (drop ti t)"
proof (induction "length p - pi" arbitrary: pi ti)
  case 0
  then show ?case by (auto simp: glob_inner_end)
next
  case (Suc n)
  then have pi: "pi < length p" by simp
  have n: "n = length p - Suc pi" and pi': "Suc pi \<le> length p" using Suc.hyps(2) by auto
  note IH = Suc.hyps(1) [OF n pi']
  have d: "drop pi p = p ! pi # drop (Suc pi) p"
    using pi by (simp add: Cons_nth_drop_Suc)
  have t: "ti < length t \<Longrightarrow> drop ti t = t ! ti # drop (Suc ti) t"
    by (simp add: Cons_nth_drop_Suc)
  consider "p ! pi = 42" | "p ! pi = 63" | "p ! pi \<noteq> 42" "p ! pi \<noteq> 63" by blast
  then show ?case
  proof cases
    case 1
    have "glob_inner p pi t ti \<longleftrightarrow> (\<exists>i\<in>{ti..length t}. gmatch (drop (Suc pi) p) (drop i t))"
      using pi 1 IH by (simp add: glob_inner_star)
    also have "\<dots> \<longleftrightarrow> gmatch (drop pi p) (drop ti t)"
      using drop_suffixes [OF Suc.prems(2), of "gmatch (drop (Suc pi) p)"]
      by (auto simp: d 1 gmatch_Cons)
    finally show ?thesis .
  next
    case 2
    with pi IH Suc.prems t show ?thesis
      by (cases "ti < length t") (auto simp: glob_inner_any d gmatch_Cons)
  next
    case 3
    with pi IH Suc.prems t show ?thesis
      by (cases "ti < length t") (auto simp: glob_inner_char d gmatch_Cons)
  qed
qed

lemma redis_glob_matches_iff:
  "redis_glob_matches pattern txt \<longleftrightarrow> gmatch (chars pattern) (chars txt)"
  by (simp add: redis_glob_matches_def glob_inner_gmatch Let_def)

section \<open>Facts about the relation\<close>

lemma gmatch_literal:
  "42 \<notin> set ps \<Longrightarrow> 63 \<notin> set ps \<Longrightarrow> gmatch (ps @ qs) ts \<longleftrightarrow> (\<exists>us. ts = ps @ us \<and> gmatch qs us)"
  by (induction ps arbitrary: ts) (auto simp: gmatch_Cons)

lemma gmatch_star_all: "gmatch [42] ts"
  using gm_star [OF gm_end, of ts] by simp

lemma gmatch_star_prefix:
  "42 \<notin> set ps \<Longrightarrow> 63 \<notin> set ps \<Longrightarrow> gmatch (ps @ [42]) ts \<longleftrightarrow> prefix ps ts"
  using gmatch_literal [of ps "[42]" ts] by (auto simp: prefix_def gmatch_star_all)

end
