(* ===== verification/Utf8.thy ===== *)
theory Utf8
  imports Prelude
begin

text \<open>
  The UTF-8 encoding of code points, and that \<open>chars\<close> of Prelude, with which the glob matcher
  and the channel names read Rust strings, decodes it: what is proved of the code points of a
  string holds of every text, not of ASCII alone.
\<close>

definition continuation :: "nat \<Rightarrow> char" where
  "continuation n = char_of (128 + n mod 64)"

definition utf8_char :: "nat \<Rightarrow> string" where
  "utf8_char n =
     (if n < 128 then [char_of n]
      else if n < 2048 then [char_of (192 + n div 64), continuation n]
      else if n < 65536 then
        [char_of (224 + n div 4096), continuation (n div 64), continuation n]
      else
        [char_of (240 + n div 262144), continuation (n div 4096), continuation (n div 64),
         continuation n])"

definition utf8 :: "nat list \<Rightarrow> string" where
  "utf8 ns = concat (map utf8_char ns)"

lemma of_char_continuation: "of_char (continuation n) = 128 + n mod 64"
  by (simp add: continuation_def)

lemma split_64: "n div 4096 = n div 64 div 64" "n div 262144 = n div 64 div 64 div 64"
  for n :: nat
  by (simp_all add: div_mult2_eq [symmetric])

lemma digits_64:
  "n div 64 * 64 + n mod 64 = n"
  "n div 4096 * 4096 + n div 64 mod 64 * 64 + n mod 64 = n"
  "n div 262144 * 262144 + n div 4096 mod 64 * 4096 + n div 64 mod 64 * 64 + n mod 64 = n"
  for n :: nat
proof -
  show one: "n div 64 * 64 + n mod 64 = n" for n :: nat by simp
  show two: "n div 4096 * 4096 + n div 64 mod 64 * 64 + n mod 64 = n" for n :: nat
    using one [of n] one [of "n div 64"] unfolding split_64 by linarith
  show "n div 262144 * 262144 + n div 4096 mod 64 * 4096 + n div 64 mod 64 * 64 + n mod 64 = n"
    using one [of n] two [of "n div 64"] unfolding split_64 by linarith
qed

lemma chars_utf8_char:
  assumes "n < 1114112"
  shows "chars (utf8_char n @ s) = n # chars s"
proof -
  consider "n < 128" | "128 \<le> n" "n < 2048" | "2048 \<le> n" "n < 65536" | "65536 \<le> n" by linarith
  then show ?thesis
  proof cases
    case 1
    then show ?thesis by (simp add: utf8_char_def)
  next
    case 2
    then have "192 + n div 64 < 224" by simp
    with 2 show ?thesis by (simp add: utf8_char_def of_char_continuation digits_64)
  next
    case 3
    then have "224 + n div 4096 < 240" by simp
    with 3 show ?thesis by (simp add: utf8_char_def of_char_continuation digits_64)
  next
    case 4
    have "240 + n div 262144 < 256" using assms by simp
    with 4 show ?thesis by (simp add: utf8_char_def of_char_continuation digits_64)
  qed
qed

lemma chars_utf8:
  "(\<And>n. n \<in> set ns \<Longrightarrow> n < 1114112) \<Longrightarrow> chars (utf8 ns) = ns"
proof (induction ns)
  case (Cons n ns)
  then show ?case using chars_utf8_char [of n "utf8 ns"] by (simp add: utf8_def)
qed (simp add: utf8_def)

end
