(* ===== verification/CoreSpec.thy ===== *)
theory CoreSpec
  imports Services Connection Options Glob Utf8
begin

text \<open>
  The properties of the parts that keep little or no state: the glob matcher, the
  configuration, the batch options, the script and replication caches and the routing.
\<close>

section \<open>Globs\<close>

text \<open>
  C34: The glob matcher decides the glob relation on code points: a star stands for any run
  of characters, a question mark for exactly one, every other character for itself, and
  the whole channel name has to match.
\<close>

theorem glob_matches_spec:
  "redis_glob_matches pattern txt \<longleftrightarrow> gmatch (chars pattern) (chars txt)"
  by (rule redis_glob_matches_iff)

text \<open>On code points, for the UTF-8 bytes of any two texts.\<close>

lemma glob_matches_texts:
  assumes "\<And>n. n \<in> set ps \<Longrightarrow> n < 1114112" and "\<And>n. n \<in> set ts \<Longrightarrow> n < 1114112"
  shows "redis_glob_matches (utf8 ps) (utf8 ts) \<longleftrightarrow> gmatch ps ts"
  by (simp only: redis_glob_matches_iff chars_utf8 [OF assms(1)] chars_utf8 [OF assms(2)])

text \<open>
  A literal ASCII name followed by a star, the usual form of a keyspace pattern, matches
  exactly the channel names that begin with it.
\<close>

theorem glob_prefix_pattern:
  assumes "ascii p" and "CHR ''*'' \<notin> set p" and "CHR ''?'' \<notin> set p"
  shows "redis_glob_matches (p @ ''*'') txt \<longleftrightarrow> prefix (chars p) (chars txt)"
proof -
  have a: "ascii (p @ ''*'')" using assms(1) by (simp add: ascii_def)
  have code: "(of_char c :: nat) = of_char d \<longleftrightarrow> c = d" for c d :: char by simp
  have "(42::nat) \<notin> set (map of_char p)" "(63::nat) \<notin> set (map of_char p)"
    using assms(2,3) code [of _ "CHR ''*''"] code [of _ "CHR ''?''"] by (auto simp: image_iff) 
  then show ?thesis
    using gmatch_star_prefix [of "map of_char p" "chars txt"] assms(1) a
    by (simp add: redis_glob_matches_iff chars_ascii)
qed

section \<open>Configuration\<close>

text \<open>
  C35: A configuration is accepted exactly when its three mode fields are, in any case of
  letters, among the documented words, and a cluster or sentinel mode names a node.
\<close>

theorem config_accepts:
  "(\<exists>r. try_from_config c = Inr r) \<longleftrightarrow>
     (to_lower (rc_mode c) = ''standalone'' \<or>
      to_lower (rc_mode c) \<in> {''cluster'', ''sentinel''} \<and> rc_nodes c \<noteq> []) \<and>
     to_lower (rc_sharded_subscription_mode c) \<in> {''auto'', ''on'', ''off''} \<and>
     to_lower (rc_read_mode c) \<in> {''slave'', ''master'', ''master_slave''}"
  by (simp only: try_from_config_ok parse_mode_ok parse_sharded_mode_ok parse_read_mode_ok)

text \<open>
  C36: The client is given exactly the endpoints that the configuration names, in their
  order, and the retry policy of the configuration: the millisecond fields survive the way
  through durations and back unchanged at 32 bits.
\<close>

theorem config_reaches_client:
  assumes "try_from_config c = Inr r"
  shows "\<exists>fc. build_fred_config r = Inr fc \<and> config_hosts (fc_server fc) = configured_hosts c \<and>
    fc_username fc = rc_username c \<and> fc_password fc = rc_password c \<and>
    build_reconnect_policy r =
      \<lparr>rp_max_attempts = rc_reconnect_max_attempts c, rp_min_delay = rc_reconnect_min_delay_ms c,
       rp_max_delay = rc_reconnect_max_delay_ms c, rp_mult = rc_reconnect_multiplier c\<rparr>"
proof -
  obtain fc where fc: "build_fred_config r = Inr fc" using build_fred_config_total by blast
  have "fc_username fc = rc_username c" "fc_password fc = rc_password c"
    using fc assms
    by (auto simp: build_fred_config_def try_from_config_def Let_def split_beta split: sum.splits)
  with fc build_fred_config_hosts [OF assms fc] try_from_config_reconnect [OF assms]
  show ?thesis by blast
qed

text \<open>
  Two fields of the configuration have no effect at all: \<open>command_timeout_secs\<close>, which
  is declared as the client's command timeout, and \<open>retry_delay_max_ms\<close>. The timeout that
  the client gets is \<open>command_timeout_ms\<close>, and zero leaves the client's default.
\<close>

theorem config_ignored_fields:
  assumes "try_from_config c = Inr r"
  shows "try_from_config (c\<lparr>rc_command_timeout_secs := x, rc_retry_delay_max_ms := y\<rparr>) = Inr r \<and>
    default_command_timeout (build_perf_config dflt r) =
      (if rc_command_timeout_ms c = 0 then default_command_timeout dflt
       else from_millis (rc_command_timeout_ms c))"
proof -
  have "cf_command_timeout r = from_millis (rc_command_timeout_ms c)"
    using assms by (auto simp: try_from_config_def split: sum.splits)
  moreover have "try_from_config (c\<lparr>rc_command_timeout_secs := x, rc_retry_delay_max_ms := y\<rparr>) = Inr r"
  proof -
    let ?c = "c\<lparr>rc_command_timeout_secs := x, rc_retry_delay_max_ms := y\<rparr>"
    have "parse_mode ?c = parse_mode c" "parse_sharded_mode ?c = parse_sharded_mode c"
      "parse_read_mode ?c = parse_read_mode c" by (simp_all add: parse_defs Let_def)
    with assms show ?thesis by (auto simp: try_from_config_def split: sum.splits)
  qed
  ultimately show ?thesis by (auto simp: build_perf_config_def)
qed

section \<open>Batch options\<close>

text \<open>
  In a chain of builder calls the last call that asks for synchronisation decides it:
  its replica count and timeout, and whether the append-only file is waited for too;
  without such a call a batch waits for nothing.
\<close>

theorem builder_last_sync:
  "(case last_sync cs of
      None \<Rightarrow> \<not> bo_sync_aof (build_options cs) \<and> bo_sync_slaves (build_options cs) = 0
    | Some (CallSync n t) \<Rightarrow> \<not> bo_sync_aof (build_options cs) \<and>
        bo_sync_slaves (build_options cs) = n \<and> bo_sync_timeout (build_options cs) = t
    | Some (CallSyncAof l n t) \<Rightarrow> bo_sync_aof (build_options cs) \<and> bo_sync_locals (build_options cs) = l \<and>
        bo_sync_slaves (build_options cs) = n \<and> bo_sync_timeout (build_options cs) = t
    | Some c \<Rightarrow> False)"
  using fold_apply_call_sync [of cs defaults]
  by (simp add: build_options_def defaults_def split: option.splits option_call.splits)

section \<open>Caches\<close>

text \<open>
  C32: After any history of cache operations (digests, script loads, topology changes,
  reconnects, replication results) the digests recorded for a node are those loaded since
  its cache was last dropped, its replication state is the last one stored and not dropped
  since, and the digest cache, never above 500 entries, always answers with the digest of
  the script.
\<close>

theorem cache_history:
  "loaded_shas (foldr (cache_step fr) es (initial_globals w)) = loaded_in (fr_sha1 fr) es \<and>
   get_slave_info (foldr (cache_step fr) es (initial_globals w)) = slave_info_in es \<and>
   length (sha_cache (foldr (cache_step fr) es (initial_globals w))) \<le> 500 \<and>
   fst (calc_sha fr x (foldr (cache_step fr) es (initial_globals w))) = fr_sha1 fr x"
proof -
  let ?s = "foldr (cache_step fr) es (initial_globals w)"
  note h = cache_history_refines [of fr es w]
  then have ok: "sha_cache_ok fr ?s" by blast
  have "length (sha_cache ?s) \<le> 500" using ok by (simp add: sha_cache_ok_def sha_capacity_def)
  with h calc_sha_value [OF ok] show ?thesis by blast
qed

section \<open>Routing\<close>

text \<open>
  A slot has an entry to read from exactly when it has one to write to, and the entry
  read from serves the same slot and is the primary itself or, unless the read mode is
  \<open>Master\<close>, one of the replicas that the routing table lists for it.
\<close>

theorem read_entry_of_slot:
  "case get_write_entry fr w sl of
     None \<Rightarrow> get_read_entry fr rm w sl = None
   | Some e \<Rightarrow> \<exists>r. get_read_entry fr rm w sl = Some r \<and> mse_slot r = mse_slot e \<and>
       (primary r = primary e \<or> rm \<noteq> Master \<and> is_replica_of fr w (primary e) (primary r))"
proof (cases "get_write_entry fr w sl")
  case None
  then show ?thesis using topo.read_defined [of fr rm w sl] by simp
next
  case (Some e)
  then obtain r where r: "get_read_entry fr rm w sl = Some r"
    using topo.read_defined [of fr rm w sl] by (cases "get_read_entry fr rm w sl") auto
  from topo.read_backs [OF this Some] r Some show ?thesis by simp
qed

text \<open>
  A broadcast over the entry set reaches the node that owns a slot: as long as the
  routing table lists among its primaries every server it routes a slot to, the primary
  that is written to for a slot is among the entries that a broadcast addresses.
\<close>

theorem broadcast_reaches_owner:
  assumes "routing_consistent fr w" and "get_write_entry fr w sl = Some e"
  shows "primary e \<in> primary ` set (get_entry_set fr w)"
  by (rule topo.broadcast_reaches_writer [OF assms])

end
