(* ===== verification/Channels.thy ===== *)
theory Channels
  imports Runtime
begin

text \<open>
  The vocabulary of the pub/sub service: channel names (\<open>src/client/channel_name.rs\<close>),
  listener identifiers (\<open>src/client/listener_id.rs\<close>), subscription kinds
  (\<open>src/client/protocol/pubsub/pubsub_type.rs\<close>) and pattern listeners
  (\<open>src/pubsub_pattern_message_listener.rs\<close>, \<open>src/client/redis_pubsub_listener.rs\<close>).
\<close>

section \<open>Channel names\<close>

datatype channel_name = ChannelName (cn_str: string)

definition TRACKING :: string where
  "TRACKING = ''__redis__:invalidate''"

definition new_list :: "channel_name \<Rightarrow> channel_name list" where
  "new_list name = [name]"

definition new_list_from_str :: "string \<Rightarrow> channel_name list" where
  "new_list_from_str name = [ChannelName name]"

definition get_name :: "channel_name \<Rightarrow> string" where
  "get_name c = cn_str c"

definition channel_length :: "channel_name \<Rightarrow> nat" where
  "channel_length c = length (cn_str c)"

text \<open>\<open>chars().nth(index)\<close>: a code point, counted in code points.\<close>

definition char_at :: "channel_name \<Rightarrow> nat \<Rightarrow> nat option" where
  "char_at c i = (let cs = chars (cn_str c) in if i < length cs then Some (cs ! i) else None)"

text \<open>
  \<open>&str[start..end]\<close> panics (\<open>None\<close>) when the range is empty backwards, runs past the end
  or cuts a character: an index is a boundary when it is the length or the byte there does
  not continue a character.
\<close>

definition char_boundary :: "string \<Rightarrow> nat \<Rightarrow> bool" where
  "char_boundary s i \<longleftrightarrow>
     i = length s \<or>
     i < length s \<and> \<not> (128 \<le> (of_char (s ! i) :: nat) \<and> (of_char (s ! i) :: nat) < 192)"

definition sub_sequence :: "channel_name \<Rightarrow> nat \<Rightarrow> nat \<Rightarrow> string option" where
  "sub_sequence c i j =
     (let s = cn_str c in
      if i \<le> j \<and> char_boundary s i \<and> char_boundary s j then Some (take (j - i) (drop i s))
      else None)"

definition is_keyspace :: "channel_name \<Rightarrow> bool" where
  "is_keyspace c \<longleftrightarrow>
     starts_with (cn_str c) ''__keyspace'' \<or> starts_with (cn_str c) ''__keyevent''"

definition is_tracking :: "channel_name \<Rightarrow> bool" where
  "is_tracking c \<longleftrightarrow> cn_str c = TRACKING"

text \<open>The hasher is an argument; \<open>Hash\<close> feeds it the bytes of the name.\<close>

definition channel_hash :: "(string \<Rightarrow> 's \<Rightarrow> 's) \<Rightarrow> channel_name \<Rightarrow> 's \<Rightarrow> 's" where
  "channel_hash feed c st = feed (cn_str c) st"

text \<open>The standard library's default hasher, run over the bytes, is an argument.\<close>

definition hash_u64 :: "(string \<Rightarrow> u64) \<Rightarrow> channel_name \<Rightarrow> u64" where
  "hash_u64 hasher c = channel_hash (\<lambda>s st. hasher s) c 0"

text \<open>\<open>From<&str>\<close> and \<open>From<String>\<close>; \<open>Display\<close> and \<open>Deref\<close> give the name back.\<close>

definition channel_from :: "string \<Rightarrow> channel_name" where
  "channel_from s = ChannelName s"

definition channel_display :: "channel_name \<Rightarrow> string" where
  "channel_display c = cn_str c"

text \<open>\<open>PartialEq\<close> of channel names compares their bytes.\<close>

definition channel_eq :: "channel_name \<Rightarrow> channel_name \<Rightarrow> bool" where
  "channel_eq a b \<longleftrightarrow> cn_str a = cn_str b"

definition channel_eq_str :: "channel_name \<Rightarrow> string \<Rightarrow> bool" where
  "channel_eq_str a s \<longleftrightarrow> cn_str a = s"

text \<open>\<open>MultipleChannelNames\<close>: from one name or from a vector of names.\<close>

datatype multiple_channel_names = OneChannel channel_name | ManyChannels "channel_name list"

fun into_vec :: "multiple_channel_names \<Rightarrow> channel_name list" where
  "into_vec (OneChannel c) = [c]"
| "into_vec (ManyChannels cs) = cs"

definition channel_key :: "channel_name \<Rightarrow> key" where
  "channel_key c = cn_str c"

lemma channel_eq_iff [simp]: "channel_eq a b \<longleftrightarrow> a = b"
  by (cases a; cases b) (simp add: channel_eq_def)

interpretation channel_key: hash_key channel_eq "\<lambda>c. finish (channel_hash feed c st)"
  for feed :: "string \<Rightarrow> 's \<Rightarrow> 's" and finish :: "'s \<Rightarrow> u64" and st
  by unfold_locales (auto simp: channel_hash_def equivp_def fun_eq_iff)

lemma channel_display_from [simp]: "channel_display (channel_from s) = s"
  by (simp add: channel_display_def channel_from_def)

lemma tracking_not_keyspace: "is_tracking c \<Longrightarrow> \<not> is_keyspace c"
  by (auto simp: is_tracking_def is_keyspace_def TRACKING_def starts_with_def)

lemma sub_sequence_length:
  "sub_sequence c i j = Some s \<Longrightarrow> i \<le> j \<and> j \<le> channel_length c \<and> length s = j - i"
  by (auto simp: sub_sequence_def channel_length_def char_boundary_def Let_def split: if_splits)

lemma sub_sequence_full: "sub_sequence c 0 (channel_length c) = Some s \<Longrightarrow> s = get_name c"
  by (auto simp: sub_sequence_def channel_length_def get_name_def Let_def split: if_splits)

section \<open>Listener identifiers\<close>

datatype listener_id = ListenerId (lid: u64)

datatype multiple_listener_ids =
    OneId listener_id
  | VecIds "listener_id list"
  | SetIds "listener_id set"

fun ids_contains :: "multiple_listener_ids \<Rightarrow> listener_id \<Rightarrow> bool" where
  "ids_contains (OneId i) j \<longleftrightarrow> j = i"
| "ids_contains (VecIds is) j \<longleftrightarrow> j \<in> set is"
| "ids_contains (SetIds S) j \<longleftrightarrow> j \<in> S"

section \<open>Subscription kinds\<close>

datatype subscribe_type = Subscribe | Psubscribe | Ssubscribe

datatype unsubscribe_type = Unsubscribe | Punsubscribe | Sunsubscribe

datatype pubsub_type = SubscribeKind subscribe_type | UnsubscribeKind unsubscribe_type

section \<open>Listeners\<close>

text \<open>
  \<open>PubSubPatternMessageListener\<close> is the one listener type of the crate: a user's handler
  and the pattern it was registered for. It lives behind an \<open>Arc\<close>; its address is its
  identity. A delivery is one call of the user's handler.
\<close>

record 'h listener =
  l_addr :: u64
  l_listener :: 'h
  l_name :: string

datatype 'h delivery = Delivery 'h string string rvalue

definition pubsub_pattern_listener :: "u64 \<Rightarrow> 'h \<Rightarrow> string \<Rightarrow> 'h listener" where
  "pubsub_pattern_listener addr h name = \<lparr>l_addr = addr, l_listener = h, l_name = name\<rparr>"

definition listener_id_of :: "'h listener \<Rightarrow> listener_id" where
  "listener_id_of l = ListenerId (l_addr l)"

definition on_message :: "'h listener \<Rightarrow> string \<Rightarrow> rvalue \<Rightarrow> 'h delivery list" where
  "on_message l channel msg = []"

definition on_status :: "'h listener \<Rightarrow> pubsub_type \<Rightarrow> string \<Rightarrow> 'h delivery list" where
  "on_status l ty channel = []"

definition on_pattern_message ::
  "'h listener \<Rightarrow> string \<Rightarrow> string \<Rightarrow> rvalue \<Rightarrow> 'h delivery list" where
  "on_pattern_message l pattern channel msg =
     (if l_name l = pattern then [Delivery (l_listener l) pattern channel msg] else [])"

text \<open>\<open>MultipleRedisPubSubListeners\<close>: from one listener or from a vector.\<close>

datatype 'h multiple_listeners = OneListener "'h listener" | ManyListeners "'h listener list"

fun listeners_into_vec :: "'h multiple_listeners \<Rightarrow> 'h listener list" where
  "listeners_into_vec (OneListener l) = [l]"
| "listeners_into_vec (ManyListeners ls) = ls"

end
