(* ===== verification/PubSub.thy ===== *)
theory PubSub
  imports Channels Connection Glob
begin

text \<open>
  \<open>src/pubsub/publish_subscribe_service.rs\<close>: the four listener maps, \<open>psubscribe\<close> and
  \<open>remove_listener\<close>, the dispatch of messages and keyspace events to listeners, and the
  re-subscription after a reconnect. A \<open>DashMap\<close> is an association list with distinct keys;
  its order stands for the unspecified iteration order.
\<close>

section \<open>The state of the service\<close>

type_synonym 'h listener_map = "(channel_name \<times> 'h listener list) list"

record 'h pubsub_service =
  ps_config :: redisson_config
  pattern_listeners :: "'h listener_map"
  keyspace_pattern_listeners :: "'h listener_map"
  channel_listeners :: "'h listener_map"
  shard_channel_listeners :: "'h listener_map"
  publish_command :: string

definition pubsub_new :: "redisson_config \<Rightarrow> string \<Rightarrow> 'h pubsub_service" where
  "pubsub_new c cmd =
     \<lparr>ps_config = c, pattern_listeners = [], keyspace_pattern_listeners = [],
      channel_listeners = [], shard_channel_listeners = [], publish_command = cmd\<rparr>"

text \<open>The map an operation works on: the model of the reference the code takes to a field.\<close>

datatype which_map = PatternMap | KeyspaceMap | ChannelMap | ShardMap

fun get_map :: "which_map \<Rightarrow> 'h pubsub_service \<Rightarrow> 'h listener_map" where
  "get_map PatternMap = pattern_listeners"
| "get_map KeyspaceMap = keyspace_pattern_listeners"
| "get_map ChannelMap = channel_listeners"
| "get_map ShardMap = shard_channel_listeners"

fun set_map_of :: "which_map \<Rightarrow> 'h listener_map \<Rightarrow> 'h pubsub_service \<Rightarrow> 'h pubsub_service" where
  "set_map_of PatternMap m s = s\<lparr>pattern_listeners := m\<rparr>"
| "set_map_of KeyspaceMap m s = s\<lparr>keyspace_pattern_listeners := m\<rparr>"
| "set_map_of ChannelMap m s = s\<lparr>channel_listeners := m\<rparr>"
| "set_map_of ShardMap m s = s\<lparr>shard_channel_listeners := m\<rparr>"

lemma get_set_map [simp]:
  "get_map a (set_map_of b m s) = (if a = b then m else get_map a s)"
  by (cases a; cases b) simp_all

lemma set_map_config [simp]:
  "ps_config (set_map_of b m s) = ps_config s"
  "publish_command (set_map_of b m s) = publish_command s"
  by (cases b; simp)+

text \<open>\<open>entry(k).or_default().extend(ls)\<close> and \<open>get_mut(k)\<close> with \<open>clear()\<close>.\<close>

definition extend_entry ::
  "channel_name \<Rightarrow> 'h listener list \<Rightarrow> 'h listener_map \<Rightarrow> 'h listener_map" where
  "extend_entry c ls m =
     AList.update c ((case map_of m c of None \<Rightarrow> [] | Some old \<Rightarrow> old) @ ls) m"

definition clear_entry :: "channel_name \<Rightarrow> 'h listener_map \<Rightarrow> 'h listener_map" where
  "clear_entry c m = (case map_of m c of None \<Rightarrow> m | Some old \<Rightarrow> AList.update c [] m)"

section \<open>The subscriber client\<close>

text \<open>
  Requests of the subscriber client: on the client itself, or pinned to one cluster node.
  A task of a join set answers or panics; \<open>sb_join\<close> runs the tasks and lists their results
  in the order they complete.
\<close>

datatype sub_request =
    ReqSubscribe channel_name
  | ReqPsubscribe channel_name
  | ReqSsubscribe channel_name
  | ReqUnsubscribe "channel_name list"
  | ReqPunsubscribe "channel_name list"
  | ReqSunsubscribe "channel_name list"
  | NodePsubscribe server "channel_name list"
  | NodePunsubscribe server "channel_name list"

datatype task_result = Panicked string | Answered "err + unit"

record 'w subscriber =
  sb_request :: "sub_request \<Rightarrow> ('w, unit) prog"
  sb_join :: "(server \<times> sub_request) list \<Rightarrow> 'w \<Rightarrow> (server \<times> task_result) list \<times> 'w"
  sb_manager_alive :: "'w \<Rightarrow> bool"
  sb_entry_set :: "'w \<Rightarrow> master_slave_entry list"
  sb_show_server :: "server \<Rightarrow> string"

definition map_err :: "(string \<Rightarrow> string) \<Rightarrow> err + 'a \<Rightarrow> err + 'a" where
  "map_err f r = (case r of Inl e \<Rightarrow> Inl (Msg (f (err_string e))) | Inr x \<Rightarrow> Inr x)"

lemma map_err_simps [simp]:
  "map_err f (Inr x) = Inr x" "map_err f (Inl e) = Inl (Msg (f (err_string e)))"
  by (simp_all add: map_err_def)

definition manager :: "'w subscriber \<Rightarrow> 'w \<Rightarrow> err + unit" where
  "manager sb w =
     (if sb_manager_alive sb w then Inr ()
      else Inl (Msg ''connection_manager not set or dropped''))"

definition subscription_entry_set :: "'w subscriber \<Rightarrow> 'w \<Rightarrow> err + master_slave_entry list" where
  "subscription_entry_set sb w =
     (case manager sb w of Inl e \<Rightarrow> Inl e | Inr u \<Rightarrow> Inr (sb_entry_set sb w))"

text \<open>The loop over a join set: every task is awaited, the first error is kept.\<close>

fun join_all :: "task_result list \<Rightarrow> err option \<Rightarrow> err + unit" where
  "join_all [] first_err = (case first_err of None \<Rightarrow> Inr () | Some e \<Rightarrow> Inl e)"
| "join_all (r # rs) first_err =
     (case (case r of Panicked m \<Rightarrow> Inl (Msg (''task panicked: '' @ m)) | Answered a \<Rightarrow> a) of
        Inl e \<Rightarrow> join_all rs (Some (case first_err of None \<Rightarrow> e | Some e0 \<Rightarrow> e0))
      | Inr u \<Rightarrow> join_all rs first_err)"

fun map_task_err :: "(string \<Rightarrow> string) \<Rightarrow> task_result \<Rightarrow> task_result" where
  "map_task_err f (Panicked m) = Panicked m"
| "map_task_err f (Answered r) = Answered (map_err f r)"

fun subscribe_internal ::
  "'w subscriber \<Rightarrow> subscribe_type \<Rightarrow> channel_name \<Rightarrow> ('w, unit) prog" where
  "subscribe_internal sb Subscribe c w =
     (case sb_request sb (ReqSubscribe c) w of (r, w') \<Rightarrow>
        (map_err (\<lambda>m. ''subscribe to '' @ cn_str c @ '' failed: '' @ m) r, w'))"
| "subscribe_internal sb Psubscribe c w =
     (case sb_request sb (ReqPsubscribe c) w of (r, w') \<Rightarrow>
        (map_err (\<lambda>m. ''psubscribe to '' @ cn_str c @ '' failed: '' @ m) r, w'))"
| "subscribe_internal sb Ssubscribe c w =
     (case sb_request sb (ReqSsubscribe c) w of (r, w') \<Rightarrow>
        (map_err (\<lambda>m. ''ssubscribe to '' @ cn_str c @ '' failed: '' @ m) r, w'))"

section \<open>Subscribing\<close>

definition psub_map :: "channel_name \<Rightarrow> which_map" where
  "psub_map c = (if is_keyspace c then KeyspaceMap else PatternMap)"

text \<open>The part of \<open>psubscribe\<close> before the first await: register, and say whether the channel was known.\<close>

definition psubscribe_begin ::
  "channel_name \<Rightarrow> 'h listener list \<Rightarrow> 'h pubsub_service \<Rightarrow> bool \<times> 'h pubsub_service" where
  "psubscribe_begin c ls s =
     (let m = get_map (psub_map c) s
      in (map_of m c \<noteq> None, set_map_of (psub_map c) (extend_entry c ls m) s))"

text \<open>The part after it: a failed request empties the entry.\<close>

definition psubscribe_finish ::
  "channel_name \<Rightarrow> err + unit \<Rightarrow> 'h pubsub_service \<Rightarrow> 'h pubsub_service" where
  "psubscribe_finish c r s =
     (case r of Inr u \<Rightarrow> s
      | Inl e \<Rightarrow> set_map_of (psub_map c) (clear_entry c (get_map (psub_map c) s)) s)"

definition psubscribe_tasks :: "channel_name \<Rightarrow> master_slave_entry list \<Rightarrow> (server \<times> sub_request) list" where
  "psubscribe_tasks c entries =
     map (\<lambda>e. (get_client e, NodePsubscribe (get_client e) [c])) entries"

definition psubscribe ::
  "'w subscriber \<Rightarrow> channel_name \<Rightarrow> 'h multiple_listeners \<Rightarrow>
   ('h pubsub_service \<times> 'w, unit) prog" where
  "psubscribe sb c listeners sw =
     (case sw of (s, w) \<Rightarrow>
      case psubscribe_begin c (listeners_into_vec listeners) s of (already, s1) \<Rightarrow>
      if already then (Inr (), s1, w)
      else if is_cluster (cf_mode (ps_config s1)) \<and> is_keyspace c then
        (case subscription_entry_set sb w of
           Inl e \<Rightarrow> (Inl e, s1, w)
         | Inr entries \<Rightarrow>
             (case sb_join sb (psubscribe_tasks c entries) w of (rs, w1) \<Rightarrow>
                let r = join_all (map (\<lambda>(srv, t). map_task_err
                      (\<lambda>m. ''psubscribe to '' @ cn_str c @ '' on '' @ sb_show_server sb srv
                           @ '' failed: '' @ m) t) rs) None
                in (r, psubscribe_finish c r s1, w1)))
      else
        (case subscribe_internal sb Psubscribe c w of (r, w1) \<Rightarrow>
           (r, psubscribe_finish c r s1, w1)))"

section \<open>Removing listeners\<close>

fun unsub_map :: "unsubscribe_type \<Rightarrow> channel_name \<Rightarrow> which_map" where
  "unsub_map Punsubscribe c = (if is_keyspace c then KeyspaceMap else PatternMap)"
| "unsub_map Unsubscribe c = ChannelMap"
| "unsub_map Sunsubscribe c = ShardMap"

definition keep_listeners :: "multiple_listener_ids \<Rightarrow> 'h listener list \<Rightarrow> 'h listener list" where
  "keep_listeners ids ls = filter (\<lambda>l. \<not> ids_contains ids (listener_id_of l)) ls"

text \<open>The body of the loop over the channel names: the service and the two unsubscribe lists.\<close>

definition remove_step ::
  "unsubscribe_type \<Rightarrow> multiple_listener_ids \<Rightarrow> channel_name \<Rightarrow>
   'h pubsub_service \<times> channel_name list \<times> channel_name list \<Rightarrow>
   'h pubsub_service \<times> channel_name list \<times> channel_name list" where
  "remove_step ty ids c st =
     (case st of (s, normal, keyspace) \<Rightarrow>
      let wm = unsub_map ty c; m = get_map wm s in
      case map_of m c of
        None \<Rightarrow> (s, normal, keyspace)
      | Some ls \<Rightarrow>
          let kept = keep_listeners ids ls; m1 = AList.update c kept m in
          if kept = [] then
            (let s1 = set_map_of wm (AList.delete c m1) s in
             if ty = Punsubscribe \<and> is_cluster (cf_mode (ps_config s)) \<and> is_keyspace c
             then (s1, normal, keyspace @ [c])
             else (s1, normal @ [c], keyspace))
          else (set_map_of wm m1 s, normal, keyspace))"

definition remove_local ::
  "unsubscribe_type \<Rightarrow> channel_name list \<Rightarrow> multiple_listener_ids \<Rightarrow> 'h pubsub_service \<Rightarrow>
   'h pubsub_service \<times> channel_name list \<times> channel_name list" where
  "remove_local ty cs ids s = fold (remove_step ty ids) cs (s, [], [])"

fun unsubscribe_request :: "unsubscribe_type \<Rightarrow> channel_name list \<Rightarrow> sub_request" where
  "unsubscribe_request Punsubscribe cs = ReqPunsubscribe cs"
| "unsubscribe_request Unsubscribe cs = ReqUnsubscribe cs"
| "unsubscribe_request Sunsubscribe cs = ReqSunsubscribe cs"

fun unsubscribe_name :: "unsubscribe_type \<Rightarrow> string" where
  "unsubscribe_name Punsubscribe = ''punsubscribe''"
| "unsubscribe_name Unsubscribe = ''unsubscribe''"
| "unsubscribe_name Sunsubscribe = ''sunsubscribe''"

definition punsubscribe_tasks ::
  "channel_name list \<Rightarrow> master_slave_entry list \<Rightarrow> (server \<times> sub_request) list" where
  "punsubscribe_tasks cs entries =
     map (\<lambda>e. (get_client e, NodePunsubscribe (get_client e) cs)) entries"

definition send_normal_unsub ::
  "'w subscriber \<Rightarrow> unsubscribe_type \<Rightarrow> channel_name list \<Rightarrow> ('w, unit) prog" where
  "send_normal_unsub sb ty normal w =
     (if normal = [] then (Inr (), w)
      else
        (case sb_request sb (unsubscribe_request ty normal) w of (r, w') \<Rightarrow>
           (map_err (\<lambda>m. unsubscribe_name ty @ '' failed: '' @ m) r, w')))"

definition send_keyspace_unsub ::
  "'w subscriber \<Rightarrow> channel_name list \<Rightarrow> ('w, unit) prog" where
  "send_keyspace_unsub sb keyspace w =
     (if keyspace = [] then (Inr (), w)
      else
        (case subscription_entry_set sb w of
           Inl e \<Rightarrow> (Inl e, w)
         | Inr entries \<Rightarrow>
             (case sb_join sb (punsubscribe_tasks keyspace entries) w of (rs, w1) \<Rightarrow>
                (join_all (map (\<lambda>(srv, t). map_task_err
                   (\<lambda>m. ''punsubscribe on '' @ sb_show_server sb srv @ '' failed: '' @ m) t) rs)
                   None, w1))))"

definition remove_listener ::
  "'w subscriber \<Rightarrow> unsubscribe_type \<Rightarrow> multiple_channel_names \<Rightarrow> multiple_listener_ids \<Rightarrow>
   ('h pubsub_service \<times> 'w, unit) prog" where
  "remove_listener sb ty names ids sw =
     (case sw of (s, w) \<Rightarrow>
      case remove_local ty (into_vec names) ids s of (s1, normal, keyspace) \<Rightarrow>
      case pbind (send_normal_unsub sb ty normal) (\<lambda>u. send_keyspace_unsub sb keyspace) w of
        (r, w1) \<Rightarrow> (r, s1, w1))"

section \<open>The contract of a listener registry\<close>

text \<open>
  What \<open>remove_listener\<close> promises per channel, and what a registration adds. \<open>hit\<close> says
  whether an identifier set names a listener.
\<close>

locale listener_purge =
  fixes listeners :: "'s \<Rightarrow> 'c \<Rightarrow> 'l list"
    and purge :: "'i \<Rightarrow> 'c \<Rightarrow> 's \<Rightarrow> 's"
    and hit :: "'i \<Rightarrow> 'l \<Rightarrow> bool"
  assumes listeners_purge:
    "listeners (purge i c s) = (listeners s)(c := filter (\<lambda>l. \<not> hit i l) (listeners s c))"
begin

lemma purge_list:
  "listeners (fold (purge i) cs s) =
     (\<lambda>c. if c \<in> set cs then filter (\<lambda>l. \<not> hit i l) (listeners s c) else listeners s c)"
  by (induction cs arbitrary: s) (auto simp: listeners_purge fun_eq_iff)

lemma purged_gone: "c \<in> set cs \<Longrightarrow> l \<in> set (listeners (fold (purge i) cs s) c) \<Longrightarrow> \<not> hit i l"
  by (simp add: purge_list)

lemma purge_again: "listeners (purge i c (purge i c s)) = listeners (purge i c s)"
  by (simp add: listeners_purge)

end

locale listener_registry = listener_purge +
  fixes register :: "'c \<Rightarrow> 'l list \<Rightarrow> 's \<Rightarrow> 's"
  assumes listeners_register:
    "listeners (register c ls s) = (listeners s)(c := listeners s c @ ls)"
begin

text \<open>Removing exactly what was registered restores every listener list.\<close>

lemma register_purge:
  assumes "\<And>l. l \<in> set ls \<Longrightarrow> hit i l" and "\<And>l. l \<in> set (listeners s c) \<Longrightarrow> \<not> hit i l"
  shows "listeners (purge i c (register c ls s)) = listeners s"
proof -
  have "filter (\<lambda>l. \<not> hit i l) ls = []" using assms(1) by (simp add: filter_empty_conv)
  moreover have "filter (\<lambda>l. \<not> hit i l) (listeners s c) = listeners s c"
    using assms(2) by (simp add: filter_id_conv)
  ultimately show ?thesis by (simp add: listeners_purge listeners_register)
qed

lemma register_register:
  "listeners (register c ls' (register c ls s)) = listeners (register c (ls @ ls') s)"
  by (simp add: listeners_register)

end

section \<open>Entries of the maps\<close>

definition entry_of :: "which_map \<Rightarrow> 'h pubsub_service \<Rightarrow> channel_name \<Rightarrow> 'h listener list option" where
  "entry_of wm s c = map_of (get_map wm s) c"

definition listeners_of :: "which_map \<Rightarrow> 'h pubsub_service \<Rightarrow> channel_name \<Rightarrow> 'h listener list" where
  "listeners_of wm s c = (case entry_of wm s c of None \<Rightarrow> [] | Some ls \<Rightarrow> ls)"

text \<open>The pattern listeners of a channel, in the map that \<open>psubscribe\<close> keeps them in.\<close>

definition pattern_entry :: "'h pubsub_service \<Rightarrow> channel_name \<Rightarrow> 'h listener list option" where
  "pattern_entry s c = entry_of (psub_map c) s c"

definition purge_entry ::
  "multiple_listener_ids \<Rightarrow> 'h listener list option \<Rightarrow> 'h listener list option" where
  "purge_entry ids x =
     (case x of None \<Rightarrow> None
      | Some ls \<Rightarrow> if keep_listeners ids ls = [] then None else Some (keep_listeners ids ls))"

lemma unsub_map_Punsubscribe [simp]: "unsub_map Punsubscribe c = psub_map c"
  by (simp add: psub_map_def)

declare unsub_map.simps(1) [simp del]

lemma keep_listeners_idem [simp]:
  "keep_listeners ids (keep_listeners ids ls) = keep_listeners ids ls"
  by (simp add: keep_listeners_def)

lemma purge_entry_idem [simp]: "purge_entry ids (purge_entry ids x) = purge_entry ids x"
  by (simp add: purge_entry_def split: option.split)

lemma entry_extend:
  "map_of (extend_entry c ls m) =
     (map_of m)(c \<mapsto> (case map_of m c of None \<Rightarrow> [] | Some old \<Rightarrow> old) @ ls)"
  by (simp add: extend_entry_def update_conv')

lemma entry_clear: "map_of (clear_entry c m) = (\<lambda>d. if d = c then map_option (\<lambda>ls. []) (map_of m c)
    else map_of m d)"
  by (auto simp: clear_entry_def update_conv' fun_eq_iff split: option.split)

lemma entry_begin:
  "entry_of wm (snd (psubscribe_begin c ls s)) d =
     (if wm = psub_map c \<and> d = c then Some (listeners_of wm s c @ ls) else entry_of wm s d)"
  by (auto simp: psubscribe_begin_def entry_of_def listeners_of_def entry_extend Let_def)

lemma already_begin: "fst (psubscribe_begin c ls s) \<longleftrightarrow> pattern_entry s c \<noteq> None"
  by (simp add: psubscribe_begin_def pattern_entry_def entry_of_def Let_def)

lemma config_begin [simp]: "ps_config (snd (psubscribe_begin c ls s)) = ps_config s"
  by (simp add: psubscribe_begin_def Let_def)

lemma entry_finish:
  "entry_of wm (psubscribe_finish c r s) d =
     (if (\<exists>e. r = Inl e) \<and> wm = psub_map c \<and> d = c
      then map_option (\<lambda>ls. []) (entry_of wm s c) else entry_of wm s d)"
  by (auto simp: psubscribe_finish_def entry_of_def entry_clear split: sum.split)

lemma config_finish [simp]: "ps_config (psubscribe_finish c r s) = ps_config s"
  by (simp add: psubscribe_finish_def split: sum.split)

definition emptied ::
  "unsubscribe_type \<Rightarrow> multiple_listener_ids \<Rightarrow> 'h pubsub_service \<Rightarrow> channel_name \<Rightarrow> bool" where
  "emptied ty ids s c \<longleftrightarrow>
     (case entry_of (unsub_map ty c) s c of None \<Rightarrow> False | Some ls \<Rightarrow> keep_listeners ids ls = [])"

definition broadcasts :: "unsubscribe_type \<Rightarrow> 'h pubsub_service \<Rightarrow> channel_name \<Rightarrow> bool" where
  "broadcasts ty s c \<longleftrightarrow>
     ty = Punsubscribe \<and> is_cluster (cf_mode (ps_config s)) \<and> is_keyspace c"

text \<open>One step of the removal loop, in terms of entries.\<close>

lemma remove_step_spec:
  assumes "remove_step ty ids c (s, n, k) = (s1, n1, k1)"
  shows "entry_of wm s1 d =
      (if wm = unsub_map ty c \<and> d = c then purge_entry ids (entry_of wm s c) else entry_of wm s d)"
    and "ps_config s1 = ps_config s"
    and "n1 = (if emptied ty ids s c \<and> \<not> broadcasts ty s c then n @ [c] else n)"
    and "k1 = (if emptied ty ids s c \<and> broadcasts ty s c then k @ [c] else k)"
  using assms
  by (auto simp: remove_step_def entry_of_def purge_entry_def emptied_def broadcasts_def Let_def
      update_conv' delete_conv' split: option.splits if_splits)

lemma emptied_step:
  assumes "remove_step ty ids c (s, n, k) = (s1, n1, k1)"
  shows "emptied ty ids s1 d \<longleftrightarrow> d \<noteq> c \<and> emptied ty ids s d"
  using remove_step_spec(1) [OF assms]
  by (auto simp: emptied_def purge_entry_def split: option.splits if_splits)

text \<open>The whole loop.\<close>

lemma remove_fold_spec:
  assumes "fold (remove_step ty ids) cs (s, n, k) = (s1, n1, k1)"
  shows "(\<forall>wm d. entry_of wm s1 d =
        (if d \<in> set cs \<and> wm = unsub_map ty d then purge_entry ids (entry_of wm s d)
         else entry_of wm s d)) \<and>
    ps_config s1 = ps_config s \<and>
    (\<exists>n2 k2. n1 = n @ n2 \<and> k1 = k @ k2 \<and> distinct (n2 @ k2) \<and>
       set n2 = {c \<in> set cs. emptied ty ids s c \<and> \<not> broadcasts ty s c} \<and>
       set k2 = {c \<in> set cs. emptied ty ids s c \<and> broadcasts ty s c})"
  using assms
proof (induction cs arbitrary: s n k)
  case Nil
  then show ?case by simp
next
  case (Cons c cs)
  obtain t n' k' where st: "remove_step ty ids c (s, n, k) = (t, n', k')"
    by (metis prod_cases3)
  have rest: "fold (remove_step ty ids) cs (t, n', k') = (s1, n1, k1)"
    using Cons.prems st by simp
  note step = remove_step_spec [OF st] and em = emptied_step [OF st]
  have br: "broadcasts ty t d = broadcasts ty s d" for d
    using step(2) by (simp add: broadcasts_def)
  from Cons.IH [OF rest] obtain n2 k2 where
    e: "\<forall>wm d. entry_of wm s1 d = (if d \<in> set cs \<and> wm = unsub_map ty d
          then purge_entry ids (entry_of wm t d) else entry_of wm t d)" and
    cfg: "ps_config s1 = ps_config t" and
    n1: "n1 = n' @ n2" and k1: "k1 = k' @ k2" and dist: "distinct (n2 @ k2)" and
    n2: "set n2 = {d \<in> set cs. emptied ty ids t d \<and> \<not> broadcasts ty t d}" and
    k2: "set k2 = {d \<in> set cs. emptied ty ids t d \<and> broadcasts ty t d}"
    by blast
  let ?n3 = "(if emptied ty ids s c \<and> \<not> broadcasts ty s c then [c] else []) @ n2"
  let ?k3 = "(if emptied ty ids s c \<and> broadcasts ty s c then [c] else []) @ k2"
  have nk: "n1 = n @ ?n3" "k1 = k @ ?k3" using n1 k1 step(3,4) by auto
  have dist': "distinct (?n3 @ ?k3)" using dist n2 k2 em by auto
  have n3: "set ?n3 = {d \<in> set (c # cs). emptied ty ids s d \<and> \<not> broadcasts ty s d}"
    using n2 em br by auto
  have k3: "set ?k3 = {d \<in> set (c # cs). emptied ty ids s d \<and> broadcasts ty s d}"
    using k2 em br by auto
  have e': "\<forall>wm d. entry_of wm s1 d = (if d \<in> set (c # cs) \<and> wm = unsub_map ty d
      then purge_entry ids (entry_of wm s d) else entry_of wm s d)"
    using e step(1) by auto
  have cfg': "ps_config s1 = ps_config s" using cfg step(2) by simp
  show ?case
    by (intro conjI exI [of _ ?n3] exI [of _ ?k3]) (rule e' cfg' nk dist' n3 k3)+
qed

lemma remove_local_spec:
  assumes "remove_local ty cs ids s = (s1, n, k)"
  shows "entry_of wm s1 d =
      (if d \<in> set cs \<and> wm = unsub_map ty d then purge_entry ids (entry_of wm s d)
       else entry_of wm s d)"
    and "ps_config s1 = ps_config s"
    and "distinct (n @ k)"
    and "set n = {c \<in> set cs. emptied ty ids s c \<and> \<not> broadcasts ty s c}"
    and "set k = {c \<in> set cs. emptied ty ids s c \<and> broadcasts ty s c}"
  using remove_fold_spec [OF assms [unfolded remove_local_def]] by auto

section \<open>The service is a listener registry\<close>

definition purge_channel ::
  "unsubscribe_type \<Rightarrow> multiple_listener_ids \<Rightarrow> channel_name \<Rightarrow> 'h pubsub_service \<Rightarrow> 'h pubsub_service" where
  "purge_channel ty ids c s = fst (remove_local ty [c] ids s)"

lemma listeners_purge_channel:
  "listeners_of (unsub_map ty d) (purge_channel ty ids c s) d =
     (if d = c then keep_listeners ids (listeners_of (unsub_map ty c) s c)
      else listeners_of (unsub_map ty d) s d)"
proof -
  obtain s1 n k where r: "remove_local ty [c] ids s = (s1, n, k)" by (metis prod_cases3)
  show ?thesis
    using remove_local_spec(1) [OF r, of "unsub_map ty d" d] r
    by (auto simp: purge_channel_def listeners_of_def purge_entry_def keep_listeners_def
        split: option.split)
qed

interpretation purging: listener_purge "\<lambda>s c. listeners_of (unsub_map ty c) s c"
  "purge_channel ty" "\<lambda>ids l. ids_contains ids (listener_id_of l)"
  for ty :: unsubscribe_type
  by unfold_locales (simp add: fun_eq_iff listeners_purge_channel keep_listeners_def)

interpretation patterns: listener_registry "\<lambda>s c. listeners_of (psub_map c) s c"
  "purge_channel Punsubscribe" "\<lambda>ids l. ids_contains ids (listener_id_of l)"
  "\<lambda>c ls s. snd (psubscribe_begin c ls s)"
proof unfold_locales
  fix ids c and s :: "'h pubsub_service"
  show "(\<lambda>d. listeners_of (psub_map d) (purge_channel Punsubscribe ids c s) d) =
    (\<lambda>d. listeners_of (psub_map d) s d)
      (c := filter (\<lambda>l. \<not> ids_contains ids (listener_id_of l)) (listeners_of (psub_map c) s c))"
    using purging.listeners_purge [of Punsubscribe ids c s] by simp
next
  fix c ls and s :: "'h pubsub_service"
  show "(\<lambda>d. listeners_of (psub_map d) (snd (psubscribe_begin c ls s)) d) =
    (\<lambda>d. listeners_of (psub_map d) s d)(c := listeners_of (psub_map c) s c @ ls)"
    by (auto simp: fun_eq_iff listeners_of_def entry_begin)
qed

section \<open>Invariants of the maps\<close>

text \<open>
  Keys are distinct, keyspace patterns live in the keyspace map only, other patterns in the
  pattern map only.
\<close>

definition maps_ok :: "'h pubsub_service \<Rightarrow> bool" where
  "maps_ok s \<longleftrightarrow>
     (\<forall>wm. distinct (map fst (get_map wm s))) \<and>
     (\<forall>c. entry_of PatternMap s c \<noteq> None \<longrightarrow> \<not> is_keyspace c) \<and>
     (\<forall>c. entry_of KeyspaceMap s c \<noteq> None \<longrightarrow> is_keyspace c)"

lemma get_map_new: "get_map wm (pubsub_new c cmd) = []"
  by (cases wm) (simp_all add: pubsub_new_def)

lemma maps_ok_new: "maps_ok (pubsub_new c cmd)"
  unfolding maps_ok_def entry_of_def get_map_new by simp

lemma distinct_begin:
  "distinct (map fst (get_map wm s)) \<Longrightarrow>
   distinct (map fst (get_map wm (snd (psubscribe_begin c ls s))))"
  by (auto simp: psubscribe_begin_def extend_entry_def Let_def)

lemma maps_ok_begin: "maps_ok s \<Longrightarrow> maps_ok (snd (psubscribe_begin c ls s))"
  by (auto simp: maps_ok_def entry_begin psub_map_def intro: distinct_begin)

lemma distinct_finish:
  "distinct (map fst (get_map wm s)) \<Longrightarrow>
   distinct (map fst (get_map wm (psubscribe_finish c r s)))"
  by (auto simp: psubscribe_finish_def clear_entry_def split: sum.split option.split)

lemma maps_ok_finish: "maps_ok s \<Longrightarrow> maps_ok (psubscribe_finish c r s)"
  by (auto simp: maps_ok_def entry_finish intro: distinct_finish)

lemma maps_ok_step:
  assumes "maps_ok s" and "remove_step ty ids c (s, n, k) = (s1, n1, k1)"
  shows "maps_ok s1"
proof -
  have "distinct (map fst (get_map wm s1))" for wm
    using assms by (auto simp: maps_ok_def remove_step_def Let_def split: option.splits if_splits)
  moreover have "entry_of wm s1 d \<noteq> None \<Longrightarrow> entry_of wm s d \<noteq> None" for wm d
    using remove_step_spec(1) [OF assms(2), of wm d]
    by (auto simp: purge_entry_def split: if_splits option.splits)
  ultimately show ?thesis using assms(1) unfolding maps_ok_def by metis
qed

lemma maps_ok_remove:
  assumes "maps_ok s" and "remove_local ty cs ids s = (s1, n, k)"
  shows "maps_ok s1"
proof -
  have "fold (remove_step ty ids) cs (t, n0, k0) = (s1, n, k) \<Longrightarrow> maps_ok t \<Longrightarrow> maps_ok s1" for t n0 k0
  proof (induction cs arbitrary: t n0 k0)
    case Nil
    then show ?case by simp
  next
    case (Cons c cs)
    obtain u n' k' where st: "remove_step ty ids c (t, n0, k0) = (u, n', k')"
      by (metis prod_cases3)
    with Cons.prems maps_ok_step [OF Cons.prems(2) st] Cons.IH [of u n' k'] show ?case by simp
  qed
  with assms show ?thesis by (simp add: remove_local_def)
qed

section \<open>Join sets\<close>

fun task_error :: "task_result \<Rightarrow> err option" where
  "task_error (Panicked m) = Some (Msg (''task panicked: '' @ m))"
| "task_error (Answered (Inl e)) = Some e"
| "task_error (Answered (Inr u)) = None"

lemma join_all_first:
  "join_all rs (Some e) = Inl e"
  "join_all rs None = (case List.map_filter task_error rs of [] \<Rightarrow> Inr () | e # es \<Rightarrow> Inl e)"
proof -
  show *: "join_all rs (Some e) = Inl e" for rs e
  proof (induction rs)
    case (Cons r rs)
    then show ?case by (cases r rule: task_error.cases) auto
  qed simp
  show "join_all rs None = (case List.map_filter task_error rs of [] \<Rightarrow> Inr () | e # es \<Rightarrow> Inl e)"
  proof (induction rs)
    case (Cons r rs)
    then show ?case
      by (cases r rule: task_error.cases) (auto simp: List.map_filter_simps *)
  qed (simp add: List.map_filter_simps)
qed

end
