(* ===== verification/Dispatch.thy ===== *)
theory Dispatch
  imports PubSub
begin

text \<open>
  The background tasks of \<open>PublishSubscribeService::new\<close>: the message loop, the keyspace
  event loop and the re-subscription after a reconnect. A loop is a function of the list of
  what its channel yields; each item comes with the service as it is when the item arrives.
\<close>

datatype message_kind = PMessage | Message | SMessage

record message =
  msg_kind :: message_kind
  msg_channel :: string
  msg_value :: rvalue

datatype 'm received = Received 'm | Lagged nat | Closed

definition dispatch_message :: "'h pubsub_service \<Rightarrow> message \<Rightarrow> 'h delivery list" where
  "dispatch_message s m =
     (let channel = msg_channel m; lm = msg_value m in
      case msg_kind m of
        PMessage \<Rightarrow>
          concat (map (\<lambda>(pattern, ls).
            if redis_glob_matches (cn_str pattern) channel
            then concat (map (\<lambda>l. on_pattern_message l (cn_str pattern) channel lm) ls)
            else []) (pattern_listeners s))
      | Message \<Rightarrow>
          (case map_of (channel_listeners s) (ChannelName channel) of
             None \<Rightarrow> []
           | Some ls \<Rightarrow> concat (map (\<lambda>l. on_message l channel lm) ls))
      | SMessage \<Rightarrow>
          (case map_of (shard_channel_listeners s) (ChannelName channel) of
             None \<Rightarrow> []
           | Some ls \<Rightarrow> concat (map (\<lambda>l. on_message l channel lm) ls)))"

fun message_loop :: "('h pubsub_service \<times> message received) list \<Rightarrow> 'h delivery list" where
  "message_loop [] = []"
| "message_loop ((s, Received m) # xs) = dispatch_message s m @ message_loop xs"
| "message_loop ((s, Lagged n) # xs) = message_loop xs"
| "message_loop ((s, Closed) # xs) = []"

section \<open>Keyspace events\<close>

record keyspace_event =
  ke_db :: u8
  ke_operation :: string
  ke_key :: string

text \<open>
  The channel and the payload that a pattern sees: for keyevent patterns the operation is in
  the channel and the key is the payload, for keyspace patterns the other way round.
  \<open>String::from_utf8_lossy\<close> is the argument \<open>lossy\<close>.
\<close>

definition keyspace_message ::
  "(string \<Rightarrow> string) \<Rightarrow> keyspace_event \<Rightarrow> string \<Rightarrow> string \<times> rvalue" where
  "keyspace_message lossy ev pattern =
     (let key_str = lossy (ke_key ev); db = show_nat (unat (ke_db ev)) in
      if starts_with pattern ''__keyevent''
      then (''__keyevent@'' @ db @ ''__:'' @ ke_operation ev, Str key_str)
      else (''__keyspace@'' @ db @ ''__:'' @ key_str, Str (ke_operation ev)))"

definition dispatch_keyspace ::
  "(string \<Rightarrow> string) \<Rightarrow> 'h pubsub_service \<Rightarrow> keyspace_event \<Rightarrow> 'h delivery list" where
  "dispatch_keyspace lossy s ev =
     concat (map (\<lambda>(pattern, ls).
       case keyspace_message lossy ev (cn_str pattern) of (channel, lm) \<Rightarrow>
         if redis_glob_matches (cn_str pattern) channel
         then concat (map (\<lambda>l. on_pattern_message l (cn_str pattern) channel lm) ls)
         else []) (keyspace_pattern_listeners s))"

fun keyspace_loop ::
  "(string \<Rightarrow> string) \<Rightarrow> ('h pubsub_service \<times> keyspace_event received) list \<Rightarrow> 'h delivery list" where
  "keyspace_loop lossy [] = []"
| "keyspace_loop lossy ((s, Received ev) # xs) =
     dispatch_keyspace lossy s ev @ keyspace_loop lossy xs"
| "keyspace_loop lossy ((s, Lagged n) # xs) = keyspace_loop lossy xs"
| "keyspace_loop lossy ((s, Closed) # xs) = []"

section \<open>Reconnects\<close>

text \<open>
  The task is started in cluster mode only; for every reconnected node it asks that node for
  all keyspace patterns, unless there are none. A failure is logged and dropped.
\<close>

definition resubscribe :: "'h pubsub_service \<Rightarrow> server \<Rightarrow> sub_request list" where
  "resubscribe s srv =
     (let patterns = map fst (keyspace_pattern_listeners s) in
      if patterns \<noteq> [] then [NodePsubscribe srv patterns] else [])"

fun reconnect_loop :: "('h pubsub_service \<times> server) list \<Rightarrow> sub_request list" where
  "reconnect_loop [] = []"
| "reconnect_loop ((s, srv) # xs) = resubscribe s srv @ reconnect_loop xs"

definition reconnect_task :: "redisson_config \<Rightarrow> ('h pubsub_service \<times> server) list \<Rightarrow> sub_request list" where
  "reconnect_task c xs = (if is_cluster (cf_mode c) then reconnect_loop xs else [])"

text \<open>The semaphore of a channel: one of fifty, by the hash of its name.\<close>

definition get_semaphore :: "(string \<Rightarrow> u64) \<Rightarrow> channel_name \<Rightarrow> nat" where
  "get_semaphore hasher c = unat (hash_u64 hasher c) mod 50"

section \<open>What is delivered\<close>

text \<open>
  The reference: every listener of every matching pattern, once per registration. It reads
  the service through \<open>entry_of\<close>, so it does not depend on the iteration order.
\<close>

definition pattern_deliveries ::
  "which_map \<Rightarrow> 'h pubsub_service \<Rightarrow> channel_name \<Rightarrow> string \<Rightarrow> rvalue \<Rightarrow> 'h delivery multiset" where
  "pattern_deliveries wm s c channel v =
     (if gmatch (chars (cn_str c)) (chars channel)
      then image_mset (\<lambda>l. Delivery (l_listener l) (cn_str c) channel v)
             (filter_mset (\<lambda>l. l_name l = cn_str c) (mset (listeners_of wm s c)))
      else {#})"

lemma mset_concat_pattern:
  "mset (concat (map (\<lambda>l. on_pattern_message l p channel v) ls)) =
     image_mset (\<lambda>l. Delivery (l_listener l) p channel v) (filter_mset (\<lambda>l. l_name l = p) (mset ls))"
  by (induction ls) (auto simp: on_pattern_message_def)

lemma sum_over_entries:
  assumes "distinct (map fst m)"
  shows "(\<Sum>x\<leftarrow>m. f x) = (\<Sum>c\<in>fst ` set m. f (c, the (map_of m c)))"
proof -
  have inj: "inj_on fst (set m)" and d: "distinct m"
    using assms by (auto simp: distinct_map)
  have "(\<Sum>x\<leftarrow>m. f x) = (\<Sum>x\<in>set m. f x)"
    using d by (rule sum_list_distinct_conv_sum_set)
  also have "\<dots> = (\<Sum>x\<in>set m. f (fst x, the (map_of m (fst x))))"
    using assms by (intro sum.cong refl) (auto simp: map_of_is_SomeI)
  also have "\<dots> = (\<Sum>c\<in>fst ` set m. f (c, the (map_of m c)))"
    using inj by (simp add: sum.reindex)
  finally show ?thesis .
qed

lemma mset_dispatch:
  assumes "distinct (map fst (get_map wm s))"
  shows "mset (concat (map (\<lambda>(pattern, ls).
            if redis_glob_matches (cn_str pattern) (ch pattern)
            then concat (map (\<lambda>l. on_pattern_message l (cn_str pattern) (ch pattern) (v pattern)) ls)
            else []) (get_map wm s))) =
         (\<Sum>c\<in>{c. entry_of wm s c \<noteq> None}. pattern_deliveries wm s c (ch c) (v c))"
    (is "mset (concat (map ?f _)) = _")
proof -
  have dom: "{c. entry_of wm s c \<noteq> None} = fst ` set (get_map wm s)"
    by (simp add: entry_of_def dom_map_of_conv_image_fst [symmetric] dom_def)
  have "mset (concat (map ?f (get_map wm s))) = (\<Sum>x\<leftarrow>get_map wm s. mset (?f x))"
    by (simp only: mset_concat map_map comp_def)
  also have "\<dots> = (\<Sum>c\<in>fst ` set (get_map wm s). mset (?f (c, the (map_of (get_map wm s) c))))"
    using assms by (rule sum_over_entries)
  also have "\<dots> = (\<Sum>c\<in>fst ` set (get_map wm s). pattern_deliveries wm s c (ch c) (v c))"
  proof (rule sum.cong [OF refl])
    fix c assume "c \<in> fst ` set (get_map wm s)"
    then obtain ls where "map_of (get_map wm s) c = Some ls"
      by (metis domD dom_map_of_conv_image_fst)
    then show "mset (?f (c, the (map_of (get_map wm s) c))) = pattern_deliveries wm s c (ch c) (v c)"
      by (simp add: pattern_deliveries_def listeners_of_def entry_of_def mset_concat_pattern
          redis_glob_matches_iff)
  qed
  finally show ?thesis by (simp only: dom)
qed

lemma dispatch_pmessage_mset:
  assumes "maps_ok s" and "msg_kind m = PMessage"
  shows "mset (dispatch_message s m) =
    (\<Sum>c\<in>{c. entry_of PatternMap s c \<noteq> None}.
       pattern_deliveries PatternMap s c (msg_channel m) (msg_value m))"
proof -
  have "distinct (map fst (get_map PatternMap s))" using assms(1) unfolding maps_ok_def by blast
  from mset_dispatch [OF this, of "\<lambda>c. msg_channel m" "\<lambda>c. msg_value m"] assms(2)
  show ?thesis by (simp add: dispatch_message_def Let_def)
qed

lemma dispatch_keyspace_mset:
  assumes "maps_ok s"
  shows "mset (dispatch_keyspace lossy s ev) =
    (\<Sum>c\<in>{c. entry_of KeyspaceMap s c \<noteq> None}.
       pattern_deliveries KeyspaceMap s c (fst (keyspace_message lossy ev (cn_str c)))
         (snd (keyspace_message lossy ev (cn_str c))))"
proof -
  have "distinct (map fst (get_map KeyspaceMap s))" using assms unfolding maps_ok_def by blast
  from mset_dispatch [OF this, of "\<lambda>c. fst (keyspace_message lossy ev (cn_str c))"
      "\<lambda>c. snd (keyspace_message lossy ev (cn_str c))"]
  show ?thesis by (simp add: dispatch_keyspace_def case_prod_unfold)
qed

lemma finite_entries: "finite {c. entry_of wm s c \<noteq> None}"
  unfolding entry_of_def using finite_dom_map_of [of "get_map wm s"] by (simp add: dom_def)

lemma in_dispatch_pmessage:
  assumes "maps_ok s" and "msg_kind m = PMessage"
  shows "d \<in> set (dispatch_message s m) \<longleftrightarrow>
    (\<exists>c l. l \<in> set (listeners_of PatternMap s c) \<and> l_name l = cn_str c \<and>
       gmatch (chars (cn_str c)) (chars (msg_channel m)) \<and>
       d = Delivery (l_listener l) (cn_str c) (msg_channel m) (msg_value m))"
proof -
  have "d \<in> set (dispatch_message s m) \<longleftrightarrow>
    d \<in># (\<Sum>c\<in>{c. entry_of PatternMap s c \<noteq> None}.
       pattern_deliveries PatternMap s c (msg_channel m) (msg_value m))"
    using dispatch_pmessage_mset [OF assms] by (metis set_mset_mset)
  also have "\<dots> \<longleftrightarrow> (\<exists>c. entry_of PatternMap s c \<noteq> None \<and>
      d \<in># pattern_deliveries PatternMap s c (msg_channel m) (msg_value m))"
    using finite_entries [of PatternMap s] by (simp add: set_mset_sum)
  also have "\<dots> \<longleftrightarrow> (\<exists>c l. l \<in> set (listeners_of PatternMap s c) \<and> l_name l = cn_str c \<and>
       gmatch (chars (cn_str c)) (chars (msg_channel m)) \<and>
       d = Delivery (l_listener l) (cn_str c) (msg_channel m) (msg_value m))"
  proof (rule ex_cong1)
    fix c
    show "(entry_of PatternMap s c \<noteq> None \<and>
        d \<in># pattern_deliveries PatternMap s c (msg_channel m) (msg_value m)) \<longleftrightarrow>
      (\<exists>l. l \<in> set (listeners_of PatternMap s c) \<and> l_name l = cn_str c \<and>
        gmatch (chars (cn_str c)) (chars (msg_channel m)) \<and>
        d = Delivery (l_listener l) (cn_str c) (msg_channel m) (msg_value m))"
      by (cases "entry_of PatternMap s c") (auto simp: pattern_deliveries_def listeners_of_def)
  qed
  finally show ?thesis .
qed

end
