(* ===== verification/Topics.thy ===== *)
theory Topics
  imports Dispatch
begin

text \<open>
  \<open>src/api/rpattern_topic.rs\<close>: a pattern topic registers a handler under its pattern and
  removes it by the identifier it got. Around it, the interleavings of concurrent
  registrations and removals: every await is a point where another task may run.
\<close>

section \<open>Pattern topics\<close>

record pattern_topic =
  pt_name :: string
  pt_channel_name :: channel_name

definition pattern_topic_new :: "string \<Rightarrow> pattern_topic" where
  "pattern_topic_new name = \<lparr>pt_name = name, pt_channel_name = ChannelName name\<rparr>"

text \<open>The address of the new listener is chosen by the allocator, hence an argument.\<close>

definition add_pubsub_listener ::
  "'w subscriber \<Rightarrow> pattern_topic \<Rightarrow> 'h listener \<Rightarrow> ('h pubsub_service \<times> 'w, listener_id) prog" where
  "add_pubsub_listener sb t l =
     (let i = listener_id_of l in
      pbind (psubscribe sb (pt_channel_name t) (OneListener l)) (\<lambda>u. pret i))"

definition add_listener ::
  "'w subscriber \<Rightarrow> pattern_topic \<Rightarrow> u64 \<Rightarrow> 'h \<Rightarrow> ('h pubsub_service \<times> 'w, listener_id) prog" where
  "add_listener sb t addr h =
     add_pubsub_listener sb t (pubsub_pattern_listener addr h (pt_name t))"

definition topic_remove_listener ::
  "'w subscriber \<Rightarrow> pattern_topic \<Rightarrow> multiple_listener_ids \<Rightarrow> ('h pubsub_service \<times> 'w, unit) prog" where
  "topic_remove_listener sb t ids =
     remove_listener sb Punsubscribe (OneChannel (pt_channel_name t)) ids"

section \<open>The outcome of one registration\<close>

lemma psubscribe_known:
  assumes "pattern_entry s c \<noteq> None"
  shows "psubscribe sb c ls (s, w) =
    (Inr (), snd (psubscribe_begin c (listeners_into_vec ls) s), w)"
  using assms already_begin [of c "listeners_into_vec ls" s]
  by (simp add: psubscribe_def case_prod_unfold)

text \<open>Whatever the request answers, the service ends in one of two states.\<close>

lemma psubscribe_state:
  assumes "psubscribe sb c ls (s, w) = (r, s', w')"
  shows "s' = snd (psubscribe_begin c (listeners_into_vec ls) s) \<or>
    (\<exists>e. r = Inl e \<and> pattern_entry s c = None \<and>
       s' = psubscribe_finish c r (snd (psubscribe_begin c (listeners_into_vec ls) s)))"
    and "r = Inr () \<Longrightarrow> s' = snd (psubscribe_begin c (listeners_into_vec ls) s)"
proof -
  have inr: "psubscribe_finish c (Inr u) t = t" for u and t :: "'a pubsub_service"
    by (simp add: psubscribe_finish_def)
  note al = already_begin [of c "listeners_into_vec ls" s]
  show "s' = snd (psubscribe_begin c (listeners_into_vec ls) s) \<or>
    (\<exists>e. r = Inl e \<and> pattern_entry s c = None \<and>
       s' = psubscribe_finish c r (snd (psubscribe_begin c (listeners_into_vec ls) s)))"
    using assms inr al
    by (cases r) (auto simp: psubscribe_def Let_def split: prod.splits if_splits sum.splits)
  show "r = Inr () \<Longrightarrow> s' = snd (psubscribe_begin c (listeners_into_vec ls) s)"
    using assms inr
    by (auto simp: psubscribe_def Let_def split: prod.splits if_splits sum.splits)
qed

lemma psubscribe_entry:
  assumes "psubscribe sb c ls (s, w) = (r, s', w')"
  shows "pattern_entry s' c \<noteq> None"
    and "r = Inr () \<Longrightarrow> entry_of wm s' d =
      (if wm = psub_map c \<and> d = c then Some (listeners_of wm s c @ listeners_into_vec ls)
       else entry_of wm s d)"
    and "\<not> (wm = psub_map c \<and> d = c) \<Longrightarrow> entry_of wm s' d = entry_of wm s d"
  using psubscribe_state [OF assms]
  by (auto simp: pattern_entry_def entry_begin entry_finish)

lemma psubscribe_maps_ok:
  assumes "psubscribe sb c ls (s, w) = (r, s', w')" and "maps_ok s"
  shows "maps_ok s'"
  using psubscribe_state(1) [OF assms(1)] assms(2) by (auto intro: maps_ok_begin maps_ok_finish)

lemma remove_listener_state:
  assumes "remove_listener sb ty names ids (s, w) = (r, s', w')"
  shows "s' = fst (remove_local ty (into_vec names) ids s)"
  using assms by (auto simp: remove_listener_def split: prod.splits)

lemma remove_listener_maps_ok:
  assumes "remove_listener sb ty names ids (s, w) = (r, s', w')" and "maps_ok s"
  shows "maps_ok s'"
proof -
  obtain t n k where t: "remove_local ty (into_vec names) ids s = (t, n, k)"
    by (metis prod_cases3)
  with remove_listener_state [OF assms(1)] maps_ok_remove [OF assms(2) t] show ?thesis by simp
qed

lemma add_listener_Inr:
  "add_listener sb t addr h (s, w) = (Inr i, s', w') \<longleftrightarrow>
     i = ListenerId addr \<and>
     psubscribe sb (pt_channel_name t) (OneListener (pubsub_pattern_listener addr h (pt_name t)))
       (s, w) = (Inr (), s', w')"
  by (auto simp: add_listener_def add_pubsub_listener_def pbind_def Let_def listener_id_of_def
      pubsub_pattern_listener_def split: prod.splits sum.splits)

section \<open>Interleavings\<close>

text \<open>
  Requests in flight: a pattern subscription of a task that found its channel unknown, and
  the unsubscriptions of a removal, the broadcast one being sent after the normal one is
  answered. The remote side is the set of patterns it serves to this client.
\<close>

datatype in_flight =
    Psubscribing channel_name
  | Punsubscribing "channel_name list" "channel_name list"

record 'h run_state =
  rs_service :: "'h pubsub_service"
  rs_flight :: "in_flight list"
  rs_serving :: "channel_name set"

definition run_init :: "redisson_config \<Rightarrow> string \<Rightarrow> 'h run_state" where
  "run_init c cmd = \<lparr>rs_service = pubsub_new c cmd, rs_flight = [], rs_serving = {}\<rparr>"

definition unsub_flight :: "channel_name list \<Rightarrow> channel_name list \<Rightarrow> in_flight list" where
  "unsub_flight n k = (if n = [] \<and> k = [] then [] else [Punsubscribing n k])"

text \<open>
  The flag of a step says whether a request failed in it. A task may start a registration or
  a removal at any time, and any request in flight may be the next one answered.
\<close>

inductive run_step :: "bool \<Rightarrow> 'h run_state \<Rightarrow> 'h run_state \<Rightarrow> bool" where
  start_known:
    "psubscribe_begin c ls (rs_service st) = (True, s1) \<Longrightarrow>
     run_step False st (st\<lparr>rs_service := s1\<rparr>)"
| start_new:
    "psubscribe_begin c ls (rs_service st) = (False, s1) \<Longrightarrow>
     run_step False st (st\<lparr>rs_service := s1, rs_flight := rs_flight st @ [Psubscribing c]\<rparr>)"
| psub_ok:
    "rs_flight st = xs @ Psubscribing c # ys \<Longrightarrow>
     run_step False st (st\<lparr>rs_flight := xs @ ys, rs_serving := insert c (rs_serving st)\<rparr>)"
| psub_fail:
    "rs_flight st = xs @ Psubscribing c # ys \<Longrightarrow>
     run_step True st
       (st\<lparr>rs_service := psubscribe_finish c (Inl e) (rs_service st), rs_flight := xs @ ys\<rparr>)"
| remove:
    "remove_local Punsubscribe cs ids (rs_service st) = (s1, n, k) \<Longrightarrow>
     run_step False st (st\<lparr>rs_service := s1, rs_flight := rs_flight st @ unsub_flight n k\<rparr>)"
| punsub_ok:
    "rs_flight st = xs @ Punsubscribing n k # ys \<Longrightarrow>
     run_step False st
       (st\<lparr>rs_flight := xs @ (if n = [] then [] else unsub_flight [] k) @ ys,
           rs_serving := rs_serving st - set (if n = [] then k else n)\<rparr>)"
| punsub_fail:
    "rs_flight st = xs @ Punsubscribing n k # ys \<Longrightarrow>
     run_step True st (st\<lparr>rs_flight := xs @ ys\<rparr>)"

inductive_cases run_stepE: "run_step b st st'"

inductive reachable :: "redisson_config \<Rightarrow> string \<Rightarrow> bool \<Rightarrow> 'h run_state \<Rightarrow> bool"
  for cfg cmd where
  reach_init: "reachable cfg cmd False (run_init cfg cmd)"
| reach_step: "reachable cfg cmd b st \<Longrightarrow> run_step b' st st' \<Longrightarrow> reachable cfg cmd (b \<or> b') st'"

lemma run_step_maps_ok: "run_step b st st' \<Longrightarrow> maps_ok (rs_service st) \<Longrightarrow> maps_ok (rs_service st')"
proof (induction rule: run_step.induct)
  case (start_known c ls st s1)
  then show ?case using maps_ok_begin [of "rs_service st" c ls] by simp
next
  case (start_new c ls st s1)
  then show ?case using maps_ok_begin [of "rs_service st" c ls] by simp
next
  case (remove cs ids st s1 n k)
  then show ?case using maps_ok_remove by auto
qed (simp_all add: maps_ok_finish)

lemma reachable_maps_ok: "reachable cfg cmd b st \<Longrightarrow> maps_ok (rs_service st)"
  by (induction rule: reachable.induct) (auto simp: run_init_def maps_ok_new intro: run_step_maps_ok)

text \<open>
  Progress of subscriptions: a registered pattern is served, or being subscribed, or some
  removal of it is or was under way, or a request failed. Stated as an invariant with a
  ghost: the set of patterns that a removal ever emptied.
\<close>

inductive reachable_by :: "redisson_config \<Rightarrow> string \<Rightarrow> channel_name set \<Rightarrow> 'h run_state \<Rightarrow> bool"
  for cfg cmd where
  by_init: "reachable_by cfg cmd {} (run_init cfg cmd)"
| by_step:
    "reachable_by cfg cmd R st \<Longrightarrow> run_step False st st' \<Longrightarrow>
     R' = R \<union> {c. \<exists>n k. Punsubscribing n k \<in> set (rs_flight st') \<and> c \<in> set n \<union> set k} \<Longrightarrow>
     reachable_by cfg cmd R' st'"

definition subscribed_or_pending :: "channel_name set \<Rightarrow> 'h run_state \<Rightarrow> bool" where
  "subscribed_or_pending R st \<longleftrightarrow>
     (\<forall>n k. Punsubscribing n k \<in> set (rs_flight st) \<longrightarrow> set n \<union> set k \<subseteq> R) \<and>
     (\<forall>c. pattern_entry (rs_service st) c \<noteq> None \<longrightarrow>
        c \<in> rs_serving st \<or> Psubscribing c \<in> set (rs_flight st) \<or> c \<in> R)"

lemma pattern_entry_remove:
  assumes "remove_local Punsubscribe cs ids s = (s1, n, k)" and "pattern_entry s1 c \<noteq> None"
  shows "pattern_entry s c \<noteq> None"
  using assms(2) remove_local_spec(1) [OF assms(1), of "psub_map c" c]
  by (auto simp: pattern_entry_def purge_entry_def split: if_splits option.splits)

lemma pattern_entry_begin:
  "pattern_entry (snd (psubscribe_begin c ls s)) d \<noteq> None \<longleftrightarrow> d = c \<or> pattern_entry s d \<noteq> None"
  by (auto simp: pattern_entry_def entry_begin)

lemma run_step_subscribed:
  assumes "run_step False st st'" and "subscribed_or_pending R st"
    and "R' = R \<union> {c. \<exists>n k. Punsubscribing n k \<in> set (rs_flight st') \<and> c \<in> set n \<union> set k}"
  shows "subscribed_or_pending R' st'"
  using assms(1)
proof (cases rule: run_step.cases)
  case (start_known c ls s1)
  have known: "pattern_entry s1 d \<noteq> None \<longleftrightarrow> pattern_entry (rs_service st) d \<noteq> None" for d
    using start_known(2) pattern_entry_begin [of c ls "rs_service st" d]
      already_begin [of c ls "rs_service st"] by auto
  with start_known assms(2,3) show ?thesis by (auto simp: subscribed_or_pending_def)
next
  case (start_new c ls s1)
  have known: "pattern_entry s1 d \<noteq> None \<longleftrightarrow> d = c \<or> pattern_entry (rs_service st) d \<noteq> None" for d
    using start_new(2) pattern_entry_begin [of c ls "rs_service st" d] by simp
  with start_new assms(2,3) show ?thesis by (auto simp: subscribed_or_pending_def)
next
  case (psub_ok xs c ys)
  with assms(2,3) show ?thesis by (auto simp: subscribed_or_pending_def)
next
  case (remove cs ids s1 n k)
  have R: "R' = R \<union> {c. \<exists>n k. Punsubscribing n k \<in> set (rs_flight st') \<and> c \<in> set n \<union> set k}"
    by (rule assms(3))
  have "c \<in> rs_serving st' \<or> Psubscribing c \<in> set (rs_flight st') \<or> c \<in> R'"
    if "pattern_entry (rs_service st') c \<noteq> None" for c
  proof -
    have "pattern_entry (rs_service st) c \<noteq> None"
      using pattern_entry_remove [OF remove(2), of c] that remove(1) by simp
    then have "c \<in> rs_serving st \<or> Psubscribing c \<in> set (rs_flight st) \<or> c \<in> R"
      using assms(2) unfolding subscribed_or_pending_def by blast
    then show ?thesis using remove(1) R by auto
  qed
  then show ?thesis unfolding subscribed_or_pending_def R by blast
next
  case (punsub_ok xs n k ys)
  have R: "set n \<union> set k \<subseteq> R" using punsub_ok(2) assms(2) by (auto simp: subscribed_or_pending_def)
  with punsub_ok assms(2,3) show ?thesis
    by (auto simp: subscribed_or_pending_def unsub_flight_def split: if_splits)
qed simp_all

lemma reachable_by_subscribed:
  "reachable_by cfg cmd R st \<Longrightarrow> subscribed_or_pending R st"
proof (induction rule: reachable_by.induct)
  case by_init
  show ?case
    by (auto simp: subscribed_or_pending_def run_init_def pattern_entry_def entry_of_def get_map_new)
next
  case (by_step R st st' R')
  then show ?case using run_step_subscribed by blast
qed

end
