(* ===== verification/PubSubSpec.thy ===== *)
theory PubSubSpec
  imports Topics
begin

text \<open>
  The properties of the pub/sub service: what one call of \<open>psubscribe\<close> and
  \<open>remove_listener\<close> does to the registered listeners and which requests it sends, what a
  message delivers, and what holds of every interleaving of calls.
\<close>

section \<open>One call\<close>

lemma begin_unknown:
  "pattern_entry s c = None \<Longrightarrow> psubscribe_begin c ls s = (False, snd (psubscribe_begin c ls s))"
  using already_begin [of c ls s] by (cases "psubscribe_begin c ls s") simp

text \<open>
  C7: The outcome of \<open>psubscribe\<close>: on success the listeners are appended to those the
  channel had, in the map its name selects; on failure the channel was new and stays
  registered, with its list emptied when a request failed, and with the new listeners when
  no request could be sent, because the connection manager that a keyspace pattern of a
  cluster needs is gone. No other entry of any map changes.
\<close>

theorem psubscribe_outcome:
  assumes "psubscribe sb c ls (s, w) = (r, s', w')"
  shows "(case r of
      Inr u \<Rightarrow> pattern_entry s' c = Some (listeners_of (psub_map c) s c @ listeners_into_vec ls)
    | Inl e \<Rightarrow> pattern_entry s c = None \<and>
        pattern_entry s' c = Some
          (if is_cluster (cf_mode (ps_config s)) \<and> is_keyspace c \<and> \<not> sb_manager_alive sb w
           then listeners_into_vec ls else []))
    \<and> (\<forall>wm d. (wm, d) \<noteq> (psub_map c, c) \<longrightarrow> entry_of wm s' d = entry_of wm s d)"
proof -
  let ?s1 = "snd (psubscribe_begin c (listeners_into_vec ls) s)"
  have "\<forall>wm d. (wm, d) \<noteq> (psub_map c, c) \<longrightarrow> entry_of wm s' d = entry_of wm s d"
    using psubscribe_entry(3) [OF assms] by auto
  moreover have "case r of
      Inr u \<Rightarrow> pattern_entry s' c = Some (listeners_of (psub_map c) s c @ listeners_into_vec ls)
    | Inl e \<Rightarrow> pattern_entry s c = None \<and>
        pattern_entry s' c = Some
          (if is_cluster (cf_mode (ps_config s)) \<and> is_keyspace c \<and> \<not> sb_manager_alive sb w
           then listeners_into_vec ls else [])"
  proof (cases r)
    case (Inr u)
    then show ?thesis using psubscribe_entry(2) [OF assms] by (simp add: pattern_entry_def)
  next
    case (Inl e)
    have new: "pattern_entry s c = None"
      using assms Inl psubscribe_known [of s c sb ls w] by (cases "pattern_entry s c = None") auto
    have begun: "pattern_entry ?s1 c = Some (listeners_into_vec ls)"
      using new by (simp add: pattern_entry_def entry_begin listeners_of_def)
    have "s' = (if is_cluster (cf_mode (ps_config s)) \<and> is_keyspace c \<and> \<not> sb_manager_alive sb w
        then ?s1 else psubscribe_finish c r ?s1)"
      using assms Inl unfolding psubscribe_def prod.case
      by (subst (asm) begin_unknown [OF new])
        (auto simp: subscription_entry_set_def manager_def Let_def split: prod.splits if_splits)
    with new begun Inl show ?thesis by (auto simp: pattern_entry_def entry_finish)
  qed
  ultimately show ?thesis by blast
qed

text \<open>
  Calls of the service made one after the other, whatever they return.
\<close>

datatype 'h service_call =
    CallPsubscribe channel_name "'h multiple_listeners"
  | CallRemove unsubscribe_type multiple_channel_names multiple_listener_ids

fun run_service_call ::
  "'w subscriber \<Rightarrow> 'h service_call \<Rightarrow> 'h pubsub_service \<times> 'w \<Rightarrow> 'h pubsub_service \<times> 'w" where
  "run_service_call sb (CallPsubscribe c ls) sw = snd (psubscribe sb c ls sw)"
| "run_service_call sb (CallRemove ty names ids) sw = snd (remove_listener sb ty names ids sw)"

definition run_service_calls ::
  "'w subscriber \<Rightarrow> 'h service_call list \<Rightarrow> 'h pubsub_service \<times> 'w \<Rightarrow> 'h pubsub_service \<times> 'w" where
  "run_service_calls sb xs = fold (run_service_call sb) xs"

fun removes_from :: "channel_name \<Rightarrow> 'h service_call \<Rightarrow> bool" where
  "removes_from c (CallRemove ty names ids) \<longleftrightarrow> c \<in> set (into_vec names)"
| "removes_from c (CallPsubscribe d ls) \<longleftrightarrow> False"

lemma run_service_call_keeps:
  assumes "run_service_call sb x (s, w) = (s', w')" and "\<not> removes_from c x"
    and "pattern_entry s c \<noteq> None"
  shows "pattern_entry s' c \<noteq> None"
proof (cases x)
  case (CallPsubscribe d ls)
  then obtain r where "psubscribe sb d ls (s, w) = (r, s', w')"
    using assms(1) by (cases "psubscribe sb d ls (s, w)") auto
  from psubscribe_entry(1,3) [OF this] assms(3) show ?thesis
    by (cases "c = d") (auto simp: pattern_entry_def)
next
  case (CallRemove ty names ids)
  then obtain r where "remove_listener sb ty names ids (s, w) = (r, s', w')"
    using assms(1) by (cases "remove_listener sb ty names ids (s, w)") auto
  moreover obtain t n k where t: "remove_local ty (into_vec names) ids s = (t, n, k)" by (metis prod_cases3)
  ultimately have "s' = t" using remove_listener_state by fastforce
  with remove_local_spec(1) [OF t, of "psub_map c" c] assms(2,3) CallRemove
  show ?thesis by (simp add: pattern_entry_def)
qed

lemma run_service_calls_keep:
  "run_service_calls sb xs (s, w) = (s', w') \<Longrightarrow> \<forall>x \<in> set xs. \<not> removes_from c x \<Longrightarrow>
   pattern_entry s c \<noteq> None \<Longrightarrow> pattern_entry s' c \<noteq> None"
proof (induction xs arbitrary: s w)
  case (Cons x xs)
  obtain s1 w1 where x: "run_service_call sb x (s, w) = (s1, w1)" by fastforce
  from run_service_call_keeps [OF x _ Cons.prems(3)] Cons.prems(2) have "pattern_entry s1 c \<noteq> None" by simp
  with Cons.IH [of s1 w1] Cons.prems(1,2) x show ?case by (simp add: run_service_calls_def)
qed (simp add: run_service_calls_def)

text \<open>
  C15: A failed \<open>psubscribe\<close> blocks its channel. After any further calls of the service, made one
  after the other with any subscriber client, of which none removes listeners of the channel,
  a \<open>psubscribe\<close> of the channel reports success at once and registers its listeners, and it
  sends no request: the remote state is the one it started in.
\<close>

theorem failed_psubscribe_blocks:
  assumes "psubscribe sb c ls (s, w) = (Inl e, s1, w1)"
    and "run_service_calls sb' xs (s1, w2) = (s2, w3)" and "\<forall>x \<in> set xs. \<not> removes_from c x"
  shows "\<exists>s3. psubscribe sb' c ls' (s2, w4) = (Inr (), s3, w4) \<and>
    pattern_entry s3 c = Some (listeners_of (psub_map c) s2 c @ listeners_into_vec ls')"
proof -
  have "pattern_entry s2 c \<noteq> None"
    by (rule run_service_calls_keep [OF assms(2,3) psubscribe_entry(1) [OF assms(1)]])
  then have "psubscribe sb' c ls' (s2, w4) =
      (Inr (), snd (psubscribe_begin c (listeners_into_vec ls') s2), w4)"
    by (rule psubscribe_known)
  then show ?thesis
    by (intro exI [of _ "snd (psubscribe_begin c (listeners_into_vec ls') s2)"])
      (simp add: pattern_entry_def entry_begin)
qed

text \<open>
  C8: \<open>remove_listener\<close> drops exactly the named listeners of the named channels: in the map
  its kind selects, a channel keeps its other listeners in their order, an entry without
  listeners left is removed, and every other entry stays; whether a request fails or not.
\<close>

theorem remove_listener_outcome:
  assumes "remove_listener sb ty names ids (s, w) = (r, s', w')"
  shows "entry_of wm s' d =
    (if d \<in> set (into_vec names) \<and> wm = unsub_map ty d then
       (case entry_of wm s d of
          None \<Rightarrow> None
        | Some ls \<Rightarrow>
            (let kept = filter (\<lambda>l. \<not> ids_contains ids (ListenerId (l_addr l))) ls
             in if kept = [] then None else Some kept))
     else entry_of wm s d)"
proof -
  obtain t n k where t: "remove_local ty (into_vec names) ids s = (t, n, k)" by (metis prod_cases3)
  have kept: "keep_listeners ids = filter (\<lambda>l. \<not> ids_contains ids (ListenerId (l_addr l)))"
    by (simp add: fun_eq_iff keep_listeners_def listener_id_of_def)
  have "s' = t" using t remove_listener_state [OF assms] by simp
  with remove_local_spec(1) [OF t, of wm d] show ?thesis
    unfolding purge_entry_def kept Let_def by simp
qed

text \<open>A subscriber client that records its requests, those of a join set when they are started.\<close>

definition recorded :: "'w subscriber \<Rightarrow> ('w \<times> sub_request list) subscriber" where
  "recorded sb =
     \<lparr>sb_request = (\<lambda>q (w, l). case sb_request sb q w of (r, w') \<Rightarrow> (r, w', l @ [q])),
      sb_join = (\<lambda>ts (w, l). case sb_join sb ts w of (rs, w') \<Rightarrow> (rs, w', l @ map snd ts)),
      sb_manager_alive = (\<lambda>(w, l). sb_manager_alive sb w),
      sb_entry_set = (\<lambda>(w, l). sb_entry_set sb w),
      sb_show_server = sb_show_server sb\<rparr>"

lemma emptied_iff:
  assumes "remove_local ty cs ids s = (s', n, k)" and "c \<in> set cs"
  shows "emptied ty ids s c \<longleftrightarrow>
    entry_of (unsub_map ty c) s c \<noteq> None \<and> entry_of (unsub_map ty c) s' c = None"
  using assms(2) remove_local_spec(1) [OF assms(1), of "unsub_map ty c" c]
  by (auto simp: emptied_def purge_entry_def split: option.splits)

lemma emptied_lists:
  assumes "remove_local ty cs ids s = (s', n, k)"
  shows "distinct (n @ k) \<and>
    set (n @ k) = {c \<in> set cs. entry_of (unsub_map ty c) s c \<noteq> None \<and> entry_of (unsub_map ty c) s' c = None} \<and>
    set k = {c \<in> set (n @ k). ty = Punsubscribe \<and> is_cluster (cf_mode (ps_config s)) \<and> is_keyspace c}"
  using remove_local_spec(3-5) [OF assms] emptied_iff [OF assms] by (auto simp: broadcasts_def)

text \<open>What the two unsubscriptions send, the second one only when the first one did not fail.\<close>

lemma unsubscriptions_sent:
  assumes "pbind (send_normal_unsub (recorded sb) ty n) (\<lambda>u. send_keyspace_unsub (recorded sb) k) (w, l) =
      (r, w', l')"
  shows "let (a, w1) = (if n = [] then (Inr (), w) else sb_request sb (unsubscribe_request ty n) w)
    in l' = l @ (if n = [] then [] else [unsubscribe_request ty n]) @
      (if k \<noteq> [] \<and> a = Inr () \<and> sb_manager_alive sb w1
       then map (\<lambda>e. NodePunsubscribe (primary e) k) (sb_entry_set sb w1) else [])"
  using assms
  by (auto simp: pbind_def send_normal_unsub_def send_keyspace_unsub_def recorded_def map_err_def
      subscription_entry_set_def manager_def punsubscribe_tasks_def get_client_def
      split: prod.splits sum.splits if_splits)

text \<open>
  C9: The unsubscriptions that \<open>remove_listener\<close> sends name exactly the channels whose last
  listener it removed, each once. First comes one plain request for all of them that are
  not keyspace patterns of a cluster; if that one does not fail and the connection manager
  is still there, one request per primary follows, each for all the others. When there are no
  channels for a request, it is not sent.
\<close>

theorem unsubscribes_emptied:
  assumes "remove_listener (recorded sb) ty names ids (s, w, l) = (r, s', w', l')"
  shows "\<exists>normal keyspace.
    distinct (normal @ keyspace) \<and>
    set (normal @ keyspace) = {c \<in> set (into_vec names).
      entry_of (unsub_map ty c) s c \<noteq> None \<and> entry_of (unsub_map ty c) s' c = None} \<and>
    set keyspace = {c \<in> set (normal @ keyspace).
      ty = Punsubscribe \<and> is_cluster (cf_mode (ps_config s)) \<and> is_keyspace c} \<and>
    (let (a, w1) = (if normal = [] then (Inr (), w) else sb_request sb (unsubscribe_request ty normal) w)
     in l' = l @ (if normal = [] then [] else [unsubscribe_request ty normal]) @
       (if keyspace \<noteq> [] \<and> a = Inr () \<and> sb_manager_alive sb w1
        then map (\<lambda>e. NodePunsubscribe (primary e) keyspace) (sb_entry_set sb w1) else []))"
proof -
  obtain t n k where t: "remove_local ty (into_vec names) ids s = (t, n, k)" by (metis prod_cases3)
  have run: "pbind (send_normal_unsub (recorded sb) ty n) (\<lambda>u. send_keyspace_unsub (recorded sb) k) (w, l) =
      (r, w', l')" and s': "s' = t"
    using assms t by (auto simp: remove_listener_def split: prod.splits)
  from emptied_lists [OF t] unsubscriptions_sent [OF run] show ?thesis
    unfolding s' by (intro exI [of _ n] exI [of _ k] conjI) (elim conjE, assumption)+
qed

section \<open>Interleavings\<close>

text \<open>
  C16: Keyspace and keyevent patterns and all other patterns never mix: in every state that
  any interleaving of registrations, removals and answers reaches, each map has one entry
  per channel, the keyspace map holds keyspace patterns only and the pattern map none.
\<close>

theorem pattern_maps_separate:
  assumes "reachable cfg cmd b st"
  shows "distinct (map fst (get_map wm (rs_service st))) \<and>
    (entry_of PatternMap (rs_service st) c = None \<or> entry_of KeyspaceMap (rs_service st) c = None) \<and>
    (is_keyspace c \<or> entry_of KeyspaceMap (rs_service st) c = None) \<and>
    \<not> (is_keyspace c \<and> entry_of PatternMap (rs_service st) c \<noteq> None)"
  using reachable_maps_ok [OF assms] unfolding maps_ok_def by blast

text \<open>
  C10: A message that a server sends for a pattern is handed to every listener registered for
  a matching pattern, once per registration, under the pattern, the channel and the value of
  the message, and to no other listener, in whatever order the map is walked. (A listener
  answers only for the pattern it was made for; one that is added through a topic is
  registered under that very pattern.)
\<close>

theorem pmessage_deliveries:
  assumes "reachable cfg cmd b st" and "msg_kind m = PMessage"
  shows "mset (dispatch_message (rs_service st) m) =
    (\<Sum>c \<in> {c. entry_of PatternMap (rs_service st) c \<noteq> None \<and> gmatch (chars (cn_str c)) (chars (msg_channel m))}.
       image_mset (\<lambda>l. Delivery (l_listener l) (cn_str c) (msg_channel m) (msg_value m))
         (filter_mset (\<lambda>l. l_name l = cn_str c) (mset (listeners_of PatternMap (rs_service st) c))))"
  unfolding dispatch_pmessage_mset [OF reachable_maps_ok [OF assms(1)] assms(2)]
  by (rule sum.mono_neutral_cong_right [OF finite_entries]) (auto simp: pattern_deliveries_def)

text \<open>
  C12: A keyspace event is handed to the listeners of every registered keyspace pattern that
  matches the channel name that pattern would have seen: for keyevent patterns the name
  carries the operation and the payload is the key, for keyspace patterns the reverse. (A
  listener answers only for the pattern it was made for, as for messages.)
\<close>

theorem keyspace_deliveries:
  assumes "reachable cfg cmd b st"
  shows "mset (dispatch_keyspace lossy (rs_service st) ev) =
    (\<Sum>c \<in> {c. entry_of KeyspaceMap (rs_service st) c \<noteq> None}.
       (let (channel, v) =
          (if starts_with (cn_str c) ''__keyevent''
           then (''__keyevent@'' @ show_nat (unat (ke_db ev)) @ ''__:'' @ ke_operation ev, Str (lossy (ke_key ev)))
           else (''__keyspace@'' @ show_nat (unat (ke_db ev)) @ ''__:'' @ lossy (ke_key ev), Str (ke_operation ev)))
        in if gmatch (chars (cn_str c)) (chars channel)
           then image_mset (\<lambda>l. Delivery (l_listener l) (cn_str c) channel v)
             (filter_mset (\<lambda>l. l_name l = cn_str c) (mset (listeners_of KeyspaceMap (rs_service st) c)))
           else {#}))"
  unfolding dispatch_keyspace_mset [OF reachable_maps_ok [OF assms]]
  by (rule sum.cong [OF refl])
    (simp add: pattern_deliveries_def keyspace_message_def Let_def)

text \<open>
  C13: As long as no request fails, a registered pattern is served by the server, or its
  subscription is under way, or an unsubscription of it was sent at some time: a pattern
  that was never unsubscribed is never lost.
\<close>

theorem registered_served_or_pending:
  assumes "reachable_by cfg cmd R st" and "pattern_entry (rs_service st) c \<noteq> None" and "c \<notin> R"
  shows "c \<in> rs_serving st \<or> Psubscribing c \<in> set (rs_flight st)"
  using reachable_by_subscribed [OF assms(1)] assms(2,3)
  unfolding subscribed_or_pending_def by blast

lemma reach_ok: "reachable cfg cmd False st \<Longrightarrow> run_step False st st' \<Longrightarrow> reachable cfg cmd False st'"
  using reach_step [of cfg cmd False st False st'] by simp

text \<open>The steps of the history below: a pattern is registered, served, and registered no more.\<close>

lemma registered_alone:
  "pattern_entry s c = None \<Longrightarrow> pattern_entry (snd (psubscribe_begin c [l] s)) c = Some [l]"
  by (simp add: pattern_entry_def entry_begin listeners_of_def)

lemma reach_registered:
  assumes "reachable cfg cmd False st" and "pattern_entry (rs_service st) c = None"
  shows "reachable cfg cmd False
    (st\<lparr>rs_service := snd (psubscribe_begin c [l] (rs_service st)),
        rs_flight := rs_flight st @ [Psubscribing c]\<rparr>)"
  by (rule reach_ok [OF assms(1)], rule start_new [where ls = "[l]"], rule begin_unknown [OF assms(2)])

lemma sole_listener_removed:
  assumes "pattern_entry s c = Some [l]"
    and rm: "remove_local Punsubscribe [c] (OneId (listener_id_of l)) s = (s', n, k)"
  shows "pattern_entry s' c = None" and "set n \<union> set k = {c}" and "n = [] \<or> k = []"
proof -
  have kept: "keep_listeners (OneId (listener_id_of l)) [l] = []" by (simp add: keep_listeners_def)
  show "pattern_entry s' c = None"
    using remove_local_spec(1) [OF rm, of "psub_map c" c] assms(1) kept
    by (simp add: pattern_entry_def purge_entry_def)
  have "emptied Punsubscribe (OneId (listener_id_of l)) s c"
    using assms(1) kept by (simp add: emptied_def pattern_entry_def)
  then have "set n = (if broadcasts Punsubscribe s c then {} else {c})"
    "set k = (if broadcasts Punsubscribe s c then {c} else {})"
    using remove_local_spec(4,5) [OF rm] by auto
  then show "set n \<union> set k = {c}" and "n = [] \<or> k = []" by (simp_all split: if_splits)
qed

lemma reach_unserved:
  assumes "reachable cfg cmd False st" and "rs_flight st = [Punsubscribing n k]"
    and "n = [] \<or> k = []"
  shows "reachable cfg cmd False (st\<lparr>rs_flight := [], rs_serving := rs_serving st - (set n \<union> set k)\<rparr>)"
proof -
  have "run_step False st (st\<lparr>rs_flight := [] @ (if n = [] then [] else unsub_flight [] k) @ [],
      rs_serving := rs_serving st - set (if n = [] then k else n)\<rparr>)"
    by (rule punsub_ok) (simp add: assms(2))
  moreover have "[] @ (if n = [] then [] else unsub_flight [] k) @ [] = []"
    "set (if n = [] then k else n) = set n \<union> set k"
    using assms(3) by (auto simp: unsub_flight_def)
  ultimately show ?thesis using reach_ok [OF assms(1)] by simp
qed

text \<open>
  C14: The exception is real: removing the last listener of a pattern and registering a new
  one concurrently can end, with every request answered successfully and none in flight, in
  a state where the pattern has a listener and the server does not serve it.
\<close>

theorem unserved_pattern_reachable:
  fixes l :: "'h listener"
  shows "\<exists>st. reachable cfg cmd False st \<and> rs_flight st = [] \<and>
    pattern_entry (rs_service st) c = Some [l] \<and> c \<notin> rs_serving st"
proof -
  define st0 :: "'h run_state" where "st0 = run_init cfg cmd"
  have fresh: "pattern_entry (rs_service st0) c = None" and idle: "rs_flight st0 = []"
    by (simp_all add: st0_def run_init_def pattern_entry_def entry_of_def get_map_new)
  define s1 where "s1 = snd (psubscribe_begin c [l] (rs_service st0))"
  obtain s2 n k where rm: "remove_local Punsubscribe [c] (OneId (listener_id_of l)) s1 = (s2, n, k)"
    by (metis prod_cases3)
  have alone: "pattern_entry s1 c = Some [l]" unfolding s1_def by (rule registered_alone [OF fresh])
  note removed = sole_listener_removed [OF alone rm]
  define s3 where "s3 = snd (psubscribe_begin c [l] s2)"
  let ?st1 = "st0\<lparr>rs_service := s1, rs_flight := [Psubscribing c]\<rparr>"
  have "reachable cfg cmd False st0" unfolding st0_def by (rule reach_init)
  from reach_registered [OF this fresh, of l] have st1: "reachable cfg cmd False ?st1"
    by (simp add: idle s1_def)
  let ?st2 = "?st1\<lparr>rs_flight := [], rs_serving := insert c (rs_serving st0)\<rparr>"
  have st2: "reachable cfg cmd False ?st2"
    using reach_ok [OF st1 psub_ok [of ?st1 "[]" c "[]"]] by simp
  have flight: "unsub_flight n k = [Punsubscribing n k]" using removed(2) by (auto simp: unsub_flight_def)
  let ?st3 = "?st2\<lparr>rs_service := s2, rs_flight := [Punsubscribing n k]\<rparr>"
  have st3: "reachable cfg cmd False ?st3"
    using reach_ok [OF st2 remove [of "[c]" "OneId (listener_id_of l)" ?st2 s2 n k]] rm flight by simp
  let ?st4 = "?st3\<lparr>rs_service := s3, rs_flight := [Punsubscribing n k, Psubscribing c]\<rparr>"
  have st4: "reachable cfg cmd False ?st4"
    using reach_registered [OF st3, of c l] removed(1) by (simp add: s3_def)
  let ?st5 = "st0\<lparr>rs_service := s3, rs_flight := [Punsubscribing n k],
                   rs_serving := insert c (rs_serving st0)\<rparr>"
  have "reachable cfg cmd False ?st5"
    using reach_ok [OF st4 psub_ok [of ?st4 "[Punsubscribing n k]" c "[]"]] by (simp add: insert_absorb)
  from reach_unserved [OF this _ removed(3)] removed(2)
  have "reachable cfg cmd False (?st5\<lparr>rs_flight := [], rs_serving := insert c (rs_serving st0) - {c}\<rparr>)"
    by simp
  then show ?thesis
    using registered_alone [OF removed(1), of l]
    by (intro exI [of _ "?st5\<lparr>rs_flight := [], rs_serving := insert c (rs_serving st0) - {c}\<rparr>"])
      (simp add: s3_def)
qed

section \<open>Topics\<close>

text \<open>
  C38: Adding a listener to a pattern topic and removing it by the identifier it got restores
  the listeners of every pattern, whatever the removal's requests answer, provided the new
  listener's address is not that of a registered one.
\<close>

theorem topic_add_remove:
  assumes "add_listener sb t addr h (s, w) = (Inr i, s1, w1)"
    and "topic_remove_listener sb' t (OneId i) (s1, w2) = (r, s2, w3)"
    and "addr \<notin> l_addr ` set (listeners_of (psub_map (pt_channel_name t)) s (pt_channel_name t))"
  shows "listeners_of (psub_map c) s2 c = listeners_of (psub_map c) s c"
proof -
  let ?c = "pt_channel_name t" and ?l = "pubsub_pattern_listener addr h (pt_name t)"
  have i: "i = ListenerId addr" and p: "psubscribe sb ?c (OneListener ?l) (s, w) = (Inr (), s1, w1)"
    using assms(1) unfolding add_listener_Inr by simp_all
  have s1: "s1 = snd (psubscribe_begin ?c [?l] s)" using psubscribe_state(2) [OF p] by simp
  have s2: "s2 = purge_channel Punsubscribe (OneId i) ?c s1"
    using remove_listener_state [OF assms(2) [unfolded topic_remove_listener_def]]
    by (simp add: purge_channel_def)
  have hit: "ids_contains (OneId i) (listener_id_of ?l)"
    by (simp add: i listener_id_of_def pubsub_pattern_listener_def)
  have "\<not> ids_contains (OneId i) (listener_id_of l)" if "l \<in> set (listeners_of (psub_map ?c) s ?c)" for l
    using that assms(3) i by (auto simp: listener_id_of_def)
  then have "(\<lambda>c. listeners_of (psub_map c)
        (purge_channel Punsubscribe (OneId i) ?c (snd (psubscribe_begin ?c [?l] s))) c) =
      (\<lambda>c. listeners_of (psub_map c) s c)"
    by (intro patterns.register_purge) (use hit in auto)
  then show ?thesis unfolding s2 s1 by (rule fun_cong)
qed

section \<open>Keyspace patterns of a cluster\<close>

text \<open>
  In a cluster a new keyspace pattern is subscribed on every primary: the service runs
  one request per primary, waits for all of them, and fails with the first error among the
  answers in the order in which they came, if there is one.
\<close>

theorem keyspace_psubscribe_broadcasts:
  assumes "is_cluster (cf_mode (ps_config s))" and "is_keyspace c" and "pattern_entry s c = None"
    and "sb_manager_alive sb w"
    and "sb_join sb (map (\<lambda>e. (primary e, NodePsubscribe (primary e) [c])) (sb_entry_set sb w)) w = (rs, w1)"
  shows "\<exists>s'. psubscribe sb c ls (s, w) =
    ((case List.map_filter task_error (map (\<lambda>(srv, t). map_task_err
         (\<lambda>m. ''psubscribe to '' @ cn_str c @ '' on '' @ sb_show_server sb srv @ '' failed: '' @ m) t) rs)
      of [] \<Rightarrow> Inr () | e # es \<Rightarrow> Inl e), s', w1)"
proof -
  have b: "psubscribe_begin c (listeners_into_vec ls) s =
      (False, snd (psubscribe_begin c (listeners_into_vec ls) s))" by (rule begin_unknown [OF assms(3)])
  have t: "psubscribe_tasks c (sb_entry_set sb w) =
      map (\<lambda>e. (primary e, NodePsubscribe (primary e) [c])) (sb_entry_set sb w)"
    by (simp add: psubscribe_tasks_def get_client_def)
  show ?thesis unfolding join_all_first(2) [symmetric] psubscribe_def prod.case
    by (subst b) (simp add: assms(1,2,4,5) subscription_entry_set_def manager_def t Let_def)
qed

end
