(* ===== verification/Commands.thy ===== *)
theory Commands
  imports Runtime
begin

text \<open>
  The command enumeration of \<open>src/client/protocol/redis_command.rs\<close>: which commands may go
  to a replica, the key that decides their slot, and their translation to calls of the
  client, in pipelines (\<open>execute_on\<close>) and on their own (\<open>execute\<close>, with the fallback from
  the read-only variants that older servers do not know).
\<close>

section \<open>The commands\<close>

datatype command =
    Get key
  | Set key rvalue "expiration option" "set_options option"
  | Del "key list"
  | Exists "key list"
  | Expire key i64
  | Pexpire key i64
  | Ttl key
  | Pttl key
  | Persist key
  | HGet key key
  | HSet key key rvalue
  | HGetAll key
  | HDel key "key list"
  | HExists key key
  | HLen key
  | HIncrBy key key i64
  | SAdd key "rvalue list"
  | SRem key "rvalue list"
  | SMembers key
  | SIsMember key rvalue
  | SCard key
  | ZAdd key f64 rvalue "set_options option"
  | ZRem key "rvalue list"
  | ZScore key rvalue
  | ZCard key
  | Eval string "key list" "rvalue list"
  | EvalSha string "key list" "rvalue list"
  | EvalShaRo string "key list" "rvalue list"
  | Sort key
  | SortRo key
  | Wait i64 i64
  | WaitAof i64 i64 i64

fun is_read_only :: "command \<Rightarrow> bool" where
  "is_read_only (Get k) = True"
| "is_read_only (Exists ks) = True"
| "is_read_only (Ttl k) = True"
| "is_read_only (Pttl k) = True"
| "is_read_only (HGet k f) = True"
| "is_read_only (HGetAll k) = True"
| "is_read_only (HExists k f) = True"
| "is_read_only (HLen k) = True"
| "is_read_only (SMembers k) = True"
| "is_read_only (SIsMember k m) = True"
| "is_read_only (SCard k) = True"
| "is_read_only (ZScore k m) = True"
| "is_read_only (ZCard k) = True"
| "is_read_only (EvalShaRo sha ks vs) = True"
| "is_read_only (SortRo k) = True"
| "is_read_only _ = False"

text \<open>\<open>keys.first()\<close>\<close>

fun first_key :: "key list \<Rightarrow> key option" where
  "first_key [] = None"
| "first_key (k # ks) = Some k"

fun routing_key :: "command \<Rightarrow> string option" where
  "routing_key (Get k) = Some k"
| "routing_key (Set k v ex opt) = Some k"
| "routing_key (Del ks) = first_key ks"
| "routing_key (Exists ks) = first_key ks"
| "routing_key (Expire k n) = Some k"
| "routing_key (Pexpire k n) = Some k"
| "routing_key (Ttl k) = Some k"
| "routing_key (Pttl k) = Some k"
| "routing_key (Persist k) = Some k"
| "routing_key (HGet k f) = Some k"
| "routing_key (HSet k f v) = Some k"
| "routing_key (HGetAll k) = Some k"
| "routing_key (HDel k fs) = Some k"
| "routing_key (HExists k f) = Some k"
| "routing_key (HLen k) = Some k"
| "routing_key (HIncrBy k f d) = Some k"
| "routing_key (SAdd k ms) = Some k"
| "routing_key (SRem k ms) = Some k"
| "routing_key (SMembers k) = Some k"
| "routing_key (SIsMember k m) = Some k"
| "routing_key (SCard k) = Some k"
| "routing_key (ZAdd k sc m opt) = Some k"
| "routing_key (ZRem k ms) = Some k"
| "routing_key (ZScore k m) = Some k"
| "routing_key (ZCard k) = Some k"
| "routing_key (EvalSha sha ks vs) = first_key ks"
| "routing_key (EvalShaRo sha ks vs) = first_key ks"
| "routing_key (Eval script ks vs) = first_key ks"
| "routing_key (Sort k) = Some k"
| "routing_key (SortRo k) = Some k"
| "routing_key (Wait n t) = None"
| "routing_key (WaitAof l n t) = None"

section \<open>Pipelines\<close>

text \<open>The argument vector of the script commands: script or digest, key count, keys, values.\<close>

definition script_args :: "string \<Rightarrow> key list \<Rightarrow> rvalue list \<Rightarrow> rvalue list" where
  "script_args s ks vs = Str s # Integer (of_nat (length ks)) # map Bytes ks @ vs"

fun execute_on :: "(request \<Rightarrow> ('s, rvalue) prog) \<Rightarrow> command \<Rightarrow> ('s, rvalue) prog" where
  "execute_on client (Get k) = client (QGet k)"
| "execute_on client (Set k v ex opt) = client (QSet k v ex opt False)"
| "execute_on client (Del ks) = client (QDel ks)"
| "execute_on client (Exists ks) = client (QExists ks)"
| "execute_on client (Expire k n) = client (QExpire k n)"
| "execute_on client (Pexpire k n) = client (QPexpire k n)"
| "execute_on client (Ttl k) = client (QTtl k)"
| "execute_on client (Pttl k) = client (QPttl k)"
| "execute_on client (Persist k) = client (QPersist k)"
| "execute_on client (HGet k f) = client (QHGet k f)"
| "execute_on client (HSet k f v) = client (QHSet k (f, v))"
| "execute_on client (HGetAll k) = client (QHGetAll k)"
| "execute_on client (HDel k fs) = client (QHDel k fs)"
| "execute_on client (HExists k f) = client (QHExists k f)"
| "execute_on client (HLen k) = client (QHLen k)"
| "execute_on client (HIncrBy k f d) = client (QHIncrBy k f d)"
| "execute_on client (SAdd k ms) = client (QSAdd k ms)"
| "execute_on client (SRem k ms) = client (QSRem k ms)"
| "execute_on client (SMembers k) = client (QSMembers k)"
| "execute_on client (SIsMember k m) = client (QSIsMember k m)"
| "execute_on client (SCard k) = client (QSCard k)"
| "execute_on client (ZAdd k sc m opt) = client (QZAdd k opt False False (sc, m))"
| "execute_on client (ZRem k ms) = client (QZRem k ms)"
| "execute_on client (ZScore k m) = client (QZScore k m)"
| "execute_on client (ZCard k) = client (QZCard k)"
| "execute_on client (Eval script ks vs) =
     client (QCustom ''EVAL'' FirstKey (script_args script ks vs))"
| "execute_on client (EvalSha sha ks vs) =
     client (QCustom ''EVALSHA'' FirstKey (script_args sha ks vs))"
| "execute_on client (EvalShaRo sha ks vs) =
     client (QCustom ''EVALSHA'' FirstKey (script_args sha ks vs))"
| "execute_on client (Sort k) = client (QCustom ''SORT'' FirstKey [Bytes k])"
| "execute_on client (SortRo k) = client (QCustom ''SORT'' FirstKey [Bytes k])"
| "execute_on client (Wait n t) = client (QWait n t)"
| "execute_on client (WaitAof l n t) =
     client (QCustom ''WAITAOF'' FirstKey [Integer l, Integer n, Integer t])"

section \<open>Single commands\<close>

definition unknown_command :: "err \<Rightarrow> bool" where
  "unknown_command e \<longleftrightarrow> str_contains (err_details e) ''ERR unknown command''"

text \<open>
  The two read-only variants: tried as long as the servers are believed to know them, and
  replaced by the command every server knows once one does not.
\<close>

definition execute_eval_sha_ro ::
  "'w fred \<Rightarrow> fred_options \<Rightarrow> string \<Rightarrow> key list \<Rightarrow> rvalue list \<Rightarrow> ('w globals, rvalue) prog" where
  [simp]: "execute_eval_sha_ro fr opts sha ks vs =
     (\<lambda>s. if eval_sha_ro_supported s then
            (case on_remote (fr_call fr opts
                 (QCustom ''EVALSHA_RO'' FirstKey (script_args sha ks vs))) s of
               (Inr v, t) \<Rightarrow> (Inr v, t)
             | (Inl e, t) \<Rightarrow>
                 if unknown_command e then
                   on_remote (fr_call fr opts (QEvalSha sha ks vs))
                     (t\<lparr>eval_sha_ro_supported := False\<rparr>)
                 else (Inl e, t))
          else on_remote (fr_call fr opts (QEvalSha sha ks vs)) s)"

definition execute_sort_ro :: "'w fred \<Rightarrow> fred_options \<Rightarrow> key \<Rightarrow> ('w globals, rvalue) prog" where
  [simp]: "execute_sort_ro fr opts k =
     (\<lambda>s. if sort_ro_supported s then
            (case on_remote (fr_call fr opts (QCustom ''SORT_RO'' FirstKey [Bytes k])) s of
               (Inr v, t) \<Rightarrow> (Inr v, t)
             | (Inl e, t) \<Rightarrow>
                 if unknown_command e then
                   on_remote (fr_call fr opts (QCustom ''SORT'' FirstKey [Bytes k]))
                     (t\<lparr>sort_ro_supported := False\<rparr>)
                 else (Inl e, t))
          else on_remote (fr_call fr opts (QCustom ''SORT'' FirstKey [Bytes k])) s)"

text \<open>The client has no method for \<open>WAITAOF\<close>.\<close>

definition execute_wait_aof ::
  "'w fred \<Rightarrow> fred_options \<Rightarrow> i64 \<Rightarrow> i64 \<Rightarrow> i64 \<Rightarrow> ('w globals, rvalue) prog" where
  [simp]: "execute_wait_aof fr opts l n t =
     on_remote (fr_call fr opts
       (QCustom ''WAITAOF'' FirstKey [Integer l, Integer n, Integer t]))"

fun execute :: "'w fred \<Rightarrow> fred_options \<Rightarrow> command \<Rightarrow> ('w globals, rvalue) prog" where
  "execute fr opts (Get k) = on_remote (fr_call fr opts (QGet k))"
| "execute fr opts (Set k v ex opt) = on_remote (fr_call fr opts (QSet k v ex opt False))"
| "execute fr opts (Del ks) = on_remote (fr_call fr opts (QDel ks))"
| "execute fr opts (Exists ks) = on_remote (fr_call fr opts (QExists ks))"
| "execute fr opts (Expire k n) = on_remote (fr_call fr opts (QExpire k n))"
| "execute fr opts (Pexpire k n) = on_remote (fr_call fr opts (QPexpire k n))"
| "execute fr opts (Ttl k) = on_remote (fr_call fr opts (QTtl k))"
| "execute fr opts (Pttl k) = on_remote (fr_call fr opts (QPttl k))"
| "execute fr opts (Persist k) = on_remote (fr_call fr opts (QPersist k))"
| "execute fr opts (HGet k f) = on_remote (fr_call fr opts (QHGet k f))"
| "execute fr opts (HSet k f v) = on_remote (fr_call fr opts (QHSet k (f, v)))"
| "execute fr opts (HGetAll k) = on_remote (fr_call fr opts (QHGetAll k))"
| "execute fr opts (HDel k fs) = on_remote (fr_call fr opts (QHDel k fs))"
| "execute fr opts (HExists k f) = on_remote (fr_call fr opts (QHExists k f))"
| "execute fr opts (HLen k) = on_remote (fr_call fr opts (QHLen k))"
| "execute fr opts (HIncrBy k f d) = on_remote (fr_call fr opts (QHIncrBy k f d))"
| "execute fr opts (SAdd k ms) = on_remote (fr_call fr opts (QSAdd k ms))"
| "execute fr opts (SRem k ms) = on_remote (fr_call fr opts (QSRem k ms))"
| "execute fr opts (SMembers k) = on_remote (fr_call fr opts (QSMembers k))"
| "execute fr opts (SIsMember k m) = on_remote (fr_call fr opts (QSIsMember k m))"
| "execute fr opts (SCard k) = on_remote (fr_call fr opts (QSCard k))"
| "execute fr opts (ZAdd k sc m opt) =
     on_remote (fr_call fr opts (QZAdd k opt False False (sc, m)))"
| "execute fr opts (ZRem k ms) = on_remote (fr_call fr opts (QZRem k ms))"
| "execute fr opts (ZScore k m) = on_remote (fr_call fr opts (QZScore k m))"
| "execute fr opts (ZCard k) = on_remote (fr_call fr opts (QZCard k))"
| "execute fr opts (Eval script ks vs) = on_remote (fr_call fr opts (QEval script ks vs))"
| "execute fr opts (EvalSha sha ks vs) = on_remote (fr_call fr opts (QEvalSha sha ks vs))"
| "execute fr opts (EvalShaRo sha ks vs) =
     execute_eval_sha_ro fr opts sha ks vs"
| "execute fr opts (Sort k) =
     on_remote (fr_call fr opts (QCustom ''SORT'' FirstKey [Bytes k]))"
| "execute fr opts (SortRo k) =
     execute_sort_ro fr opts k"
| "execute fr opts (Wait n t) = on_remote (fr_call fr opts (QWait n t))"
| "execute fr opts (WaitAof l n t) = execute_wait_aof fr opts l n t"

section \<open>What is sent\<close>

text \<open>The request a command puts into a pipeline, whatever the pipeline does with it.\<close>

definition pipeline_request :: "command \<Rightarrow> request" where
  "pipeline_request c = snd (execute_on (\<lambda>q s. (Inr Null, q)) c (QGet []))"

lemma execute_on_request: "execute_on client c = client (pipeline_request c)"
  by (cases c) (simp_all add: pipeline_request_def)

text \<open>The read-only variants, with the flag that says whether the servers know them.\<close>

fun ro_request :: "command \<Rightarrow> request option" where
  "ro_request (EvalShaRo sha ks vs) =
     Some (QCustom ''EVALSHA_RO'' FirstKey (script_args sha ks vs))"
| "ro_request (SortRo k) = Some (QCustom ''SORT_RO'' FirstKey [Bytes k])"
| "ro_request c = None"

fun ro_supported :: "command \<Rightarrow> 'w globals \<Rightarrow> bool" where
  "ro_supported (EvalShaRo sha ks vs) s = eval_sha_ro_supported s"
| "ro_supported (SortRo k) s = sort_ro_supported s"
| "ro_supported c s = False"

fun drop_ro_support :: "command \<Rightarrow> 'w globals \<Rightarrow> 'w globals" where
  "drop_ro_support (EvalShaRo sha ks vs) s = s\<lparr>eval_sha_ro_supported := False\<rparr>"
| "drop_ro_support (SortRo k) s = s\<lparr>sort_ro_supported := False\<rparr>"
| "drop_ro_support c s = s"

text \<open>The request that every server knows: the only one of a command without a variant.\<close>

fun base_request :: "command \<Rightarrow> request" where
  "base_request (Eval script ks vs) = QEval script ks vs"
| "base_request (EvalSha sha ks vs) = QEvalSha sha ks vs"
| "base_request (EvalShaRo sha ks vs) = QEvalSha sha ks vs"
| "base_request c = pipeline_request c"

text \<open>Every command is one request, tried first in its read-only variant if it has one.\<close>

lemma execute_cases:
  "execute fr opts c s =
     (case ro_request c of
        None \<Rightarrow> on_remote (fr_call fr opts (base_request c)) s
      | Some q \<Rightarrow>
          if \<not> ro_supported c s then on_remote (fr_call fr opts (base_request c)) s
          else
            (case on_remote (fr_call fr opts q) s of
               (Inr v, t) \<Rightarrow> (Inr v, t)
             | (Inl e, t) \<Rightarrow>
                 if unknown_command e then
                   on_remote (fr_call fr opts (base_request c)) (drop_ro_support c t)
                 else (Inl e, t)))"
  by (cases c) (simp_all add: pipeline_request_def split: prod.split sum.split)

lemma drop_ro_support_frame [simp]:
  "remote (drop_ro_support c s) = remote s"
  "sha_cache (drop_ro_support c s) = sha_cache s"
  "script_sha_cache (drop_ro_support c s) = script_sha_cache s"
  "slave_info_cache (drop_ro_support c s) = slave_info_cache s"
  by (cases c; simp)+

lemma drop_ro_supported: "ro_request c \<noteq> None \<Longrightarrow> \<not> ro_supported c (drop_ro_support c s)"
  by (cases c) simp_all

lemma execute_frame:
  "sha_cache (snd (execute fr opts c s)) = sha_cache s \<and>
   script_sha_cache (snd (execute fr opts c s)) = script_sha_cache s \<and>
   slave_info_cache (snd (execute fr opts c s)) = slave_info_cache s"
  by (simp add: execute_cases on_remote_apply split: option.split sum.split)

text \<open>The requests of one execution, with the options they are sent under.\<close>

definition sent_by :: "'w fred \<Rightarrow> fred_options \<Rightarrow> command \<Rightarrow> 'w globals \<Rightarrow> request list" where
  "sent_by fr opts c s =
     (case ro_request c of
        None \<Rightarrow> [base_request c]
      | Some q \<Rightarrow>
          if \<not> ro_supported c s then [base_request c]
          else
            (case fst (fr_call fr opts q (remote s)) of
               Inr v \<Rightarrow> [q]
             | Inl e \<Rightarrow> if unknown_command e then [q, base_request c] else [q]))"

definition with_log :: "(via \<times> request option) list \<Rightarrow> 'w globals \<Rightarrow> 'w logged globals" where
  "with_log l s =
     \<lparr>sort_ro_supported = sort_ro_supported s,
      eval_sha_ro_supported = eval_sha_ro_supported s, sha_cache = sha_cache s,
      script_sha_cache = script_sha_cache s, slave_info_cache = slave_info_cache s,
      remote = (remote s, l)\<rparr>"

lemma on_remote_logged:
  "on_remote (fr_call (logged fr) opts q) (with_log l s) =
     (fst (fr_call fr opts q (remote s)),
      with_log (l @ [(WithOptions opts, Some q)]) (s\<lparr>remote := snd (fr_call fr opts q (remote s))\<rparr>))"
  by (simp add: on_remote_apply logged_call_apply with_log_def)

lemma with_log_simps [simp]:
  "ro_supported c (with_log l s) = ro_supported c s"
  "drop_ro_support c (with_log l s) = with_log l (drop_ro_support c s)"
  "remote (with_log l s) = (remote s, l)"
  by (cases c; simp add: with_log_def)+

text \<open>
  C30: A command is one request with the caller's options, or two: the read-only variant of a
  script or a sort is tried first as long as the servers are believed to know it, and only
  an unknown-command answer makes the command go out a second time in the form every server
  knows, after which the variant is not tried again. Recording the requests changes nothing
  else.
\<close>

theorem execute_requests:
  "execute (logged fr) opts c (with_log l s) =
     (fst (execute fr opts c s),
      with_log (l @ map (\<lambda>q. (WithOptions opts, Some q)) (sent_by fr opts c s)) (snd (execute fr opts c s)))
   \<and> \<not> (length (sent_by fr opts c s) = 2 \<and> ro_supported c (snd (execute fr opts c s)))"
proof (cases "ro_request c")
  case None
  then show ?thesis
    by (simp add: execute_cases sent_by_def on_remote_logged del: logged_simps) (simp add: on_remote_apply)
next
  case (Some q)
  show ?thesis
  proof (cases "ro_supported c s")
    case False
    with Some show ?thesis
      by (simp add: execute_cases sent_by_def on_remote_logged del: logged_simps) (simp add: on_remote_apply)
  next
    case True
    obtain x w where x: "fr_call fr opts q (remote s) = (x, w)" by fastforce
    have q: "on_remote (fr_call fr opts q) s = (x, s\<lparr>remote := w\<rparr>)" by (simp add: on_remote_apply x)
    have "\<not> ro_supported c (drop_ro_support c s')" for s' :: "'a globals"
      using drop_ro_supported [of c s'] Some by simp
    moreover have "ro_supported c (s'\<lparr>remote := w'\<rparr>) = ro_supported c s'" for s' :: "'a globals" and w'
      by (cases c) simp_all
    ultimately show ?thesis using Some True x q
      by (cases x)
        (simp_all add: execute_cases sent_by_def on_remote_logged del: logged_simps,
          simp_all add: on_remote_apply)
  qed
qed

end
