(* ===== verification/Executor.thy ===== *)
theory Executor
  imports Commands Services Config
begin

text \<open>
  The part of \<open>src/command/command_async_service.rs\<close> that the plain and the batch service
  share: \<open>CommandAsyncInner\<close> and the cached answer of the \<open>WAIT\<close> probe. Also
  \<open>src/command/command_async_executor.rs\<close>. The connection manager an inner service points
  to is the client \<open>fr\<close> and the configuration, arguments of the operations.
\<close>

record wait_support =
  ws_wait :: bool
  ws_wait_aof :: bool

record command_async_inner =
  ai_retry_attempts :: "u32 option"
  ai_response_timeout :: "duration option"
  ai_track_changes :: bool
  ai_wait_support :: "wait_support option"

definition new_all_params ::
  "u32 option \<Rightarrow> duration option \<Rightarrow> bool \<Rightarrow> command_async_inner" where
  "new_all_params retries response_timeout track =
     \<lparr>ai_retry_attempts = retries, ai_response_timeout = response_timeout,
      ai_track_changes = track, ai_wait_support = None\<rparr>"

definition inner_new :: command_async_inner where
  "inner_new = new_all_params None None False"

definition call_options :: "command_async_inner \<Rightarrow> fred_options" where
  "call_options inner =
     \<lparr>max_attempts = ai_retry_attempts inner, timeout = ai_response_timeout inner,
      cluster_node = None\<rparr>"

definition is_track_changes :: "command_async_inner \<Rightarrow> bool" where
  "is_track_changes inner \<longleftrightarrow> ai_track_changes inner"

end
