(* ===== verification/Batch.thy ===== *)
theory Batch
  imports Executor Options Connection
begin

text \<open>
  \<open>src/command/command_batch_service.rs\<close>: a batch collects commands and runs them once. In
  the in-memory modes the commands wait in a queue and \<open>execute_async\<close> sends them in one
  pipeline per node; in the redis-based modes each command is sent when it is issued, inside
  a transaction that \<open>execute_async\<close> commits.

  A one-shot channel is its number; its receiver's view is an \<open>outcome\<close>, absent while the
  channel is open. What the scheduler and the hash map decide (the order in which the map
  yields its nodes, the order in which the node tasks finish, which tasks still finish after
  a failed one made the batch give up, what the pipelines answer and do, where a timeout strikes)
  is the record \<open>schedule\<close>, over which the theorems quantify.
\<close>

section \<open>State\<close>

record batch_command_data =
  bc_cmd :: command
  bc_tx :: nat
  bc_index :: nat

record batch_entry =
  be_commands :: "batch_command_data list"
  be_read_only :: bool

definition batch_entry_new :: batch_entry where
  "batch_entry_new = \<lparr>be_commands = [], be_read_only = True\<rparr>"

definition add_command :: "batch_command_data \<Rightarrow> batch_entry \<Rightarrow> batch_entry" where
  "add_command d e =
     (let e' = (if \<not> is_read_only (bc_cmd d) then e\<lparr>be_read_only := False\<rparr> else e)
      in e'\<lparr>be_commands := be_commands e' @ [d]\<rparr>)"

datatype batch_state =
    BInMemory "batch_command_data list"
  | BRedisBased "u16 option" "(nat \<times> nat) list"

datatype outcome = Resolved "err + rvalue" | Dropped

record batch_service =
  bs_inner :: command_async_inner
  bs_options :: batch_options
  bs_retry_attempts :: u32
  bs_retry_delay :: duration
  bs_executed :: bool
  bs_next_index :: nat
  bs_state :: batch_state
  bs_channels :: nat
  bs_promises :: "nat \<Rightarrow> outcome option"

text \<open>\<open>as u32\<close> of a retry count that is not negative.\<close>

definition batch_new :: "redisson_config \<Rightarrow> batch_options \<Rightarrow> batch_service" where
  "batch_new cfg opts =
     (let retries = (if 0 \<le> sint (bo_retry_attempts opts) then Some (ucast (bo_retry_attempts opts))
                     else None)
      in \<lparr>bs_inner = new_all_params retries (bo_response_timeout opts) False,
          bs_options = opts,
          bs_retry_attempts =
            (if 0 \<le> sint (bo_retry_attempts opts) then ucast (bo_retry_attempts opts)
             else cf_retry_attempts cfg),
          bs_retry_delay =
            (case bo_retry_delay opts of Some d \<Rightarrow> d | None \<Rightarrow> cf_retry_delay cfg),
          bs_executed = False, bs_next_index = 0,
          bs_state = (if is_redis_based_queue opts then BRedisBased None [] else BInMemory []),
          bs_channels = 0, bs_promises = (\<lambda>c. None)\<rparr>)"

definition batch_new_default :: "redisson_config \<Rightarrow> batch_service" where
  "batch_new_default cfg = batch_new cfg defaults"

definition get_options :: "batch_service \<Rightarrow> batch_options" where
  "get_options sv = bs_options sv"

definition batch_is_redis_based :: "batch_service \<Rightarrow> bool" where
  "batch_is_redis_based sv \<longleftrightarrow> is_redis_based_queue (bs_options sv)"

definition is_executed :: "batch_service \<Rightarrow> bool" where
  "is_executed sv \<longleftrightarrow> bs_executed sv"

text \<open>\<open>tx.send\<close> for the channels of a list, in order.\<close>

definition settle :: "(nat \<times> outcome) list \<Rightarrow> batch_service \<Rightarrow> batch_service" where
  "settle os sv = sv\<lparr>bs_promises := fold (\<lambda>(c, r) p. p(c \<mapsto> r)) os (bs_promises sv)\<rparr>"

text \<open>What a receiver that awaits its channel gets; absent: it is still waiting.\<close>

definition await_reply :: "nat \<Rightarrow> batch_service \<Rightarrow> (err + rvalue) option" where
  "await_reply c sv =
     (case bs_promises sv c of
        None \<Rightarrow> None
      | Some (Resolved r) \<Rightarrow> Some r
      | Some Dropped \<Rightarrow>
          Some (Inl (Msg ''batch channel closed (execute_async not called before drop)'')))"

section \<open>Discarding\<close>

definition already_executed :: err where
  "already_executed = Msg ''Batch already executed!''"

definition queued_channels :: "batch_state \<Rightarrow> nat list" where
  "queued_channels st =
     (case st of BInMemory ds \<Rightarrow> map bc_tx ds | BRedisBased sl es \<Rightarrow> map fst es)"

definition take_queue :: "batch_state \<Rightarrow> batch_state" where
  "take_queue st = (case st of BInMemory ds \<Rightarrow> BInMemory [] | BRedisBased sl es \<Rightarrow> BRedisBased sl [])"

definition discard_async :: "batch_service \<Rightarrow> (err + unit) \<times> batch_service" where
  "discard_async sv =
     (if bs_executed sv then (Inl already_executed, sv)
      else
        (let sv' = sv\<lparr>bs_executed := True, bs_state := take_queue (bs_state sv)\<rparr>
         in (Inr (),
             settle (map (\<lambda>c. (c, Resolved (Inl (Msg ''batch discarded''))))
               (queued_channels (bs_state sv))) sv')))"

section \<open>Issuing a command\<close>

definition is_wait_command :: "command \<Rightarrow> bool" where
  "is_wait_command c = (case c of Wait n t \<Rightarrow> True | WaitAof l n t \<Rightarrow> True | _ \<Rightarrow> False)"

text \<open>The channel and the index of a call, taken before the queue is locked.\<close>

definition reserve :: "batch_service \<Rightarrow> (nat \<times> nat) \<times> batch_service" where
  "reserve sv =
     ((bs_channels sv, bs_next_index sv),
      sv\<lparr>bs_channels := bs_channels sv + 1, bs_next_index := bs_next_index sv + 1\<rparr>)"

definition slot_of :: "'w fred \<Rightarrow> command \<Rightarrow> u16" where
  "slot_of fr c = (case routing_key c of Some k \<Rightarrow> fr_keyslot fr k | None \<Rightarrow> 0)"

definition slot_or_0 :: "u16 option \<Rightarrow> u16" where
  "slot_or_0 sl = (case sl of Some s \<Rightarrow> s | None \<Rightarrow> 0)"

text \<open>\<open>pool.replicas()\<close> or \<open>pool.next()\<close>, by the execution mode.\<close>

definition batch_client :: "'w fred \<Rightarrow> batch_options \<Rightarrow> request \<Rightarrow> ('w, rvalue) prog" where
  "batch_client fr opts =
     (if bo_execution_mode opts = RedisReadAtomic then call_replicas fr else call_next fr)"

text \<open>
  The first command of a redis-based batch opens the transaction. When that fails, the slot
  it chose stays and nothing is queued.
\<close>

definition open_transaction ::
  "'w fred \<Rightarrow> batch_options \<Rightarrow> u16 option \<Rightarrow> ('w, rvalue) prog" where
  "open_transaction fr opts slot w =
     (case batch_client fr opts (QCustom ''MULTI'' (Custom (slot_or_0 slot)) []) w of
        (Inl e, w') \<Rightarrow> (Inl (Msg (''MULTI failed: '' @ err_string e)), w')
      | (Inr v, w') \<Rightarrow> (Inr v, w'))"

definition enqueue ::
  "'w fred \<Rightarrow> command \<Rightarrow> nat \<Rightarrow> nat \<Rightarrow> batch_service \<times> 'w globals \<Rightarrow>
   (err + nat) \<times> batch_service \<times> 'w globals" where
  "enqueue fr cmd tx idx = (\<lambda>(sv, s).
     (case bs_state sv of
        BInMemory ds \<Rightarrow>
          (Inr tx,
           sv\<lparr>bs_state := BInMemory (ds @ [\<lparr>bc_cmd = cmd, bc_tx = tx, bc_index = idx\<rparr>])\<rparr>, s)
      | BRedisBased slot es \<Rightarrow>
          if is_wait_command cmd then
            (Inr tx,
             settle [(tx, Resolved (Inl (Msg
               ''WAIT/WAITAOF is not supported in REDIS_*_ATOMIC mode'')))] sv, s)
          else
            (let slot' =
               (if es = [] then
                  (case routing_key cmd of Some k \<Rightarrow> Some (fr_keyslot fr k) | None \<Rightarrow> slot)
                else slot);
               sv1 = sv\<lparr>bs_state := BRedisBased slot' es\<rparr>
             in (case (if es = [] then on_remote (open_transaction fr (bs_options sv) slot') s
                       else (Inr Null, s)) of
                   (Inl e, s1) \<Rightarrow> (Inl e, settle [(tx, Dropped)] sv1, s1)
                 | (Inr v, s1) \<Rightarrow>
                     (case on_remote (execute_on (batch_client fr (bs_options sv)) cmd) s1 of
                        (Inl e, s2) \<Rightarrow> (Inl e, settle [(tx, Dropped)] sv1, s2)
                      | (Inr v, s2) \<Rightarrow>
                          (Inr tx, sv1\<lparr>bs_state := BRedisBased slot' (es @ [(tx, idx)])\<rparr>, s2))))))"

definition async0_batch ::
  "'w fred \<Rightarrow> command \<Rightarrow> batch_service \<times> 'w globals \<Rightarrow>
   (err + nat) \<times> batch_service \<times> 'w globals" where
  "async0_batch fr cmd = (\<lambda>(sv, s).
     (case reserve sv of ((tx, idx), sv1) \<Rightarrow> enqueue fr cmd tx idx (sv1, s)))"

section \<open>Nodes\<close>

type_synonym node_map = "(master_slave_entry \<times> batch_entry) list"

text \<open>One attempt and \<open>n\<close> more, with a pause before each of them.\<close>

fun resolve_attempts ::
  "'w fred \<Rightarrow> duration \<Rightarrow> u16 \<Rightarrow> nat \<Rightarrow> 'w \<Rightarrow> master_slave_entry option \<times> 'w" where
  "resolve_attempts fr d sl 0 w = (get_write_entry fr w sl, w)"
| "resolve_attempts fr d sl (Suc n) w =
     (case get_write_entry fr w sl of
        Some e \<Rightarrow> (Some e, w)
      | None \<Rightarrow> resolve_attempts fr d sl n (fr_sleep fr d w))"

definition resolve_entry ::
  "'w fred \<Rightarrow> u32 \<Rightarrow> duration \<Rightarrow> u16 \<Rightarrow> ('w, master_slave_entry) prog" where
  "resolve_entry fr retries d sl w =
     (case resolve_attempts fr d sl (unat retries) w of
        (Some e, w') \<Rightarrow> (Inr e, w')
      | (None, w') \<Rightarrow>
          (Inl (Msg (''no server found for slot '' @ show_nat (unat sl) @ '' after ''
                @ show_nat (unat (retries + 1)) @ '' attempts'')), w'))"

text \<open>\<open>node_map.entry(mse).or_insert_with(Entry::new).add_command(data)\<close>\<close>

fun node_insert ::
  "master_slave_entry \<Rightarrow> batch_command_data \<Rightarrow> node_map \<Rightarrow> node_map" where
  "node_insert n d [] = [(n, add_command d batch_entry_new)]"
| "node_insert n d ((m, e) # nm) =
     (if mse_eq m n then (m, add_command d e) # nm else (m, e) # node_insert n d nm)"

fun group_by_node ::
  "'w fred \<Rightarrow> u32 \<Rightarrow> duration \<Rightarrow> batch_command_data list \<Rightarrow> node_map \<Rightarrow>
   ('w, node_map) prog" where
  "group_by_node fr retries d [] nm = pret nm"
| "group_by_node fr retries d (c # cs) nm =
     pbind (resolve_entry fr retries d (slot_of fr (bc_cmd c)))
       (\<lambda>n. group_by_node fr retries d cs (node_insert n c nm))"

section \<open>Scripts\<close>

fun scripts_to_load ::
  "'w fred \<Rightarrow> server \<Rightarrow> batch_command_data list \<Rightarrow> string list \<Rightarrow> 'w globals \<Rightarrow>
   string list \<times> 'w globals" where
  "scripts_to_load fr srv [] acc s = (acc, s)"
| "scripts_to_load fr srv (d # ds) acc s =
     (case bc_cmd d of
        Eval script ks vs \<Rightarrow>
          (case is_cached fr srv script s of
             (b, t) \<Rightarrow>
               scripts_to_load fr srv ds
                 (if \<not> b \<and> script \<notin> set acc then acc @ [script] else acc) t)
      | _ \<Rightarrow> scripts_to_load fr srv ds acc s)"

fun load_each :: "'w fred \<Rightarrow> nat \<Rightarrow> u16 \<Rightarrow> string list \<Rightarrow> ('w, unit) prog" where
  "load_each fr i slot [] = pret ()"
| "load_each fr i slot (x # xs) =
     (\<lambda>w. case fr_client fr i (QCustom ''SCRIPT'' (Custom slot) [Str ''LOAD'', Str x]) w of
        (Inl e, w') \<Rightarrow> (Inl (Msg (''SCRIPT LOAD failed: '' @ err_string e)), w')
      | (Inr v, w') \<Rightarrow> load_each fr i slot xs w')"

fun use_digests ::
  "'w fred \<Rightarrow> batch_command_data list \<Rightarrow> 'w globals \<Rightarrow> batch_command_data list \<times> 'w globals" where
  "use_digests fr [] s = ([], s)"
| "use_digests fr (d # ds) s =
     (case bc_cmd d of
        Eval script ks vs \<Rightarrow>
          (case calc_sha fr script s of
             (sha, t) \<Rightarrow>
               (case use_digests fr ds t of
                  (ds', u) \<Rightarrow> (d\<lparr>bc_cmd := EvalSha sha ks vs\<rparr> # ds', u)))
      | _ \<Rightarrow> (case use_digests fr ds s of (ds', u) \<Rightarrow> (d # ds', u)))"

text \<open>The body of the loop over the nodes.\<close>

definition load_node ::
  "'w fred \<Rightarrow> master_slave_entry \<Rightarrow> batch_entry \<Rightarrow> ('w globals, batch_entry) prog" where
  "load_node fr n e s =
     (case scripts_to_load fr (get_client n) (be_commands e) [] s of
        (todo, s1) \<Rightarrow>
          (case (if todo = [] then (Inr (), s1)
                 else on_remote (pbind (pick (fr_pick fr))
                        (\<lambda>i. load_each fr i (slot_or_0 (mse_slot n)) todo)) s1) of
             (Inl er, s2) \<Rightarrow> (Inl er, s2)
           | (Inr u, s2) \<Rightarrow>
               (case use_digests fr (be_commands e)
                       (if todo = [] then s2 else cache_scripts fr (get_client n) todo s2) of
                  (ds, s3) \<Rightarrow> (Inr (e\<lparr>be_commands := ds\<rparr>), s3))))"

fun load_nodes :: "'w fred \<Rightarrow> node_map \<Rightarrow> ('w globals, node_map) prog" where
  "load_nodes fr [] = pret []"
| "load_nodes fr ((n, e) # nm) =
     pbind (load_node fr n e) (\<lambda>e'. pbind (load_nodes fr nm) (\<lambda>nm'. pret ((n, e') # nm')))"

definition load_scripts ::
  "'w fred \<Rightarrow> redisson_config \<Rightarrow> node_map \<Rightarrow> ('w globals, node_map) prog" where
  "load_scripts fr cfg nm =
     (if \<not> cf_use_script_cache cfg then pret nm else load_nodes fr nm)"

section \<open>The task of a node\<close>

text \<open>A pipeline: its buffer is the state, a refused request the error.\<close>

definition push :: "'w fred \<Rightarrow> request \<Rightarrow> (request list, rvalue) prog" where
  "push fr q buf = (case fr_push fr q of Some e \<Rightarrow> (Inl e, buf) | None \<Rightarrow> (Inr Queued, buf @ [q]))"

fun push_commands :: "'w fred \<Rightarrow> command list \<Rightarrow> (request list, unit) prog" where
  "push_commands fr [] = pret ()"
| "push_commands fr (c # cs) = pbind (execute_on (push fr) c) (\<lambda>v. push_commands fr cs)"

definition make_wait_cmd :: "u16 \<Rightarrow> bool \<Rightarrow> i64 \<Rightarrow> i64 \<Rightarrow> i64 \<Rightarrow> request" where
  "make_wait_cmd slot aof locals slaves timeout_ms =
     (if aof then QCustom ''WAITAOF'' (Custom slot) [Integer locals, Integer slaves, Integer timeout_ms]
      else QCustom ''WAIT'' (Custom slot) [Integer slaves, Integer timeout_ms])"

definition wait_request :: "batch_options \<Rightarrow> u16 \<Rightarrow> request" where
  "wait_request opts slot =
     make_wait_cmd slot (bo_sync_aof opts) (bo_sync_locals opts) (bo_sync_slaves opts)
       (of_nat (as_millis (bo_sync_timeout opts)))"

definition syncs :: "batch_options \<Rightarrow> bool" where
  "syncs opts \<longleftrightarrow> 0 < sint (bo_sync_slaves opts)"

definition build_pipeline ::
  "'w fred \<Rightarrow> batch_options \<Rightarrow> bool \<Rightarrow> u16 \<Rightarrow> command list \<Rightarrow> (request list, unit) prog" where
  "build_pipeline fr opts atomic slot cs =
     pbind (if atomic then push fr (QCustom ''MULTI'' (Custom slot) []) else pret Null) (\<lambda>v.
     pbind (push_commands fr cs) (\<lambda>u.
     pbind (if atomic then push fr (QCustom ''EXEC'' (Custom slot) []) else pret Null) (\<lambda>v.
     pbind (if syncs opts then push fr (wait_request opts slot) else pret Null) (\<lambda>v. pret ()))))"

definition extract_synced_slaves :: "(err + rvalue) option \<Rightarrow> i64" where
  "extract_synced_slaves r =
     (case r of
        Some (Inr (Integer n)) \<Rightarrow> n
      | Some (Inr (Array (a # Integer n # vs))) \<Rightarrow> n
      | _ \<Rightarrow> 0)"

text \<open>\<open>Vec::pop\<close>\<close>

definition pop :: "'a list \<Rightarrow> 'a option \<times> 'a list" where
  "pop xs = (if xs = [] then (None, []) else (Some (last xs), butlast xs))"

text \<open>Senders paired with values; the senders left over are dropped.\<close>

fun send_all :: "nat list \<Rightarrow> (err + rvalue) list \<Rightarrow> (nat \<times> outcome) list" where
  "send_all [] rs = []"
| "send_all (c # cs) [] = (c, Dropped) # send_all cs []"
| "send_all (c # cs) (r # rs) = (c, Resolved r) # send_all cs rs"

definition send_same :: "nat list \<Rightarrow> (err + rvalue) \<Rightarrow> (nat \<times> outcome) list" where
  "send_same cs r = map (\<lambda>c. (c, Resolved r)) cs"

definition drop_all :: "nat list \<Rightarrow> (nat \<times> outcome) list" where
  "drop_all cs = map (\<lambda>c. (c, Dropped)) cs"

definition exec_nil :: err where
  "exec_nil = Msg ''EXEC returned nil: transaction aborted by WATCH''"

definition distribute_exec_results ::
  "'w fred \<Rightarrow> (err + rvalue) option \<Rightarrow> nat list \<Rightarrow> (nat \<times> outcome) list \<times> (err + unit)" where
  "distribute_exec_results fr r cs =
     (case r of
        None \<Rightarrow> (drop_all cs, Inl (Msg ''empty pipeline result, EXEC response missing''))
      | Some (Inr (Array vs)) \<Rightarrow> (send_all cs (map Inr vs), Inr ())
      | Some (Inr Null) \<Rightarrow> (send_same cs (Inl exec_nil), Inr ())
      | Some (Inr v) \<Rightarrow>
          (drop_all cs, Inl (Msg (''unexpected EXEC response format: '' @ fr_debug fr v)))
      | Some (Inl e) \<Rightarrow> (send_same cs (Inl (Msg (err_string e))), Inr ()))"

definition collect_exec_indexed ::
  "(err + rvalue) option \<Rightarrow> nat list \<Rightarrow> (nat \<times> rvalue) list" where
  "collect_exec_indexed r idxs =
     (case r of Some (Inr (Array vs)) \<Rightarrow> zip idxs vs | _ \<Rightarrow> [])"

text \<open>\<open>result.unwrap_or(Value::Null)\<close>\<close>

definition value_or_null :: "err + rvalue \<Rightarrow> rvalue" where
  "value_or_null r = (case r of Inr v \<Rightarrow> v | Inl e \<Rightarrow> Null)"

text \<open>What a node's task sends to its channels, and what it returns.\<close>

type_synonym task_output = "(nat \<times> outcome) list \<times> (err + (i64 \<times> (nat \<times> rvalue) list))"

definition handle_replies ::
  "'w fred \<Rightarrow> batch_options \<Rightarrow> bool \<Rightarrow> batch_command_data list \<Rightarrow> (err + rvalue) list \<Rightarrow>
   task_output" where
  "handle_replies fr opts atomic ds replies =
     (let cs = map bc_tx ds; idxs = map bc_index ds;
          (wait_reply, results) = (if syncs opts then pop replies else (None, replies));
          synced = (if syncs opts then extract_synced_slaves wait_reply else 0)
      in if bo_skip_result opts then (send_same cs (Inr Null), Inr (synced, []))
         else if atomic then
           (let (exec_reply, rest) = pop results;
                (sent, r) = distribute_exec_results fr exec_reply cs
            in case r of
                 Inl e \<Rightarrow> (sent, Inl e)
               | Inr u \<Rightarrow> (sent, Inr (synced, collect_exec_indexed exec_reply idxs)))
         else
           (let vs = map value_or_null results
            in (send_all cs (map Inr vs), Inr (synced, zip idxs vs))))"

definition use_replica :: "redisson_config \<Rightarrow> bool \<Rightarrow> batch_entry \<Rightarrow> bool" where
  "use_replica cfg atomic e \<longleftrightarrow> \<not> atomic \<and> be_read_only e \<and> cf_read_mode cfg \<noteq> Master"

definition node_task ::
  "'w fred \<Rightarrow> redisson_config \<Rightarrow> batch_options \<Rightarrow> bool \<Rightarrow>
   (master_slave_entry \<Rightarrow> bool \<Rightarrow> request list \<Rightarrow> (err + rvalue) list) \<Rightarrow>
   master_slave_entry \<times> batch_entry \<Rightarrow> task_output" where
  "node_task fr cfg opts atomic replies = (\<lambda>(n, e).
     (case build_pipeline fr opts atomic (slot_or_0 (mse_slot n)) (map bc_cmd (be_commands e)) [] of
        (Inl er, buf) \<Rightarrow> (drop_all (map bc_tx (be_commands e)), Inl er)
      | (Inr u, buf) \<Rightarrow>
          handle_replies fr opts atomic (be_commands e) (replies n (use_replica cfg atomic e) buf)))"

end
