(* ===== verification/BatchRun.thy ===== *)
theory BatchRun
  imports Batch
begin

text \<open>
  The execution of a batch, \<open>execute_async\<close> of \<open>src/command/command_batch_service.rs\<close>: the
  in-memory path with its grouping by node, script loading, one task per node and the join
  of the tasks, and the redis-based path that commits the transaction under a timeout.
\<close>

section \<open>The scheduler\<close>

datatype cut = Finishes | CutLock | CutExec | CutWait

record 'w schedule =
  sc_shuffle :: "node_map \<Rightarrow> node_map"
  sc_order :: "(master_slave_entry \<times> task_output) list \<Rightarrow> (master_slave_entry \<times> task_output) list"
  sc_finished :: "master_slave_entry \<Rightarrow> bool"
  sc_replies ::
    "'w \<Rightarrow> master_slave_entry \<Rightarrow> bool \<Rightarrow> request list \<Rightarrow> (err + rvalue) list"
  sc_effect :: "'w \<Rightarrow> 'w"
  sc_cut :: cut

text \<open>
  What a pipeline answers may depend on the remote state in which the tasks start;
  \<open>sc_effect\<close> is what all of them together do to that state. A hash map yields each of its
  entries once, every task ends once, and a pipeline answers every request it was given.
\<close>

definition sched_ok :: "'w schedule \<Rightarrow> bool" where
  "sched_ok sch \<longleftrightarrow>
     (\<forall>nm. mset (sc_shuffle sch nm) = mset nm) \<and>
     (\<forall>ts. mset (sc_order sch ts) = mset ts) \<and>
     (\<forall>w n b qs. length (sc_replies sch w n b qs) = length qs)"

section \<open>In-memory batches\<close>

text \<open>
  Waiting for the tasks in the order in which they end. The first failed one makes the batch
  give up: the other tasks are aborted, unless they had finished already.
\<close>

fun join_tasks ::
  "(master_slave_entry \<Rightarrow> bool) \<Rightarrow> (master_slave_entry \<times> task_output) list \<Rightarrow> i64 \<Rightarrow>
   (nat \<times> rvalue) list \<Rightarrow> task_output" where
  "join_tasks fin [] n acc = ([], Inr (n, acc))"
| "join_tasks fin ((m, sent, r) # ts) n acc =
     (case r of
        Inl e \<Rightarrow>
          (sent @ concat (map (\<lambda>(m', sent', r').
             if fin m' then sent' else drop_all (map fst sent')) ts), Inl e)
      | Inr (k, idx) \<Rightarrow>
          (case join_tasks fin ts (n + k) (acc @ idx) of (sent', r') \<Rightarrow> (sent @ sent', r')))"

definition run_tasks ::
  "'w fred \<Rightarrow> redisson_config \<Rightarrow> batch_options \<Rightarrow> 'w schedule \<Rightarrow> bool \<Rightarrow> 'w \<Rightarrow> node_map \<Rightarrow>
   task_output" where
  "run_tasks fr cfg opts sch atomic w nm =
     join_tasks (sc_finished sch)
       (sc_order sch
         (map (\<lambda>ne. (fst ne, node_task fr cfg opts atomic (sc_replies sch w) ne)) nm)) 0 []"

definition execute_in_memory ::
  "'w fred \<Rightarrow> redisson_config \<Rightarrow> 'w schedule \<Rightarrow> bool \<Rightarrow> batch_service \<times> 'w globals \<Rightarrow>
   (err + batch_result) \<times> batch_service \<times> 'w globals" where
  "execute_in_memory fr cfg sch atomic = (\<lambda>(sv, s).
     (case bs_state sv of
        BRedisBased sl es \<Rightarrow> (Inl (Msg ''unexpected batch state in execute_in_memory''), sv, s)
      | BInMemory ds \<Rightarrow>
          if ds = [] then (Inr (batch_result_new [] 0), sv, s)
          else
            (let sv1 = sv\<lparr>bs_state := BInMemory []\<rparr>;
                 lost = settle (drop_all (map bc_tx ds)) sv1
             in (case on_remote (group_by_node fr (bs_retry_attempts sv) (bs_retry_delay sv) ds []) s of
                   (Inl e, s1) \<Rightarrow> (Inl e, lost, s1)
                 | (Inr nm, s1) \<Rightarrow>
                     (case load_scripts fr cfg (sc_shuffle sch nm) s1 of
                        (Inl e, s2) \<Rightarrow> (Inl e, lost, s2)
                      | (Inr nm', s2) \<Rightarrow>
                          (let s3 = s2\<lparr>remote := sc_effect sch (remote s2)\<rparr>
                           in (case run_tasks fr cfg (bs_options sv) sch atomic (remote s2) nm' of
                                 (sent, Inl e) \<Rightarrow> (Inl e, settle sent sv1, s3)
                               | (sent, Inr (n, idx)) \<Rightarrow>
                                   (Inr (batch_result_new (map snd (sort_key fst idx)) n),
                                    settle sent sv1, s3))))))))"

section \<open>Redis-based batches\<close>

definition wait_redis_based ::
  "'w fred \<Rightarrow> batch_options \<Rightarrow> u16 \<Rightarrow> 'w \<Rightarrow> i64 \<times> 'w" where
  "wait_redis_based fr opts slot w =
     (if syncs opts then
        (case batch_client fr opts (wait_request opts slot) w of
           (r, w') \<Rightarrow> (extract_synced_slaves (Some r), w'))
      else (0, w))"

text \<open>The replies of \<open>EXEC\<close>: what the channels get, and the indexed values or an error.\<close>

definition exec_replies ::
  "'w fred \<Rightarrow> batch_options \<Rightarrow> (err + rvalue) \<Rightarrow> (nat \<times> nat) list \<Rightarrow>
   (nat \<times> outcome) list \<times> (err + (nat \<times> rvalue) list)" where
  "exec_replies fr opts r es =
     (let cs = map fst es
      in if bo_skip_result opts then (send_same cs (Inr Null), Inr [])
         else
           (case r of
              Inr (Array vs) \<Rightarrow> (send_all cs (map Inr vs), Inr (zip (map snd es) vs))
            | Inr Null \<Rightarrow> (send_same cs (Inl exec_nil), Inr [])
            | Inr v \<Rightarrow> (drop_all cs, Inl (Msg (''unexpected EXEC response: '' @ fr_debug fr v)))
            | Inl e \<Rightarrow> (send_same cs (Inl (Msg (err_string e))), Inr [])))"

definition execute_redis_based_queue_inner ::
  "'w fred \<Rightarrow> batch_service \<times> 'w globals \<Rightarrow>
   (err + batch_result) \<times> batch_service \<times> 'w globals" where
  "execute_redis_based_queue_inner fr = (\<lambda>(sv, s).
     (case bs_state sv of
        BInMemory ds \<Rightarrow>
          (Inl (Msg ''unexpected batch state in execute_redis_based_queue''), sv, s)
      | BRedisBased sl es \<Rightarrow>
          if es = [] then (Inr (batch_result_new [] 0), sv, s)
          else
            (let sv1 = sv\<lparr>bs_state := BRedisBased sl []\<rparr>; opts = bs_options sv;
                 slot = slot_or_0 sl
             in (case batch_client fr opts (QCustom ''EXEC'' (Custom slot) []) (remote s) of
                   (r, w1) \<Rightarrow>
                     (case wait_redis_based fr opts slot w1 of
                        (n, w2) \<Rightarrow>
                          (case exec_replies fr opts r es of
                             (sent, Inl e) \<Rightarrow> (Inl e, settle sent sv1, s\<lparr>remote := w2\<rparr>)
                           | (sent, Inr idx) \<Rightarrow>
                               (Inr (batch_result_new (map snd (sort_key fst idx)) n),
                                settle sent sv1, s\<lparr>remote := w2\<rparr>)))))))"

text \<open>
  The timeout around it. Where it strikes decides what was already done: nothing, the
  queue taken and \<open>EXEC\<close> on its way, or the wait for the replicas on its way. Before
  the queue is taken it survives, later it is dropped with its senders.
\<close>

definition cut_redis_based ::
  "'w fred \<Rightarrow> cut \<Rightarrow> batch_service \<times> 'w globals \<Rightarrow> batch_service \<times> 'w globals" where
  "cut_redis_based fr k = (\<lambda>(sv, s).
     (case bs_state sv of
        BInMemory ds \<Rightarrow> (sv, s)
      | BRedisBased sl es \<Rightarrow>
          if k = CutLock then (sv, s)
          else
            (let sv1 = settle (drop_all (map fst es)) (sv\<lparr>bs_state := BRedisBased sl []\<rparr>);
                 opts = bs_options sv; slot = slot_or_0 sl;
                 w1 = snd (batch_client fr opts (QCustom ''EXEC'' (Custom slot) []) (remote s))
             in if k = CutExec then (sv1, s\<lparr>remote := w1\<rparr>)
                else (sv1, s\<lparr>remote := snd (wait_redis_based fr opts slot w1)\<rparr>))))"

text \<open>A timeout can only strike where the execution waits for something.\<close>

definition cut_applies :: "cut \<Rightarrow> batch_service \<Rightarrow> bool" where
  "cut_applies k sv \<longleftrightarrow>
     (case k of
        Finishes \<Rightarrow> False
      | CutLock \<Rightarrow> True
      | CutExec \<Rightarrow> queued_channels (bs_state sv) \<noteq> []
      | CutWait \<Rightarrow> queued_channels (bs_state sv) \<noteq> [] \<and> syncs (bs_options sv))"

definition execute_redis_based_queue ::
  "'w fred \<Rightarrow> redisson_config \<Rightarrow> cut \<Rightarrow> batch_service \<times> 'w globals \<Rightarrow>
   (err + batch_result) \<times> batch_service \<times> 'w globals" where
  "execute_redis_based_queue fr cfg k = (\<lambda>(sv, s).
     (if \<not> cut_applies k sv then execute_redis_based_queue_inner fr (sv, s)
      else
        (let t = (case bo_response_timeout (bs_options sv) of
                    Some t \<Rightarrow> t | None \<Rightarrow> cf_command_timeout cfg)
         in (Inl (Msg (''Batch execution timed out after '' @ show_duration t)),
             cut_redis_based fr k (sv, s)))))"

section \<open>Execution\<close>

definition execute_async ::
  "'w fred \<Rightarrow> redisson_config \<Rightarrow> 'w schedule \<Rightarrow> batch_service \<times> 'w globals \<Rightarrow>
   (err + batch_result) \<times> batch_service \<times> 'w globals" where
  "execute_async fr cfg sch = (\<lambda>(sv, s).
     (if bs_executed sv then (Inl already_executed, sv, s)
      else
        (let sv1 = sv\<lparr>bs_executed := True\<rparr>
         in (case bo_execution_mode (bs_options sv) of
               RedisReadAtomic \<Rightarrow> execute_redis_based_queue fr cfg (sc_cut sch) (sv1, s)
             | RedisWriteAtomic \<Rightarrow> execute_redis_based_queue fr cfg (sc_cut sch) (sv1, s)
             | InMemoryAtomic \<Rightarrow> execute_in_memory fr cfg sch True (sv1, s)
             | InMemory \<Rightarrow> execute_in_memory fr cfg sch False (sv1, s)))))"

definition execute_async_void ::
  "'w fred \<Rightarrow> redisson_config \<Rightarrow> 'w schedule \<Rightarrow> batch_service \<times> 'w globals \<Rightarrow>
   (err + unit) \<times> batch_service \<times> 'w globals" where
  "execute_async_void fr cfg sch t =
     (case execute_async fr cfg sch t of
        (Inl e, t') \<Rightarrow> (Inl e, t')
      | (Inr r, t') \<Rightarrow> (Inr (), t'))"

end
