(* ===== verification/BatchSpec.thy ===== *)
theory BatchSpec
  imports BatchRun
begin

text \<open>
  What a batch promises: every queued command gets its answer exactly once, the responses
  are the answers in the order of the indexes whatever the scheduler does, and a batch runs
  at most once. The locale-free part here is the bookkeeping of channels through grouping,
  script loading, tasks and join; the step relation of a batch and its invariant follow.
\<close>

section \<open>Channels and indexes of a queue\<close>

definition pairs :: "batch_command_data list \<Rightarrow> (nat \<times> nat) list" where
  "pairs ds = map (\<lambda>d. (bc_tx d, bc_index d)) ds"

definition node_pairs :: "node_map \<Rightarrow> (nat \<times> nat) list" where
  "node_pairs nm = concat (map (\<lambda>(n, e). pairs (be_commands e)) nm)"

definition queue_pairs :: "batch_state \<Rightarrow> (nat \<times> nat) list" where
  "queue_pairs st = (case st of BInMemory ds \<Rightarrow> pairs ds | BRedisBased sl es \<Rightarrow> es)"

lemma pairs_simps [simp]:
  "pairs [] = []" "pairs (d # ds) = (bc_tx d, bc_index d) # pairs ds"
  "pairs (ds @ es) = pairs ds @ pairs es"
  by (simp_all add: pairs_def)

lemma pairs_proj [simp]: "map fst (pairs ds) = map bc_tx ds" "map snd (pairs ds) = map bc_index ds"
  by (simp_all add: pairs_def)

lemma node_pairs_simps [simp]:
  "node_pairs [] = []" "node_pairs ((n, e) # nm) = pairs (be_commands e) @ node_pairs nm"
  by (simp_all add: node_pairs_def)

lemma queued_channels_pairs: "queued_channels st = map fst (queue_pairs st)"
  by (cases st) (simp_all add: queued_channels_def queue_pairs_def)

lemma add_command_commands [simp]: "be_commands (add_command d e) = be_commands e @ [d]"
  by (simp add: add_command_def Let_def)

lemma add_command_read_only [simp]:
  "be_read_only (add_command d e) \<longleftrightarrow> be_read_only e \<and> is_read_only (bc_cmd d)"
  by (simp add: add_command_def Let_def)

lemma entry_new_simps [simp]:
  "be_commands batch_entry_new = []" "be_read_only batch_entry_new"
  by (simp_all add: batch_entry_new_def)

lemma node_insert_pairs:
  "mset (node_pairs (node_insert n d nm)) = add_mset (bc_tx d, bc_index d) (mset (node_pairs nm))"
  by (induction n d nm rule: node_insert.induct) (auto simp: ac_simps)

lemma group_pairs:
  "group_by_node fr retries dl ds nm w = (Inr nm', w') \<Longrightarrow>
   mset (node_pairs nm') = mset (node_pairs nm) + mset (pairs ds)"
proof (induction ds arbitrary: nm w)
  case (Cons d ds)
  then show ?case
    by (auto elim!: pbind_InrE dest!: Cons.IH simp: node_insert_pairs)
qed simp

lemma use_digests_pairs: "use_digests fr ds s = (ds', t) \<Longrightarrow> pairs ds' = pairs ds"
  by (induction ds arbitrary: s ds' t) (auto split: command.splits prod.splits)

lemma load_node_pairs:
  "load_node fr n e s = (Inr e', t) \<Longrightarrow>
   pairs (be_commands e') = pairs (be_commands e) \<and> be_read_only e' = be_read_only e"
  by (auto simp: load_node_def dest: use_digests_pairs split: prod.splits sum.splits if_splits)

lemma load_nodes_pairs:
  "load_nodes fr nm s = (Inr nm', t) \<Longrightarrow> node_pairs nm' = node_pairs nm"
  by (induction nm arbitrary: s nm' t)
    (auto elim!: pbind_InrE dest!: load_node_pairs)

lemma load_scripts_pairs:
  "load_scripts fr cfg nm s = (Inr nm', t) \<Longrightarrow> node_pairs nm' = node_pairs nm"
  by (auto simp: load_scripts_def dest: load_nodes_pairs split: if_splits)

lemma node_pairs_shuffle:
  "mset nm' = mset nm \<Longrightarrow> mset (node_pairs nm') = mset (node_pairs nm)"
  by (simp add: node_pairs_def mset_concat sum_mset_sum_list [symmetric])

section \<open>Outcomes of a task\<close>

text \<open>The value a channel was given, if it was given one.\<close>

fun outcome_value :: "outcome \<Rightarrow> rvalue option" where
  "outcome_value (Resolved (Inr v)) = Some v"
| "outcome_value (Resolved (Inl e)) = None"
| "outcome_value Dropped = None"

text \<open>
  The messages sent and the indexed values of a task come from one list: each channel gets
  exactly one outcome, and each outcome with a value is returned under the command's index.
\<close>

definition agrees ::
  "(nat \<times> nat) list \<Rightarrow> (nat \<times> outcome) list \<Rightarrow> (nat \<times> rvalue) list \<Rightarrow> bool" where
  "agrees ps sent idx \<longleftrightarrow>
     (\<exists>L. map fst L = ps \<and> sent = map (\<lambda>((c, i), r). (c, r)) L \<and>
        idx = List.map_filter (\<lambda>((c, i), r). map_option (Pair i) (outcome_value r)) L)"

lemma map_filter_append [simp]:
  "List.map_filter f (xs @ ys) = List.map_filter f xs @ List.map_filter f ys"
  by (induction xs) (auto simp: List.map_filter_simps split: option.split)

lemma agrees_append:
  "agrees ps sent idx \<Longrightarrow> agrees ps' sent' idx' \<Longrightarrow> agrees (ps @ ps') (sent @ sent') (idx @ idx')"
  unfolding agrees_def by (metis map_append map_filter_append)

lemma agrees_Nil [simp]: "agrees [] [] []"
  by (simp add: agrees_def List.map_filter_simps)

lemma agrees_send_all: "agrees ps (send_all (map fst ps) (map Inr vs)) (zip (map snd ps) vs)"
proof (induction ps arbitrary: vs)
  case (Cons p ps)
  obtain c i where p: "p = (c, i)" by (cases p)
  show ?case
  proof (cases vs)
    case Nil
    have "agrees [p] [(c, Dropped)] []"
      by (auto simp: agrees_def p List.map_filter_simps intro!: exI [of _ "[((c, i), Dropped)]"])
    from agrees_append [OF this Cons.IH [of "[]"]] Nil p show ?thesis by simp
  next
    case (Cons v us)
    have "agrees [p] [(c, Resolved (Inr v))] [(i, v)]"
      by (auto simp: agrees_def p List.map_filter_simps
          intro!: exI [of _ "[((c, i), Resolved (Inr v))]"])
    from agrees_append [OF this Cons.IH [of us]] Cons p show ?thesis by simp
  qed
qed simp

lemma agrees_no_value:
  "outcome_value r = None \<Longrightarrow> agrees ps (map (\<lambda>c. (c, r)) (map fst ps)) []"
proof (induction ps)
  case (Cons p ps)
  obtain c i where p: "p = (c, i)" by (cases p)
  have "agrees [p] [(c, r)] []"
    using Cons.prems by (auto simp: agrees_def p List.map_filter_simps
        intro!: exI [of _ "[((c, i), r)]"])
  from agrees_append [OF this Cons.IH [OF Cons.prems]] p show ?case by simp
qed simp

lemma agrees_send_same:
  "cs = map fst ps \<Longrightarrow> agrees ps (send_same cs (Inl e)) []"
  using agrees_no_value [of "Resolved (Inl e)" ps] by (simp add: send_same_def)

lemma agrees_fst: "agrees ps sent idx \<Longrightarrow> map fst sent = map fst ps"
  unfolding agrees_def by (auto simp: case_prod_unfold)

section \<open>Channels of tasks and of the join\<close>

lemma send_all_channels [simp]: "map fst (send_all cs rs) = cs"
  by (induction cs rs rule: send_all.induct) simp_all

lemma send_same_channels [simp]: "map fst (send_same cs r) = cs"
  by (simp add: send_same_def comp_def)

lemma drop_all_channels [simp]: "map fst (drop_all cs) = cs"
  by (simp add: drop_all_def comp_def)

lemma distribute_channels [simp]: "map fst (fst (distribute_exec_results fr r cs)) = cs"
  by (simp add: distribute_exec_results_def split: option.split sum.split rvalue.split)

lemma distribute_sent: "distribute_exec_results fr r cs = (sent, x) \<Longrightarrow> map fst sent = cs"
  by (metis distribute_channels fst_conv)

lemma handle_replies_channels [simp]:
  "map fst (fst (handle_replies fr opts atomic ds rs)) = map fst (pairs ds)"
  by (auto simp: handle_replies_def Let_def dest: distribute_sent split: prod.split sum.split)

lemma node_task_channels [simp]:
  "map fst (fst (node_task fr cfg opts atomic replies (n, e))) = map fst (pairs (be_commands e))"
  by (simp add: node_task_def split: prod.split sum.split)

lemma join_channels:
  "map fst (fst (join_tasks fin ts n acc)) = concat (map (\<lambda>(m, sent, r). map fst sent) ts)"
proof (induction fin ts n acc rule: join_tasks.induct)
  case (2 fin m sent r ts n acc)
  show ?case
  proof (cases r)
    case (Inl e)
    have "map fst (concat (map (\<lambda>(m', sent', r'). if fin m' then sent' else drop_all (map fst sent')) ts))
      = concat (map (\<lambda>(m, sent, r). map fst sent) ts)"
      by (induction ts) auto
    with Inl show ?thesis by simp
  next
    case (Inr p)
    with 2 show ?thesis by (cases p) (simp add: case_prod_unfold)
  qed
qed simp

section \<open>Agreement of tasks and of the join\<close>

lemma handle_replies_agrees:
  assumes "\<not> bo_skip_result opts"
    and "handle_replies fr opts atomic ds rs = (sent, Inr (k, idx))"
  shows "agrees (pairs ds) sent idx"
proof (cases atomic)
  case False
  have "agrees (pairs ds) (send_all (map bc_tx ds) (map Inr vs)) (zip (map bc_index ds) vs)" for vs
    using agrees_send_all [of "pairs ds" vs] by simp
  with False assms show ?thesis
    by (auto simp: handle_replies_def Let_def simp del: map_map split: prod.splits)
next
  case True
  have a: "agrees (pairs ds) (send_all (map bc_tx ds) (map Inr vs)) (zip (map bc_index ds) vs)"
    "agrees (pairs ds) (send_same (map bc_tx ds) (Inl e)) []" for vs e
    using agrees_send_all [of "pairs ds" vs] agrees_send_same [of _ "pairs ds" e] by simp_all
  from True assms show ?thesis
    by (auto simp: handle_replies_def Let_def distribute_exec_results_def collect_exec_indexed_def a
        split: prod.splits sum.splits option.splits rvalue.splits)
qed

lemma node_task_agrees:
  "\<not> bo_skip_result opts \<Longrightarrow>
   node_task fr cfg opts atomic replies (n, e) = (sent, Inr (k, idx)) \<Longrightarrow>
   agrees (pairs (be_commands e)) sent idx"
  by (auto simp: node_task_def dest: handle_replies_agrees split: prod.splits sum.splits)

lemma join_agrees:
  assumes "join_tasks fin ts n acc = (sent, Inr (k, idx))"
    and "\<And>m s k' i. (m, s, Inr (k', i)) \<in> set ts \<Longrightarrow> agrees (ps m s) s i"
  shows "\<exists>idx'. idx = acc @ idx' \<and> agrees (concat (map (\<lambda>(m, s, r). ps m s) ts)) sent idx'"
  using assms
proof (induction fin ts n acc arbitrary: sent k idx rule: join_tasks.induct)
  case (2 fin m s r ts n acc)
  then obtain k' i where r: "r = Inr (k', i)" by (cases r) (auto split: prod.splits)
  obtain s' where s': "join_tasks fin ts (n + k') (acc @ i) = (s', Inr (k, idx))" "sent = s @ s'"
    using 2(2) r by (auto split: prod.splits)
  obtain idx' where i': "idx = acc @ i @ idx'"
    "agrees (concat (map (\<lambda>(m, s, r). ps m s) ts)) s' idx'"
    using 2(1) [OF r refl s'(1)] 2(3) by fastforce
  have "agrees (ps m s) s i" using 2(3) [of m s k' i] r by simp
  from agrees_append [OF this i'(2)] s'(2) i'(1) show ?case by auto
qed auto

section \<open>One execution\<close>

text \<open>What a run sends covers every queued channel once, and agrees with its result.\<close>

lemma mset_concat_map_perm:
  "mset xs = mset ys \<Longrightarrow> mset (concat (map f xs)) = mset (concat (map f ys))"
  by (simp add: mset_concat sum_mset_sum_list [symmetric])

lemma tasks_pairs:
  "concat (map (\<lambda>(m, sent, r). map fst sent)
     (map (\<lambda>ne. (fst ne, node_task fr cfg opts atomic replies ne)) nm)) = map fst (node_pairs nm)"
proof (induction nm)
  case (Cons ne nm)
  obtain n e where ne: "ne = (n, e)" by (cases ne)
  obtain sent r where t: "node_task fr cfg opts atomic replies (n, e) = (sent, r)" by fastforce
  have "map fst sent = map fst (pairs (be_commands e))"
    using node_task_channels [of fr cfg opts atomic replies n e] t by simp
  with Cons ne t show ?case by simp
qed simp

lemma run_tasks_channels:
  assumes "sched_ok sch"
  shows "mset (map fst (fst (run_tasks fr cfg opts sch atomic w nm))) = mset (map fst (node_pairs nm))"
proof -
  let ?ts = "map (\<lambda>ne. (fst ne, node_task fr cfg opts atomic (sc_replies sch w) ne)) nm"
  have "mset (sc_order sch ?ts) = mset ?ts" using assms by (simp add: sched_ok_def)
  from mset_concat_map_perm [OF this, of "\<lambda>(m, sent, r). map fst sent"] show ?thesis
    by (simp only: run_tasks_def join_channels tasks_pairs)
qed

lemma map_through: "(\<And>x. x \<in> set xs \<Longrightarrow> f (h x) = g x) \<Longrightarrow> map f (map h xs) = map g xs"
  by simp

lemma pairs_by_channel:
  assumes "distinct (map fst ps)" and "set qs \<subseteq> set ps"
  shows "map (\<lambda>c. (c, the (map_of ps c))) (map fst qs) = qs"
  using assms by (induction qs) auto

lemma node_pairs_subset: "(n, e) \<in> set nm \<Longrightarrow> set (pairs (be_commands e)) \<subseteq> set (node_pairs nm)"
  by (auto simp: node_pairs_def)

lemma run_tasks_agrees:
  assumes "sched_ok sch" and "distinct (map fst (node_pairs nm))" and "\<not> bo_skip_result opts"
    and run: "run_tasks fr cfg opts sch atomic w nm = (sent, Inr (k, idx))"
  shows "\<exists>ps. mset ps = mset (node_pairs nm) \<and> agrees ps sent idx"
proof -
  let ?task = "node_task fr cfg opts atomic (sc_replies sch w)"
  let ?ts = "map (\<lambda>ne. (fst ne, ?task ne)) nm"
  let ?f = "\<lambda>s. map (\<lambda>c. (c, the (map_of (node_pairs nm) c))) (map fst s)"
  have f: "?f (fst (?task (n, e))) = pairs (be_commands e)" if "(n, e) \<in> set nm" for n e
    by (simp only: node_task_channels pairs_by_channel [OF assms(2) node_pairs_subset [OF that]])
  have perm: "mset (sc_order sch ?ts) = mset ?ts" using assms(1) by (simp add: sched_ok_def)
  have ok: "agrees (?f s) s i" if "(m, s, Inr (k', i)) \<in> set (sc_order sch ?ts)" for m s k' i
  proof -
    have "(m, s, Inr (k', i)) \<in> set ?ts" using that by (simp only: mset_eq_setD [OF perm])
    then obtain e where e: "(m, e) \<in> set nm" "?task (m, e) = (s, Inr (k', i))"
      by (simp only: set_map image_iff) (metis prod.collapse prod.inject)
    have "?f s = pairs (be_commands e)" using f [OF e(1)] by (simp only: e(2) fst_conv)
    with node_task_agrees [OF assms(3) e(2)] show ?thesis by (simp only:)
  qed
  have "map (\<lambda>(m, s, r). ?f s) ?ts = map (\<lambda>(n, e). pairs (be_commands e)) nm"
  proof (rule map_through)
    fix ne assume "ne \<in> set nm"
    then show "(case (fst ne, ?task ne) of (m, s, r) \<Rightarrow> ?f s) = (case ne of (n, e) \<Rightarrow> pairs (be_commands e))"
      using f [of "fst ne" "snd ne"] by (simp add: case_prod_unfold)
  qed
  then have ts: "mset (concat (map (\<lambda>(m, s, r). ?f s) (sc_order sch ?ts))) = mset (node_pairs nm)"
    using mset_concat_map_perm [OF perm, of "\<lambda>(m, s, r). ?f s"] by (simp only: node_pairs_def)
  have "\<exists>idx'. idx = [] @ idx' \<and>
      agrees (concat (map (\<lambda>(m, s, r). ?f s) (sc_order sch ?ts))) sent idx'"
    by (rule join_agrees [where ps = "\<lambda>m s. ?f s", OF run [unfolded run_tasks_def]]) (rule ok)
  then have "agrees (concat (map (\<lambda>(m, s, r). ?f s) (sc_order sch ?ts))) sent idx"
    by (simp only: append_Nil) blast
  with ts show ?thesis by blast
qed

section \<open>The step relation of a batch\<close>

lemma settle_promises:
  "distinct (map fst os) \<Longrightarrow> bs_promises (settle os sv) = bs_promises sv ++ map_of os"
proof -
  assume d: "distinct (map fst os)"
  have "fold (\<lambda>(c, r) p. p(c \<mapsto> r)) os p = p ++ map_of os" for p
    using d
  proof (induction os arbitrary: p)
    case (Cons x os)
    obtain c r where x: "x = (c, r)" by (cases x)
    with Cons.prems have "map_of os c = None" by (simp add: map_of_eq_None_iff)
    with Cons x show ?case by (auto simp: map_add_def fun_eq_iff split: option.split)
  qed simp
  then show ?thesis by (simp add: settle_def)
qed

lemma settle_frame [simp]:
  "bs_executed (settle os sv) = bs_executed sv" "bs_state (settle os sv) = bs_state sv"
  "bs_channels (settle os sv) = bs_channels sv" "bs_next_index (settle os sv) = bs_next_index sv"
  "bs_options (settle os sv) = bs_options sv" "bs_inner (settle os sv) = bs_inner sv"
  "bs_retry_attempts (settle os sv) = bs_retry_attempts sv"
  "bs_retry_delay (settle os sv) = bs_retry_delay sv"
  by (simp_all add: settle_def)

text \<open>
  The calls of a batch, interleaved. A call of \<open>async0\<close> first reserves its channel and its
  index and later enters the queue, so the queue need not be in the order of the indexes.
  The statics and the servers may change at any time.
\<close>

type_synonym 'w batch_run = "(nat \<times> nat) list \<times> batch_service \<times> 'w globals"

inductive batch_step ::
  "'w fred \<Rightarrow> redisson_config \<Rightarrow> 'w batch_run \<Rightarrow> 'w batch_run \<Rightarrow> bool"
  for fr cfg where
  step_reserve: "reserve sv = (p, sv') \<Longrightarrow> batch_step fr cfg (ps, sv, s) (p # ps, sv', s)"
| step_enqueue:
    "p \<in> set ps \<Longrightarrow> enqueue fr cmd (fst p) (snd p) (sv, s) = (r, sv', s') \<Longrightarrow>
     batch_step fr cfg (ps, sv, s) (remove1 p ps, sv', s')"
| step_execute:
    "sched_ok sch \<Longrightarrow> execute_async fr cfg sch (sv, s) = (r, sv', s') \<Longrightarrow>
     batch_step fr cfg (ps, sv, s) (ps, sv', s')"
| step_discard: "discard_async sv = (r, sv') \<Longrightarrow> batch_step fr cfg (ps, sv, s) (ps, sv', s)"
| step_world: "batch_step fr cfg (ps, sv, s) (ps, sv, s')"

inductive batch_reach ::
  "'w fred \<Rightarrow> redisson_config \<Rightarrow> batch_options \<Rightarrow> 'w batch_run \<Rightarrow> bool"
  for fr cfg opts where
  reach_new: "batch_reach fr cfg opts ([], batch_new cfg opts, s)"
| reach_step:
    "batch_reach fr cfg opts t \<Longrightarrow> batch_step fr cfg t t' \<Longrightarrow> batch_reach fr cfg opts t'"

text \<open>
  The channels that still wait are those reserved or queued; channels and indexes are never
  used twice.
\<close>

definition queue_ok :: "(nat \<times> nat) list \<Rightarrow> nat \<Rightarrow> nat \<Rightarrow> (nat \<Rightarrow> outcome option) \<Rightarrow> bool" where
  "queue_ok q n m P \<longleftrightarrow>
     distinct (map fst q) \<and> distinct (map snd q) \<and>
     fst ` set q \<subseteq> {..<n} \<and> snd ` set q \<subseteq> {..<m} \<and>
     (\<forall>c. P c = None \<longleftrightarrow> n \<le> c \<or> c \<in> fst ` set q)"

definition batch_inv :: "(nat \<times> nat) list \<Rightarrow> batch_service \<Rightarrow> bool" where
  "batch_inv ps sv \<longleftrightarrow>
     queue_ok (ps @ queue_pairs (bs_state sv)) (bs_channels sv) (bs_next_index sv) (bs_promises sv)"

lemma queue_ok_perm: "mset q = mset q' \<Longrightarrow> queue_ok q n m P \<Longrightarrow> queue_ok q' n m P"
proof -
  assume q: "mset q = mset q'" and ok: "queue_ok q n m P"
  have "set q = set q'" by (rule mset_eq_setD [OF q])
  moreover have "distinct (map f q) \<longleftrightarrow> distinct (map f q')" for f :: "nat \<times> nat \<Rightarrow> nat"
    by (rule mset_eq_imp_distinct_iff) (simp add: q)
  ultimately show ?thesis using ok by (simp add: queue_ok_def)
qed

lemma queue_ok_reserve: "queue_ok q n m P \<Longrightarrow> queue_ok ((n, m) # q) (n + 1) (m + 1) P"
  unfolding queue_ok_def by (auto simp: subset_iff)

lemma queue_ok_settle:
  assumes ok: "queue_ok (ps @ q) n m P" and sent: "mset (map fst sent) = mset (map fst q)"
  shows "queue_ok ps n m (P ++ map_of sent)"
proof -
  have f: "fst ` set sent = fst ` set q" using mset_eq_setD [OF sent] by simp
  have dom: "(P ++ map_of sent) c = None \<longleftrightarrow> P c = None \<and> c \<notin> fst ` set q" for c
    by (auto simp: f [symmetric] map_of_eq_None_iff map_add_None)
  have "n \<le> c \<or> c \<in> fst ` set ps \<longleftrightarrow> P c = None \<and> c \<notin> fst ` set q" for c
    using ok unfolding queue_ok_def by (auto simp: subset_iff)
  with dom ok show ?thesis unfolding queue_ok_def by auto
qed

lemma batch_inv_new: "batch_inv [] (batch_new cfg opts)"
  by (simp add: batch_inv_def queue_ok_def batch_new_def queue_pairs_def Let_def)

lemma batch_inv_reserve:
  "batch_inv ps sv \<Longrightarrow> reserve sv = (p, sv') \<Longrightarrow> batch_inv (p # ps) sv'"
  using queue_ok_reserve [of "ps @ queue_pairs (bs_state sv)"]
  by (auto simp: batch_inv_def reserve_def)

text \<open>Every queued channel is told something, and the queue is empty afterwards.\<close>

lemma batch_inv_settle:
  assumes "batch_inv ps sv" and "mset (map fst sent) = mset (map fst (queue_pairs (bs_state sv)))"
    and "queue_pairs (bs_state sv') = []" and "bs_channels sv' = bs_channels sv"
    and "bs_next_index sv' = bs_next_index sv" and "bs_promises sv' = bs_promises sv"
  shows "batch_inv ps (settle sent sv')"
proof -
  have "distinct (map fst (queue_pairs (bs_state sv)))"
    using assms(1) by (simp add: batch_inv_def queue_ok_def)
  then have "distinct (map fst sent)" using mset_eq_imp_distinct_iff [OF assms(2)] by simp
  with assms show ?thesis
    using queue_ok_settle [of ps _ _ _ _ sent] by (simp add: batch_inv_def settle_promises)
qed

text \<open>
  A command either enters the queue or has its channel told the outcome; either way it is
  no longer only reserved.
\<close>

lemma enqueue_inv:
  assumes inv: "batch_inv ps sv" and p: "p \<in> set ps"
    and step: "enqueue fr cmd (fst p) (snd p) (sv, s) = (r, sv', s')"
  shows "batch_inv (remove1 p ps) sv'"
proof -
  obtain c i where ci: "p = (c, i)" by (cases p)
  let ?q = "queue_pairs (bs_state sv)"
  have perm: "mset (ps @ ?q) = mset (remove1 p ps @ ?q @ [p])"
    "mset (ps @ ?q) = mset ((remove1 p ps @ ?q) @ [p])" using p by simp_all
  have frame: "bs_channels sv' = bs_channels sv" "bs_next_index sv' = bs_next_index sv"
    using step by (auto simp: enqueue_def Let_def split: batch_state.splits if_splits prod.splits sum.splits)
  consider (queued) "queue_pairs (bs_state sv') = ?q @ [p]" "bs_promises sv' = bs_promises sv"
    | (settled) r where "queue_pairs (bs_state sv') = ?q"
        "bs_promises sv' = bs_promises sv ++ map_of [(c, r)]"
    using step ci
    by (auto simp: enqueue_def Let_def queue_pairs_def settle_def
        split: batch_state.splits if_splits prod.splits sum.splits)
  then show ?thesis
  proof cases
    case queued
    with inv frame queue_ok_perm [OF perm(1)] show ?thesis by (simp add: batch_inv_def)
  next
    case (settled r)
    have "queue_ok (remove1 p ps @ ?q) (bs_channels sv) (bs_next_index sv)
        (bs_promises sv ++ map_of [(c, r)])"
      by (rule queue_ok_settle [OF queue_ok_perm [OF perm(2)]])
        (use inv ci in \<open>simp_all add: batch_inv_def\<close>)
    with settled frame show ?thesis by (simp add: batch_inv_def)
  qed
qed

lemma discard_inv:
  assumes "batch_inv ps sv" and "discard_async sv = (r, sv')"
  shows "batch_inv ps sv'"
proof (cases "bs_executed sv")
  case False
  with assms(2) have sv': "sv' = settle (map (\<lambda>c. (c, Resolved (Inl (Msg ''batch discarded''))))
      (queued_channels (bs_state sv))) (sv\<lparr>bs_executed := True, bs_state := take_queue (bs_state sv)\<rparr>)"
    by (auto simp: discard_async_def Let_def)
  show ?thesis unfolding sv'
    by (rule batch_inv_settle [OF assms(1)])
      (auto simp: queued_channels_pairs queue_pairs_def take_queue_def comp_def split: batch_state.split)
qed (use assms in \<open>simp add: discard_async_def\<close>)

text \<open>
  An execution that was the first leaves the queue alone, or takes all of it and tells each
  of its channels an outcome.
\<close>

lemma execute_in_memory_cases [consumes 1, case_names wrong empty lost ran]:
  assumes exec: "execute_in_memory fr cfg sch atomic (sv, s) = (r, sv', s')"
  obtains
    sl es e where "bs_state sv = BRedisBased sl es" "sv' = sv" "r = Inl e"
  | "bs_state sv = BInMemory []" "sv' = sv" "s' = s" "r = Inr (batch_result_new [] 0)"
  | ds e where "bs_state sv = BInMemory ds" "r = Inl e"
      "sv' = settle (drop_all (map bc_tx ds)) (sv\<lparr>bs_state := BInMemory []\<rparr>)"
  | ds nm w nm' s2 sent x where "bs_state sv = BInMemory ds" "ds \<noteq> []"
      "group_by_node fr (bs_retry_attempts sv) (bs_retry_delay sv) ds [] (remote s) = (Inr nm, w)"
      "load_scripts fr cfg (sc_shuffle sch nm) (s\<lparr>remote := w\<rparr>) = (Inr nm', s2)"
      "run_tasks fr cfg (bs_options sv) sch atomic (remote s2) nm' = (sent, x)"
      "sv' = settle sent (sv\<lparr>bs_state := BInMemory []\<rparr>)"
      "r = (case x of Inl e \<Rightarrow> Inl e
            | Inr (n, idx) \<Rightarrow> Inr (batch_result_new (map snd (sort_key fst idx)) n))"
      "s' = s2\<lparr>remote := sc_effect sch (remote s2)\<rparr>"
proof (cases "bs_state sv")
  case (BInMemory ds)
  obtain g w where g: "group_by_node fr (bs_retry_attempts sv) (bs_retry_delay sv) ds [] (remote s) = (g, w)"
    by fastforce
  show ?thesis
  proof (cases g)
    case (Inl e)
    with exec g BInMemory that(2,3) show ?thesis
      by (auto simp: execute_in_memory_def Let_def on_remote_apply split: if_splits)
  next
    case (Inr nm)
    obtain l s2 where l: "load_scripts fr cfg (sc_shuffle sch nm) (s\<lparr>remote := w\<rparr>) = (l, s2)"
      by fastforce
    show ?thesis
    proof (cases l)
      case (Inl e)
      with exec g Inr l BInMemory that(2,3) show ?thesis
        by (auto simp: execute_in_memory_def Let_def on_remote_apply split: if_splits)
    next
      case (Inr nm')
      obtain sent x where x: "run_tasks fr cfg (bs_options sv) sch atomic (remote s2) nm' = (sent, x)"
        by fastforce
      show ?thesis
      proof (cases "ds = []")
        case True
        then have "r = Inr (batch_result_new [] 0)" "sv' = sv" "s' = s"
          using exec BInMemory by (auto simp: execute_in_memory_def)
        with BInMemory True show ?thesis by (intro that(2)) simp_all
      next
        case False
        have "s' = s2\<lparr>remote := sc_effect sch (remote s2)\<rparr>" "sv' = settle sent (sv\<lparr>bs_state := BInMemory []\<rparr>)"
          "r = (case x of Inl e \<Rightarrow> Inl e
            | Inr (n, idx) \<Rightarrow> Inr (batch_result_new (map snd (sort_key fst idx)) n))"
          using exec g \<open>g = Inr nm\<close> l Inr x BInMemory False
          by (auto simp: execute_in_memory_def Let_def on_remote_apply split: sum.splits prod.splits)
        with that(4) [OF BInMemory False _ _ x] g \<open>g = Inr nm\<close> l Inr show ?thesis by simp
      qed
    qed
  qed
next
  case (BRedisBased sl es)
  with exec have "r = Inl (Msg ''unexpected batch state in execute_in_memory'')" "sv' = sv"
    by (auto simp: execute_in_memory_def)
  with BRedisBased show ?thesis by (intro that(1))
qed

lemma run_node_pairs:
  assumes "sched_ok sch"
    and "group_by_node fr retries dl ds [] w = (Inr nm, w')"
    and "load_scripts fr cfg (sc_shuffle sch nm) s1 = (Inr nm', s2)"
  shows "mset (node_pairs nm') = mset (pairs ds)"
  using group_pairs [OF assms(2)] load_scripts_pairs [OF assms(3)] assms(1)
    node_pairs_shuffle [of "sc_shuffle sch nm" nm] by (simp add: sched_ok_def)

lemma execute_in_memory_effect:
  assumes sch: "sched_ok sch" and exec: "execute_in_memory fr cfg sch atomic (sv, s) = (r, sv', s')"
  shows "sv' = sv \<or>
    (\<exists>sent. mset (map fst sent) = mset (map fst (queue_pairs (bs_state sv))) \<and>
      sv' = settle sent (sv\<lparr>bs_state := BInMemory []\<rparr>))"
  using exec
proof (cases rule: execute_in_memory_cases)
  case (lost ds e)
  then show ?thesis
    by (intro disjI2 exI [of _ "drop_all (map bc_tx ds)"]) (simp add: queue_pairs_def del: mset_map)
next
  case (ran ds nm w nm' s2 sent x)
  have "mset (map fst sent) = mset (map fst (node_pairs nm'))"
    using run_tasks_channels [OF sch, of fr cfg "bs_options sv" atomic "remote s2" nm'] ran(5) by simp
  also have "\<dots> = mset (map fst (pairs ds))"
    using run_node_pairs [OF sch ran(3,4)] by (simp only: mset_map)
  finally show ?thesis using ran by (auto simp: queue_pairs_def)
qed simp_all

lemma exec_replies_channels: "map fst (fst (exec_replies fr opts r es)) = map fst es"
  by (simp add: exec_replies_def Let_def split: sum.split rvalue.split)

text \<open>The transaction taken: what was sent, whether or not the timeout let it finish.\<close>

lemma execute_redis_inner_cases [consumes 1, case_names wrong empty ran]:
  assumes exec: "execute_redis_based_queue_inner fr (sv, s) = (r, sv', s')"
  obtains
    ds e where "bs_state sv = BInMemory ds" "sv' = sv" "r = Inl e"
  | sl where "bs_state sv = BRedisBased sl []" "sv' = sv" "r = Inr (batch_result_new [] 0)"
  | sl es a n sent x where "bs_state sv = BRedisBased sl es" "es \<noteq> []"
      "exec_replies fr (bs_options sv) a es = (sent, x)"
      "fst (batch_client fr (bs_options sv) (QCustom ''EXEC'' (Custom (slot_or_0 sl)) [])
        (remote s)) = a"
      "sv' = settle sent (sv\<lparr>bs_state := BRedisBased sl []\<rparr>)"
      "r = (case x of Inl e \<Rightarrow> Inl e
            | Inr idx \<Rightarrow> Inr (batch_result_new (map snd (sort_key fst idx)) n))"
proof (cases "bs_state sv")
  case (BInMemory ds)
  with exec have "sv' = sv" "r = Inl (Msg ''unexpected batch state in execute_redis_based_queue'')"
    by (auto simp: execute_redis_based_queue_inner_def)
  with BInMemory show ?thesis by (intro that(1))
next
  case (BRedisBased sl es)
  show ?thesis
  proof (cases "es = []")
    case True
    with exec BRedisBased have "r = Inr (batch_result_new [] 0)" "sv' = sv"
      by (auto simp: execute_redis_based_queue_inner_def)
    with True BRedisBased show ?thesis by (intro that(2)) simp_all
  next
    case False
    obtain a w1 where a: "batch_client fr (bs_options sv)
        (QCustom ''EXEC'' (Custom (slot_or_0 sl)) []) (remote s) = (a, w1)" by fastforce
    obtain n w2 where n: "wait_redis_based fr (bs_options sv) (slot_or_0 sl) w1 = (n, w2)" by fastforce
    obtain sent x where x: "exec_replies fr (bs_options sv) a es = (sent, x)" by fastforce
    have "sv' = settle sent (sv\<lparr>bs_state := BRedisBased sl []\<rparr>)"
      "r = (case x of Inl e \<Rightarrow> Inl e
            | Inr idx \<Rightarrow> Inr (batch_result_new (map snd (sort_key fst idx)) n))"
      using exec BRedisBased False a n x
      by (auto simp: execute_redis_based_queue_inner_def Let_def split: sum.splits)
    with BRedisBased False x a show ?thesis by (intro that(3)) simp_all
  qed
qed

text \<open>
  What an execution does to the queue: nothing, or it takes the queue and tells every
  channel in it an outcome.
\<close>

definition takes_queue :: "batch_service \<Rightarrow> batch_service \<Rightarrow> bool" where
  "takes_queue sv sv' \<longleftrightarrow>
     (\<exists>sent st. mset (map fst sent) = mset (map fst (queue_pairs (bs_state sv))) \<and>
        queue_pairs st = [] \<and> sv' = settle sent (sv\<lparr>bs_state := st\<rparr>))"

lemma execute_redis_effect:
  assumes "execute_redis_based_queue fr cfg k (sv, s) = (r, sv', s')"
  shows "sv' = sv \<or> takes_queue sv sv'"
proof (cases "cut_applies k sv")
  case False
  with assms have "execute_redis_based_queue_inner fr (sv, s) = (r, sv', s')"
    by (simp add: execute_redis_based_queue_def)
  then show ?thesis
  proof (cases rule: execute_redis_inner_cases)
    case (ran sl es a n sent x)
    have "map fst sent = map fst es"
      using exec_replies_channels [of fr "bs_options sv" a es] ran(3) by simp
    with ran show ?thesis unfolding takes_queue_def
      by (intro disjI2 exI [of _ sent] exI [of _ "BRedisBased sl []"])
        (simp add: queue_pairs_def del: mset_map)
  qed simp_all
next
  case True
  with assms have c: "(sv', s') = cut_redis_based fr k (sv, s)"
    by (simp add: execute_redis_based_queue_def Let_def)
  show ?thesis
  proof (cases "bs_state sv")
    case (BRedisBased sl es)
    have "takes_queue sv (settle (drop_all (map fst es)) (sv\<lparr>bs_state := BRedisBased sl []\<rparr>))"
      unfolding takes_queue_def
      by (intro exI [of _ "drop_all (map fst es)"] exI [of _ "BRedisBased sl []"])
        (simp add: BRedisBased queue_pairs_def del: mset_map)
    with c BRedisBased show ?thesis by (auto simp: cut_redis_based_def Let_def split: if_splits)
  qed (use c in \<open>simp add: cut_redis_based_def\<close>)
qed

lemma execute_async_effect:
  assumes "sched_ok sch" and "execute_async fr cfg sch (sv, s) = (r, sv', s')"
    and "\<not> bs_executed sv"
  shows "sv' = sv\<lparr>bs_executed := True\<rparr> \<or> takes_queue (sv\<lparr>bs_executed := True\<rparr>) sv'"
proof -
  have mem: "sv' = sv1 \<or> takes_queue sv1 sv'"
    if "execute_in_memory fr cfg sch b (sv1, s) = (r, sv', s')" for b sv1
    using execute_in_memory_effect [OF assms(1) that] unfolding takes_queue_def
    by (metis batch_state.simps(5) pairs_simps(1) queue_pairs_def)
  from assms(2,3) show ?thesis
    by (auto simp: execute_async_def Let_def split: execution_mode.splits
        dest: mem execute_redis_effect)
qed

lemma execute_async_inv:
  assumes "sched_ok sch" and "execute_async fr cfg sch (sv, s) = (r, sv', s')" and "batch_inv ps sv"
  shows "batch_inv ps sv'"
proof (cases "bs_executed sv")
  case True
  with assms show ?thesis by (simp add: execute_async_def)
next
  case False
  from execute_async_effect [OF assms(1,2) this] show ?thesis
  proof
    assume "sv' = sv\<lparr>bs_executed := True\<rparr>"
    with assms(3) show ?thesis by (simp add: batch_inv_def)
  next
    assume "takes_queue (sv\<lparr>bs_executed := True\<rparr>) sv'"
    then show ?thesis unfolding takes_queue_def
      by (auto intro!: batch_inv_settle [OF assms(3)])
  qed
qed

lemma batch_step_inv: "batch_step fr cfg (ps, sv, s) (ps', sv', s') \<Longrightarrow> batch_inv ps sv \<Longrightarrow> batch_inv ps' sv'"
  by (erule batch_step.cases)
    (auto intro: batch_inv_reserve enqueue_inv execute_async_inv discard_inv)

lemma batch_reach_inv: "batch_reach fr cfg opts t \<Longrightarrow> batch_inv (fst t) (fst (snd t))"
proof (induction rule: batch_reach.induct)
  case (reach_step t t')
  then show ?case by (cases t; cases t') (auto intro: batch_step_inv)
qed (simp add: batch_inv_new)

section \<open>Responses in the order of the indexes\<close>

lemma insort_key_map: "insort_key f (g x) (map g xs) = map g (insort_key (f \<circ> g) x xs)"
  by (induction xs) simp_all

lemma sort_key_map: "sort_key f (map g xs) = map g (sort_key (f \<circ> g) xs)"
  by (induction xs) (simp_all add: insort_key_map del: o_apply)

lemma sort_key_perm:
  assumes "mset xs = mset ys" and "distinct (map f xs)"
  shows "sort_key f xs = sort_key f ys"
proof (rule sort_key_inj_key_eq)
  show "mset xs = mset (sort_key f ys)" using assms(1) by simp
  show "inj_on f (set xs)" using assms(2) by (simp add: distinct_map)
  show "sorted (map f (sort_key f ys))" by simp
qed

lemma mset_map_filter_cong:
  "mset xs = mset ys \<Longrightarrow> mset (List.map_filter f xs) = mset (List.map_filter f ys)"
  by (simp add: List.map_filter_def)

text \<open>Sorting by a key and keeping some of the entries under their keys commute.\<close>

lemma sort_map_filter:
  assumes "distinct (map k xs)" and "\<And>x y. f x = Some y \<Longrightarrow> fst y = k x"
  shows "sort_key fst (List.map_filter f xs) = List.map_filter f (sort_key k xs)"
proof (rule sort_key_inj_key_eq)
  show "mset (List.map_filter f xs) = mset (List.map_filter f (sort_key k xs))"
    by (rule mset_map_filter_cong) simp
  have inj: "inj_on k (set xs)" using assms(1) by (simp add: distinct_map)
  show "inj_on fst (set (List.map_filter f xs))"
  proof (rule inj_onI)
    fix y z
    assume "y \<in> set (List.map_filter f xs)" and "z \<in> set (List.map_filter f xs)" and eq: "fst y = fst z"
    then obtain a b where a: "a \<in> set xs" "f a = Some y" and b: "b \<in> set xs" "f b = Some z"
      by (auto simp: List.map_filter_def)
    then have "k a = k b" using assms(2) [of a y] assms(2) [of b z] eq by simp
    then have "a = b" using inj a(1) b(1) by (simp add: inj_on_def)
    with a b show "y = z" by simp
  qed
  have "map fst (List.map_filter f ys) = map k (filter (\<lambda>x. f x \<noteq> None) ys)" for ys
    by (induction ys) (auto simp: List.map_filter_simps dest: assms(2) split: option.split)
  moreover have "sorted (map k (filter (\<lambda>x. f x \<noteq> None) (sort_key k xs)))"
    by (rule sorted_filter) (rule sorted_sort_key)
  ultimately show "sorted (map fst (List.map_filter f (sort_key k xs)))" by simp
qed

lemma map_filter_cong:
  "(\<And>x. x \<in> set xs \<Longrightarrow> f x = g x) \<Longrightarrow> List.map_filter f xs = List.map_filter g xs"
  by (induction xs) (simp_all add: List.map_filter_simps split: option.split)

lemma map_filter_map: "List.map_filter f (map g xs) = List.map_filter (f \<circ> g) xs"
  by (induction xs) (simp_all add: List.map_filter_simps split: option.split)

lemma map_map_filter: "map g (List.map_filter f xs) = List.map_filter (map_option g \<circ> f) xs"
  by (induction xs) (simp_all add: List.map_filter_simps split: option.split)

text \<open>The value a channel was told.\<close>

definition promise_value :: "(nat \<Rightarrow> outcome option) \<Rightarrow> nat \<Rightarrow> rvalue option" where
  "promise_value P c = Option.bind (P c) outcome_value"

lemma agrees_responses:
  assumes ag: "agrees ps sent idx" and q: "mset ps = mset q"
    and d: "distinct (map fst ps)" "distinct (map snd ps)"
  shows "map snd (sort_key fst idx) =
    List.map_filter (\<lambda>(c, i). promise_value (P ++ map_of sent) c) (sort_key snd q)"
proof -
  let ?F = "\<lambda>((c, i), r). map_option (Pair i) (outcome_value r)"
  obtain L :: "((nat \<times> nat) \<times> outcome) list"
    where L: "map fst L = ps" "sent = map (\<lambda>((c, i), r). (c, r)) L" "idx = List.map_filter ?F L"
    using ag unfolding agrees_def by blast
  let ?L = "sort_key (snd \<circ> fst) L"
  have dk: "distinct (map (snd \<circ> fst) L)" using d(2) L(1) by (metis map_map)
  have s: "sort_key fst idx = List.map_filter ?F ?L"
    unfolding L(3) by (rule sort_map_filter [OF dk]) auto
  have "distinct (map fst sent)" using agrees_fst [OF ag] d(1) by simp
  then have told: "(P ++ map_of sent) c = Some r" if "((c, i), r) \<in> set L" for c i r
    using that L(2) by (force simp: map_add_Some_iff intro!: map_of_is_SomeI)
  have "map snd (sort_key fst idx) = List.map_filter (map_option snd \<circ> ?F) ?L"
    by (simp only: s map_map_filter)
  also have "\<dots> = List.map_filter ((\<lambda>(c, i). promise_value (P ++ map_of sent) c) \<circ> fst) ?L"
    by (rule map_filter_cong) (auto simp: promise_value_def told option.map_comp option.map_ident comp_def)
  also have "\<dots> = List.map_filter (\<lambda>(c, i). promise_value (P ++ map_of sent) c) (map fst ?L)"
    by (simp only: map_filter_map)
  also have "map fst ?L = sort_key snd (map fst L)" by (simp only: sort_key_map)
  also have "\<dots> = sort_key snd q" using L(1) sort_key_perm [OF q d(2)] by simp
  finally show ?thesis .
qed

lemma exec_replies_agrees:
  "\<not> bo_skip_result opts \<Longrightarrow> exec_replies fr opts a es = (sent, Inr idx) \<Longrightarrow> agrees es sent idx"
  using agrees_send_all [of es] agrees_send_same [of _ es]
  by (auto simp: exec_replies_def Let_def split: sum.splits rvalue.splits)

lemma inv_queue_distinct:
  assumes "batch_inv ps sv"
  shows "distinct (map fst (queue_pairs (bs_state sv)))" "distinct (map snd (queue_pairs (bs_state sv)))"
  using assms by (simp_all add: batch_inv_def queue_ok_def)

text \<open>The responses of either path are the values the channels were told.\<close>

definition told_values :: "batch_service \<Rightarrow> batch_service \<Rightarrow> rvalue list" where
  "told_values sv sv' =
     List.map_filter (\<lambda>(c, i). promise_value (bs_promises sv') c)
       (sort_key snd (queue_pairs (bs_state sv)))"

lemma told_values_settle:
  assumes inv: "batch_inv ps sv" and "mset qs = mset (queue_pairs (bs_state sv))"
    and "agrees qs sent idx" and "bs_promises sv1 = bs_promises sv"
  shows "map snd (sort_key fst idx) = told_values sv (settle sent sv1)"
proof -
  note d = inv_queue_distinct [OF inv]
  have dq: "distinct (map fst qs)" "distinct (map snd qs)"
    using d mset_eq_imp_distinct_iff [of "map f qs" "map f (queue_pairs (bs_state sv))" for f] assms(2)
    by auto
  then have "distinct (map fst sent)" using agrees_fst [OF assms(3)] by simp
  then show ?thesis
    using agrees_responses [OF assms(3,2) dq] assms(4) by (simp add: told_values_def settle_promises)
qed

lemma execute_in_memory_responses:
  assumes sch: "sched_ok sch" and inv: "batch_inv ps sv" and skip: "\<not> bo_skip_result (bs_options sv)"
    and exec: "execute_in_memory fr cfg sch atomic (sv, s) = (Inr r, sv', s')"
  shows "responses r = told_values sv sv'"
  using exec
proof (cases rule: execute_in_memory_cases)
  case empty
  then show ?thesis
    by (simp add: told_values_def batch_result_new_def queue_pairs_def List.map_filter_simps)
next
  case (ran ds nm w nm' s2 sent x)
  then obtain n idx where x: "x = Inr (n, idx)" and r: "responses r = map snd (sort_key fst idx)"
    by (auto simp: batch_result_new_def split: sum.splits prod.splits)
  have np: "mset (node_pairs nm') = mset (queue_pairs (bs_state sv))"
    using run_node_pairs [OF sch ran(3,4)] ran(1) by (simp add: queue_pairs_def)
  have "mset (map fst (node_pairs nm')) = mset (map fst (queue_pairs (bs_state sv)))"
    using np by simp
  then have "distinct (map fst (node_pairs nm'))"
    using inv_queue_distinct(1) [OF inv] mset_eq_imp_distinct_iff by blast
  from run_tasks_agrees [OF sch this skip] ran(5) x
  obtain qs where qs: "mset qs = mset (node_pairs nm')" "agrees qs sent idx" by blast
  have "map snd (sort_key fst idx) = told_values sv (settle sent (sv\<lparr>bs_state := BInMemory []\<rparr>))"
    by (rule told_values_settle [OF inv _ qs(2)]) (simp_all add: qs(1) np)
  with ran(6) r show ?thesis by simp
qed simp_all

lemma execute_redis_responses:
  assumes inv: "batch_inv ps sv" and skip: "\<not> bo_skip_result (bs_options sv)"
    and exec: "execute_redis_based_queue fr cfg k (sv, s) = (Inr r, sv', s')"
  shows "responses r = told_values sv sv'"
proof -
  have "execute_redis_based_queue_inner fr (sv, s) = (Inr r, sv', s')"
    using exec by (auto simp: execute_redis_based_queue_def Let_def split: if_splits)
  then show ?thesis
  proof (cases rule: execute_redis_inner_cases)
    case (empty sl)
    then show ?thesis
      by (simp add: told_values_def batch_result_new_def queue_pairs_def List.map_filter_simps)
  next
    case (ran sl es a n sent x)
    then obtain idx where x: "x = Inr idx" and r: "responses r = map snd (sort_key fst idx)"
      by (auto simp: batch_result_new_def split: sum.splits)
    from exec_replies_agrees [OF skip] ran(3) x have "agrees es sent idx" by blast
    then have "map snd (sort_key fst idx) =
        told_values sv (settle sent (sv\<lparr>bs_state := BRedisBased sl []\<rparr>))"
      by (rule told_values_settle [OF inv, rotated]) (simp_all add: ran(1) queue_pairs_def)
    with ran(5) r show ?thesis by simp
  qed simp_all
qed

text \<open>
  C1: The responses of a batch are the answers its callers get, in the order in which the
  commands were issued: in every execution mode that collects results, whatever the calls
  that were interleaved, the order of the hash map and the order in which the node tasks
  end, a successful \<open>execute_async\<close> returns the values told to the channels that were
  queued, sorted by the index each call took, and leaves out the calls that got an error.
\<close>

theorem batch_responses:
  assumes "batch_reach fr cfg opts (ps, sv, s)" and "sched_ok sch"
    and "\<not> bo_skip_result (bs_options sv)"
    and "execute_async fr cfg sch (sv, s) = (Inr r, sv', s')"
  shows "responses r =
    List.map_filter (\<lambda>(c, i). promise_value (bs_promises sv') c)
      (sort_key snd (queue_pairs (bs_state sv)))"
proof -
  let ?sv = "sv\<lparr>bs_executed := True\<rparr>"
  have inv: "batch_inv ps ?sv"
    using batch_reach_inv [OF assms(1)] by (simp add: batch_inv_def)
  have skip: "\<not> bo_skip_result (bs_options ?sv)" using assms(3) by simp
  have "responses r = told_values ?sv sv'"
    using assms(4)
    by (auto simp: execute_async_def Let_def split: if_splits execution_mode.splits
        intro: execute_in_memory_responses [OF assms(2) inv skip]
          execute_redis_responses [OF inv skip])
  then show ?thesis by (simp add: told_values_def)
qed

section \<open>Every queued command is answered\<close>

text \<open>The storage of the queue is the one the options ask for.\<close>

definition mode_ok :: "batch_service \<Rightarrow> bool" where
  "mode_ok sv \<longleftrightarrow>
     (is_redis_based_queue (bs_options sv) \<longleftrightarrow> (\<exists>sl es. bs_state sv = BRedisBased sl es))"

lemma mode_ok_new: "mode_ok (batch_new cfg opts)"
  by (simp add: mode_ok_def batch_new_def Let_def)

lemma mode_ok_enqueue:
  "enqueue fr cmd c i (sv, s) = (r, sv', s') \<Longrightarrow> mode_ok sv \<Longrightarrow> mode_ok sv'"
  by (auto simp: enqueue_def mode_ok_def Let_def
      split: batch_state.splits if_splits prod.splits sum.splits)

lemma mode_ok_execute:
  assumes "execute_async fr cfg sch (sv, s) = (r, sv', s')" and "mode_ok sv"
  shows "mode_ok sv'"
proof -
  have mem: "mode_ok sv2"
    if "execute_in_memory fr cfg sch b (sv1, s) = (r, sv2, s')" "mode_ok sv1" for b sv1 sv2
    using that by (cases rule: execute_in_memory_cases) (auto simp: mode_ok_def)
  have red: "mode_ok sv2"
    if "execute_redis_based_queue fr cfg k (sv1, s) = (r, sv2, s')" "mode_ok sv1" for k sv1 sv2
  proof (cases "cut_applies k sv1")
    case True
    with that show ?thesis
      by (auto simp: execute_redis_based_queue_def cut_redis_based_def mode_ok_def Let_def
          split: batch_state.splits if_splits)
  next
    case False
    with that(1) have "execute_redis_based_queue_inner fr (sv1, s) = (r, sv2, s')"
      by (simp add: execute_redis_based_queue_def)
    then show ?thesis
      by (cases rule: execute_redis_inner_cases) (use that(2) in \<open>auto simp: mode_ok_def\<close>)
  qed
  have "mode_ok (sv\<lparr>bs_executed := True\<rparr>)" using assms(2) by (simp add: mode_ok_def)
  with assms show ?thesis
    by (auto simp: execute_async_def Let_def split: if_splits execution_mode.splits
        dest: mem red)
qed

lemma mode_ok_step: "batch_step fr cfg (ps, sv, s) (ps', sv', s') \<Longrightarrow> mode_ok sv \<Longrightarrow> mode_ok sv'"
  by (erule batch_step.cases)
    (auto simp: reserve_def mode_ok_def discard_async_def take_queue_def Let_def
      split: if_splits batch_state.splits dest: mode_ok_enqueue mode_ok_execute)

lemma batch_reach_mode: "batch_reach fr cfg opts t \<Longrightarrow> mode_ok (fst (snd t))"
proof (induction rule: batch_reach.induct)
  case (reach_step t t')
  then show ?case by (cases t; cases t') (auto intro: mode_ok_step)
qed (simp add: mode_ok_new)

lemma execute_empties_queue:
  assumes "execute_async fr cfg sch (sv, s) = (r, sv', s')" and "\<not> bs_executed sv"
    and "mode_ok sv" and "sc_cut sch \<noteq> CutLock"
  shows "queue_pairs (bs_state sv') = []"
proof -
  let ?sv = "sv\<lparr>bs_executed := True\<rparr>"
  have mem: "queue_pairs (bs_state sv2) = []"
    if "execute_in_memory fr cfg sch b (?sv, s) = (r, sv2, s')" "\<not> is_redis_based_queue (bs_options sv)"
    for b sv2
    using that(1)
    by (cases rule: execute_in_memory_cases)
      (use that(2) assms(3) in \<open>auto simp: mode_ok_def queue_pairs_def\<close>)
  have red: "queue_pairs (bs_state sv2) = []"
    if "execute_redis_based_queue fr cfg (sc_cut sch) (?sv, s) = (r, sv2, s')"
      "is_redis_based_queue (bs_options sv)" for sv2
  proof (cases "cut_applies (sc_cut sch) ?sv")
    case True
    with that assms(3,4) show ?thesis
      by (auto simp: execute_redis_based_queue_def cut_redis_based_def mode_ok_def Let_def
          queue_pairs_def split: batch_state.splits if_splits)
  next
    case False
    with that(1) have "execute_redis_based_queue_inner fr (?sv, s) = (r, sv2, s')"
      by (simp add: execute_redis_based_queue_def)
    then show ?thesis
      by (cases rule: execute_redis_inner_cases)
        (use that(2) assms(3) in \<open>auto simp: mode_ok_def queue_pairs_def\<close>)
  qed
  show ?thesis
    using assms(1,2) mem red
    by (cases "bo_execution_mode (bs_options sv)")
      (auto simp: execute_async_def Let_def is_redis_based_queue_def)
qed

text \<open>
  C3: No call of a batch is forgotten: once \<open>execute_async\<close> has run, with whatever result
  (an error while a node was looked up, scripts were loaded or a task ran included), every
  command that had entered the queue has its answer, unless the timeout of a redis-based
  batch struck before the queue could be locked. Only calls that have not entered the
  queue yet are still open.
\<close>

theorem batch_all_answered:
  assumes "batch_reach fr cfg opts (ps, sv, s)" and "sched_ok sch" and "\<not> bs_executed sv"
    and "sc_cut sch \<noteq> CutLock" and "execute_async fr cfg sch (sv, s) = (r, sv', s')"
  shows "{c. c < bs_channels sv' \<and> await_reply c sv' = None} = fst ` set ps"
proof -
  have "batch_inv ps sv'"
    using execute_async_inv [OF assms(2,5)] batch_reach_inv [OF assms(1)] by simp
  moreover have "queue_pairs (bs_state sv') = []"
    using execute_empties_queue [OF assms(5,3) _ assms(4)] batch_reach_mode [OF assms(1)] by simp
  moreover have "await_reply c sv' = None \<longleftrightarrow> bs_promises sv' c = None" for c
    by (simp add: await_reply_def split: option.split outcome.split)
  ultimately show ?thesis by (auto simp: batch_inv_def queue_ok_def subset_iff)
qed

section \<open>Answers are final\<close>

lemma inv_waiting:
  assumes "batch_inv ps sv" and "c \<in> set (map fst (ps @ queue_pairs (bs_state sv)))"
  shows "bs_promises sv c = None"
proof -
  have "c \<in> fst ` set (ps @ queue_pairs (bs_state sv))" using assms(2) by (simp only: set_map)
  moreover have "\<forall>c. bs_promises sv c = None \<longleftrightarrow>
      bs_channels sv \<le> c \<or> c \<in> fst ` set (ps @ queue_pairs (bs_state sv))"
    using assms(1) unfolding batch_inv_def queue_ok_def by (elim conjE)
  ultimately show ?thesis by (simp only: simp_thms)
qed

lemma told_once:
  assumes "batch_inv ps sv" and "set (map fst sent) \<subseteq> set (map fst (ps @ queue_pairs (bs_state sv)))"
    and "distinct (map fst sent)" and "bs_promises sv1 = bs_promises sv"
  shows "bs_promises sv \<subseteq>\<^sub>m bs_promises (settle sent sv1)"
proof (simp add: settle_promises [OF assms(3)] assms(4) map_le_def, intro ballI)
  fix c
  assume "c \<in> dom (bs_promises sv)"
  then have "bs_promises sv c \<noteq> None" by blast
  with inv_waiting [OF assms(1), of c]
  have "c \<notin> set (map fst (ps @ queue_pairs (bs_state sv)))" by blast
  with assms(2) have "c \<notin> set (map fst sent)" by blast
  then have "c \<notin> fst ` set sent" by simp
  then show "bs_promises sv c = (bs_promises sv ++ map_of sent) c"
    by (simp add: map_add_def map_of_eq_None_iff [THEN iffD2])
qed

lemma enqueue_told:
  assumes inv: "batch_inv ps sv" and p: "p \<in> set ps"
    and step: "enqueue fr cmd (fst p) (snd p) (sv, s) = (r, sv', s')"
  shows "bs_promises sv \<subseteq>\<^sub>m bs_promises sv'"
proof -
  have "bs_promises sv (fst p) = None"
    using inv p by (auto simp: batch_inv_def queue_ok_def)
  moreover have "bs_promises sv' = bs_promises sv \<or>
      (\<exists>x. bs_promises sv' = (bs_promises sv)(fst p \<mapsto> x))"
    using step
    by (auto simp: enqueue_def Let_def settle_def
        split: batch_state.splits if_splits prod.splits sum.splits)
  ultimately show ?thesis by (auto simp: map_le_def)
qed

lemma discard_told:
  assumes "batch_inv ps sv" and "discard_async sv = (r, sv')"
  shows "bs_promises sv \<subseteq>\<^sub>m bs_promises sv'"
proof (cases "bs_executed sv")
  case True
  with assms(2) show ?thesis by (simp add: discard_async_def)
next
  case False
  let ?sent = "map (\<lambda>c. (c, Resolved (Inl (Msg ''batch discarded'')))) (queued_channels (bs_state sv))"
  have "map fst ?sent = map fst (queue_pairs (bs_state sv))"
    by (simp add: queued_channels_pairs comp_def)
  then have "bs_promises sv \<subseteq>\<^sub>m bs_promises (settle ?sent
      (sv\<lparr>bs_executed := True, bs_state := take_queue (bs_state sv)\<rparr>))"
    by (intro told_once [OF assms(1)])
      (auto simp: inv_queue_distinct [OF assms(1)] simp del: map_map)
  with False assms(2) show ?thesis by (simp add: discard_async_def Let_def)
qed

lemma execute_told:
  assumes "sched_ok sch" and "execute_async fr cfg sch (sv, s) = (r, sv', s')" and "batch_inv ps sv"
  shows "bs_promises sv \<subseteq>\<^sub>m bs_promises sv'"
proof (cases "bs_executed sv")
  case True
  with assms(2) show ?thesis by (simp add: execute_async_def)
next
  case False
  from execute_async_effect [OF assms(1,2) this] show ?thesis
  proof
    assume "takes_queue (sv\<lparr>bs_executed := True\<rparr>) sv'"
    then obtain sent st where sent: "mset (map fst sent) = mset (map fst (queue_pairs (bs_state sv)))"
      "sv' = settle sent (sv\<lparr>bs_executed := True, bs_state := st\<rparr>)"
      by (auto simp: takes_queue_def)
    have "distinct (map fst sent)"
      using mset_eq_imp_distinct_iff [OF sent(1)] inv_queue_distinct(1) [OF assms(3)] by simp
    moreover have "set (map fst sent) \<subseteq> set (map fst (ps @ queue_pairs (bs_state sv)))"
      using mset_eq_setD [OF sent(1)] by simp
    ultimately show ?thesis unfolding sent(2) by (intro told_once [OF assms(3)]) simp_all
  qed simp
qed

text \<open>
  C4: An answer is final: no step of a batch (a new call, a command that enters the queue,
  an execution, a discard) ever changes what a channel was told, and two calls never share
  a channel or an index.
\<close>

theorem batch_answers_final:
  assumes "batch_reach fr cfg opts (ps, sv, s)" and "batch_step fr cfg (ps, sv, s) (ps', sv', s')"
  shows "bs_promises sv \<subseteq>\<^sub>m bs_promises sv' \<and>
    distinct (map fst (ps' @ queue_pairs (bs_state sv'))) \<and>
    distinct (map snd (ps' @ queue_pairs (bs_state sv')))"
proof -
  have inv: "batch_inv ps sv" using batch_reach_inv [OF assms(1)] by simp
  have "bs_promises sv \<subseteq>\<^sub>m bs_promises sv'"
    using assms(2)
    by (cases rule: batch_step.cases)
      (auto simp: reserve_def intro: enqueue_told [OF inv] discard_told [OF inv] execute_told inv)
  moreover have "batch_inv ps' sv'" by (rule batch_step_inv [OF assms(2) inv])
  ultimately show ?thesis by (simp add: batch_inv_def queue_ok_def)
qed

section \<open>After the first execution\<close>

lemma executed_step:
  assumes "batch_step fr cfg (ps, sv, s) (ps', sv', s')" and "bs_executed sv"
    and "d \<in> set (queue_pairs (bs_state sv))"
  shows "bs_executed sv' \<and> d \<in> set (queue_pairs (bs_state sv'))"
  using assms
  by (cases rule: batch_step.cases)
    (auto simp: reserve_def execute_async_def discard_async_def enqueue_def queue_pairs_def Let_def
      split: batch_state.splits if_splits prod.splits sum.splits)

text \<open>
  C28: A command that enters the queue after the batch was executed or discarded is never
  answered: the batch accepts it, every further execution is refused without touching the
  queue, and its caller waits for ever.
\<close>

theorem late_command_never_answered:
  assumes "batch_reach fr cfg opts (ps, sv, s)" and "bs_executed sv"
    and "(c, i) \<in> set (queue_pairs (bs_state sv))"
    and "(batch_step fr cfg)\<^sup>*\<^sup>* (ps, sv, s) (ps', sv', s')"
  shows "await_reply c sv' = None"
proof -
  have "batch_reach fr cfg opts t \<and> bs_executed (fst (snd t)) \<and>
      (c, i) \<in> set (queue_pairs (bs_state (fst (snd t))))"
    if "(batch_step fr cfg)\<^sup>*\<^sup>* (ps, sv, s) t" for t
    using that
  proof (induction rule: rtranclp_induct)
    case (step t u)
    then have "batch_reach fr cfg opts u" by (blast intro: reach_step)
    moreover obtain ps1 sv1 s1 ps2 sv2 s2 where tu: "t = (ps1, sv1, s1)" "u = (ps2, sv2, s2)"
      by (cases t; cases u)
    moreover have "bs_executed sv2 \<and> (c, i) \<in> set (queue_pairs (bs_state sv2))"
      using step tu by (intro executed_step [of fr cfg ps1 sv1 s1 ps2 sv2 s2]) simp_all
    ultimately show ?case by simp
  qed (use assms in simp)
  from this [OF assms(4)] have t: "batch_reach fr cfg opts (ps', sv', s')"
    "(c, i) \<in> set (queue_pairs (bs_state sv'))" by simp_all
  from batch_reach_inv [OF t(1)] have "batch_inv ps' sv'" by simp
  moreover have "c \<in> set (map fst (ps' @ queue_pairs (bs_state sv')))" using t(2) by force
  ultimately have "bs_promises sv' c = None" by (rule inv_waiting)
  then show ?thesis by (simp add: await_reply_def)
qed

end
