(* ===== verification/BatchNodes.thy ===== *)
theory BatchNodes
  imports BatchSpec
begin

text \<open>
  The functional behaviour of the steps of an in-memory batch: looking a node up with
  retries, grouping the commands by node, loading scripts, building a node's pipeline and
  distributing its replies; and that a batch's result does not depend on the scheduler.
\<close>

section \<open>Looking a node up\<close>

text \<open>The state after a number of pauses.\<close>

definition after_sleeps :: "'w fred \<Rightarrow> duration \<Rightarrow> nat \<Rightarrow> 'w \<Rightarrow> 'w" where
  "after_sleeps fr d n = (fr_sleep fr d) ^^ n"

lemma resolve_attempts_find:
  "resolve_attempts fr d sl n w =
     (case find (\<lambda>k. get_write_entry fr (after_sleeps fr d k w) sl \<noteq> None) [0..<Suc n] of
        Some k \<Rightarrow> (get_write_entry fr (after_sleeps fr d k w) sl, after_sleeps fr d k w)
      | None \<Rightarrow> (None, after_sleeps fr d n w))"
proof (induction n arbitrary: w)
  case 0
  show ?case by (auto simp: after_sleeps_def)
next
  case (Suc n)
  have upt: "[0..<Suc (Suc n)] = 0 # map Suc [0..<Suc n]"
    by (metis map_Suc_upt upt_conv_Cons zero_less_Suc)
  have shift: "after_sleeps fr d k (fr_sleep fr d w) = after_sleeps fr d (Suc k) w" for k
    by (simp add: after_sleeps_def funpow_swap1)
  have fm: "find P (map Suc xs) = map_option Suc (find (\<lambda>k. P (Suc k)) xs)" for P xs
    by (induction xs) auto
  show ?case
  proof (cases "get_write_entry fr w sl")
    case None
    have "after_sleeps fr d 0 w = w" by (simp add: after_sleeps_def)
    with None show ?thesis
      by (simp add: upt Suc shift fm del: upt_Suc split: option.split)
  next
    case (Some e)
    then show ?thesis by (simp add: upt after_sleeps_def del: upt_Suc)
  qed
qed

text \<open>
  A batch looks a slot up with retries: it takes the entry of the first attempt at
  which the routing table knows the slot, after one pause per failed attempt, and when
  even the last of the \<open>retry_attempts + 1\<close> attempts finds none it fails with that count.
\<close>

theorem resolve_entry_spec:
  "resolve_entry fr retries d sl w =
     (case find (\<lambda>k. get_write_entry fr (after_sleeps fr d k w) sl \<noteq> None) [0..<Suc (unat retries)] of
        Some k \<Rightarrow> (Inr (the (get_write_entry fr (after_sleeps fr d k w) sl)), after_sleeps fr d k w)
      | None \<Rightarrow>
          (Inl (Msg (''no server found for slot '' @ show_nat (unat sl) @ '' after ''
                @ show_nat (unat (retries + 1)) @ '' attempts'')),
           after_sleeps fr d (unat retries) w))"
proof (cases "find (\<lambda>k. get_write_entry fr (after_sleeps fr d k w) sl \<noteq> None) [0..<Suc (unat retries)]")
  case None
  then show ?thesis unfolding resolve_entry_def resolve_attempts_find by simp
next
  case (Some k)
  then have "get_write_entry fr (after_sleeps fr d k w) sl \<noteq> None"
    by (auto simp: find_Some_iff simp del: upt_Suc)
  with Some show ?thesis unfolding resolve_entry_def resolve_attempts_find by auto
qed

lemma resolve_entry_known:
  "get_write_entry fr w sl = Some n \<Longrightarrow> resolve_entry fr retries d sl w = (Inr n, w)"
  by (cases "unat retries") (simp_all add: resolve_entry_def)

section \<open>Grouping\<close>

text \<open>The primary a command is sent to.\<close>

definition command_primary :: "'w fred \<Rightarrow> 'w \<Rightarrow> batch_command_data \<Rightarrow> server option" where
  "command_primary fr w d = map_option primary (get_write_entry fr w (slot_of fr (bc_cmd d)))"

text \<open>A node map that holds exactly the commands of a list, each at its primary.\<close>

definition grouped :: "'w fred \<Rightarrow> 'w \<Rightarrow> batch_command_data list \<Rightarrow> node_map \<Rightarrow> bool" where
  "grouped fr w ds nm \<longleftrightarrow>
     distinct (map (\<lambda>(n, e). primary n) nm) \<and>
     (\<forall>(n, e) \<in> set nm.
        be_commands e = filter (\<lambda>d. command_primary fr w d = Some (primary n)) ds \<and>
        be_commands e \<noteq> [] \<and>
        (be_read_only e \<longleftrightarrow> (\<forall>d \<in> set (be_commands e). is_read_only (bc_cmd d)))) \<and>
     command_primary fr w ` set ds = (\<lambda>(n, e). Some (primary n)) ` set nm"

lemma node_insert_primaries:
  "(\<lambda>(n, e). primary n) ` set (node_insert n d nm) = insert (primary n) ((\<lambda>(n, e). primary n) ` set nm)"
  by (induction n d nm rule: node_insert.induct) (auto simp: mse_eq_primary)

lemma node_insert_distinct:
  "distinct (map (\<lambda>(n, e). primary n) nm) \<Longrightarrow>
   distinct (map (\<lambda>(n, e). primary n) (node_insert n d nm))"
proof (induction n d nm rule: node_insert.induct)
  case (2 n d m e nm)
  then show ?case using node_insert_primaries [of n d nm] by (auto simp: mse_eq_primary)
qed simp

text \<open>What an entry of the new map is: a new one, the extended one or an old one.\<close>

lemma node_insert_entry:
  assumes "distinct (map (\<lambda>(n, e). primary n) nm)" and "(m, e) \<in> set (node_insert n d nm)"
  shows "primary m = primary n \<and> e = add_command d batch_entry_new \<and>
      primary n \<notin> (\<lambda>(n, e). primary n) ` set nm \<or>
    (\<exists>e0. primary m = primary n \<and> (m, e0) \<in> set nm \<and> e = add_command d e0) \<or>
    primary m \<noteq> primary n \<and> (m, e) \<in> set nm"
  using assms
proof (induction n d nm rule: node_insert.induct)
  case (2 n d m' e' nm)
  then show ?case by (auto simp: mse_eq_primary image_iff split: if_splits)
qed simp

lemma grouped_insert:
  assumes g: "grouped fr w ds nm" and n: "get_write_entry fr w (slot_of fr (bc_cmd d)) = Some n"
  shows "grouped fr w (ds @ [d]) (node_insert n d nm)"
proof -
  have p: "command_primary fr w d = Some (primary n)" by (simp add: command_primary_def n)
  have dist: "distinct (map (\<lambda>(n, e). primary n) nm)" using g by (simp add: grouped_def)
  have imp: "Some ` (\<lambda>(n, e). primary n) ` X = (\<lambda>(n, e). Some (primary n)) ` X" for X :: "(master_slave_entry \<times> batch_entry) set"
    by (auto simp: image_image case_prod_unfold)
  have prims: "command_primary fr w ` set (ds @ [d]) = (\<lambda>(n, e). Some (primary n)) ` set (node_insert n d nm)"
    using g p node_insert_primaries [of n d nm] unfolding imp [symmetric] by (auto simp: grouped_def imp)
  have "be_commands e = filter (\<lambda>x. command_primary fr w x = Some (primary m)) (ds @ [d]) \<and>
      be_commands e \<noteq> [] \<and> (be_read_only e \<longleftrightarrow> (\<forall>x \<in> set (be_commands e). is_read_only (bc_cmd x)))"
    if "(m, e) \<in> set (node_insert n d nm)" for m e
    using node_insert_entry [OF dist that]
  proof (elim disjE exE conjE)
    assume new: "primary m = primary n" "e = add_command d batch_entry_new"
      "primary n \<notin> (\<lambda>(n, e). primary n) ` set nm"
    then have "Some (primary n) \<notin> command_primary fr w ` set ds"
      using g by (auto simp: grouped_def)
    then have "filter (\<lambda>x. command_primary fr w x = Some (primary n)) ds = []"
      by (force simp: filter_empty_conv)
    with new p show ?thesis by simp
  next
    fix e0 assume "primary m = primary n" "(m, e0) \<in> set nm" "e = add_command d e0"
    with g p show ?thesis by (auto simp: grouped_def)
  next
    assume "primary m \<noteq> primary n" "(m, e) \<in> set nm"
    with g p show ?thesis by (auto simp: grouped_def)
  qed
  with dist prims node_insert_distinct [OF dist, of n d] show ?thesis by (auto simp: grouped_def)
qed

lemma group_grouped:
  assumes "grouped fr w ds0 nm" and "\<And>d. d \<in> set ds \<Longrightarrow> command_primary fr w d \<noteq> None"
  shows "\<exists>nm'. group_by_node fr retries dl ds nm w = (Inr nm', w) \<and> grouped fr w (ds0 @ ds) nm'"
  using assms
proof (induction ds arbitrary: ds0 nm)
  case (Cons d ds)
  then obtain n where n: "get_write_entry fr w (slot_of fr (bc_cmd d)) = Some n"
    by (fastforce simp: command_primary_def)
  from Cons.IH [OF grouped_insert [OF Cons.prems(1) n]] Cons.prems(2) resolve_entry_known [OF n]
  show ?case by simp
qed simp

text \<open>
  C24: While the routing table knows the slot of every command, grouping neither fails nor
  waits and partitions the batch: one entry per primary, holding exactly the commands that
  are routed to it in the order in which they were queued, marked read-only when all of
  them are, and no entry for a node without commands.
\<close>

theorem group_by_node_spec:
  assumes "\<forall>d \<in> set ds. command_primary fr w d \<noteq> None"
  shows "\<exists>nm. group_by_node fr retries dl ds [] w = (Inr nm, w) \<and> grouped fr w ds nm"
  using group_grouped [of fr w "[]" "[]" ds] assms by (simp add: grouped_def)

section \<open>The pipeline of a node\<close>

definition accepts_all :: "'w fred \<Rightarrow> bool" where
  "accepts_all fr \<longleftrightarrow> (\<forall>q. fr_push fr q = None)"

lemma push_accepted [simp]: "accepts_all fr \<Longrightarrow> push fr q buf = (Inr Queued, buf @ [q])"
  by (simp add: push_def accepts_all_def)

lemma push_commands_accepted:
  "accepts_all fr \<Longrightarrow> push_commands fr cs buf = (Inr (), buf @ map pipeline_request cs)"
  by (induction cs arbitrary: buf) (simp_all add: execute_on_request)

text \<open>The requests of a node's pipeline, in order.\<close>

definition pipeline_requests :: "batch_options \<Rightarrow> bool \<Rightarrow> u16 \<Rightarrow> command list \<Rightarrow> request list" where
  "pipeline_requests opts atomic slot cs =
     (if atomic then [QCustom ''MULTI'' (Custom slot) []] else []) @ map pipeline_request cs @
     (if atomic then [QCustom ''EXEC'' (Custom slot) []] else []) @
     (if syncs opts then [wait_request opts slot] else [])"

lemma build_pipeline_requests:
  "accepts_all fr \<Longrightarrow>
   build_pipeline fr opts atomic slot cs [] = (Inr (), pipeline_requests opts atomic slot cs)"
  by (simp add: build_pipeline_def pipeline_requests_def push_commands_accepted pbind_apply)

section \<open>The replies of a node\<close>

text \<open>The reply list of a pipeline, cut at its parts.\<close>

lemma pop_snoc [simp]: "pop (xs @ [x]) = (Some x, xs)"
  by (simp add: pop_def)

lemma pop_snoc2 [simp]: "pop (xs @ [x, y]) = (Some y, xs @ [x])"
  by (simp add: pop_def butlast_append)

lemma send_all_zip:
  "length rs = length cs \<Longrightarrow> send_all cs rs = zip cs (map Resolved rs)"
  by (induction cs rs rule: send_all.induct) simp_all

text \<open>
  A node of a batch that is not atomic answers its commands one by one: the pipeline
  holds their requests in queue order and then the wait for the replicas, the caller of the
  \<open>k\<close>-th command gets the \<open>k\<close>-th reply, an error reply reaches its caller as a successful
  null value, and the last reply alone decides the number of synced replicas.
\<close>

theorem node_task_plain:
  fixes e :: batch_entry
  assumes "accepts_all fr" and "\<not> bo_skip_result opts"
    and "length rs = length (be_commands e)"
    and "replies n (use_replica cfg False e)
        (pipeline_requests opts False (slot_or_0 (mse_slot n)) (map bc_cmd (be_commands e))) =
      rs @ (if syncs opts then [x] else [])"
  shows "node_task fr cfg opts False replies (n, e) =
    (zip (map bc_tx (be_commands e)) (map (Resolved \<circ> Inr \<circ> value_or_null) rs),
     Inr (if syncs opts then extract_synced_slaves (Some x) else 0,
          zip (map bc_index (be_commands e)) (map value_or_null rs)))"
  using assms
  by (simp add: node_task_def build_pipeline_requests handle_replies_def Let_def send_all_zip comp_def)

text \<open>The outcomes of a transaction by its \<open>EXEC\<close> reply.\<close>

fun exec_outcomes :: "(err + rvalue) \<Rightarrow> nat \<Rightarrow> outcome list" where
  "exec_outcomes (Inr (Array vs)) n =
     map (Resolved \<circ> Inr) (take n vs) @ replicate (n - length vs) Dropped"
| "exec_outcomes (Inr Null) n = replicate n (Resolved (Inl exec_nil))"
| "exec_outcomes (Inr v) n = replicate n Dropped"
| "exec_outcomes (Inl e) n = replicate n (Resolved (Inl (Msg (err_string e))))"

lemma zip_replicate_map: "zip cs (replicate (length cs) x) = map (\<lambda>c. (c, x)) cs"
  by (induction cs) simp_all

lemma send_all_outcomes:
  "send_all cs (map Inr vs) =
     zip cs (map (Resolved \<circ> Inr) (take (length cs) vs) @ replicate (length cs - length vs) Dropped)"
proof (induction cs arbitrary: vs)
  case (Cons c cs)
  show ?case
  proof (cases vs)
    case Nil
    then show ?thesis using Cons.IH [of "[]"] by simp
  next
    case (Cons v us)
    with Cons.IH [of us] show ?thesis by simp
  qed
qed simp

lemma distribute_outcomes:
  "fst (distribute_exec_results fr (Some r) cs) = zip cs (exec_outcomes r (length cs))"
  by (cases "(r, length cs)" rule: exec_outcomes.cases)
    (simp_all add: distribute_exec_results_def send_all_outcomes send_same_def drop_all_def
      zip_replicate_map)

lemma node_task_atomic_kept:
  fixes e :: batch_entry
  assumes "accepts_all fr" and "\<not> bo_skip_result opts"
    and "replies n False
        (pipeline_requests opts True (slot_or_0 (mse_slot n)) (map bc_cmd (be_commands e))) =
      rs @ [r] @ (if syncs opts then [x] else [])"
  shows "fst (node_task fr cfg opts True replies (n, e)) =
      zip (map bc_tx (be_commands e)) (exec_outcomes r (length (be_commands e))) \<and>
    ((\<exists>er. snd (node_task fr cfg opts True replies (n, e)) = Inl er) \<longleftrightarrow>
      (\<exists>v. r = Inr v \<and> v \<noteq> Null \<and> (\<forall>vs. v \<noteq> Array vs)))"
proof -
  let ?cs = "map bc_tx (be_commands e)"
  have "\<not> use_replica cfg True e" by (simp add: use_replica_def)
  moreover obtain sent y where d: "distribute_exec_results fr (Some r) ?cs = (sent, y)" by fastforce
  ultimately have t: "node_task fr cfg opts True replies (n, e) =
    (case y of Inl er \<Rightarrow> (sent, Inl er)
     | Inr u \<Rightarrow> (sent, Inr (if syncs opts then extract_synced_slaves (Some x) else 0,
            collect_exec_indexed (Some r) (map bc_index (be_commands e)))))"
    using assms
    by (cases "syncs opts")
      (simp_all add: node_task_def build_pipeline_requests handle_replies_def Let_def)
  have "fst (node_task fr cfg opts True replies (n, e)) = fst (distribute_exec_results fr (Some r) ?cs)"
    "(\<exists>er. snd (node_task fr cfg opts True replies (n, e)) = Inl er) \<longleftrightarrow>
      (\<exists>er. snd (distribute_exec_results fr (Some r) ?cs) = Inl er)"
    unfolding t d by (simp_all split: sum.split)
  moreover have "(\<exists>er. snd (distribute_exec_results fr (Some r) ?cs) = Inl er) \<longleftrightarrow>
      (\<exists>v. r = Inr v \<and> v \<noteq> Null \<and> (\<forall>vs. v \<noteq> Array vs))"
    by (auto simp: distribute_exec_results_def split: sum.split rvalue.split)
  ultimately show ?thesis using distribute_outcomes [of fr r ?cs] by simp
qed

lemma node_task_skipped:
  assumes "accepts_all fr" and "bo_skip_result opts"
  shows "\<exists>k. node_task fr cfg opts atomic replies (n, e) =
    (map (\<lambda>d. (bc_tx d, Resolved (Inr Null))) (be_commands e), Inr (k, []))"
  using assms
  by (simp add: node_task_def build_pipeline_requests handle_replies_def send_same_def Let_def comp_def
      split: prod.split)

text \<open>
  C25: An atomic node runs its commands as one transaction: \<open>MULTI\<close>, the commands, \<open>EXEC\<close>
  and the wait, always on a primary. Unless the batch skips its results, the \<open>EXEC\<close> reply
  decides every call: an array gives
  each command its own element, nil tells every caller that the transaction was aborted,
  an error tells it to every caller, and any other reply fails the task. A batch that
  skips its results tells every caller null and never fails the task, whatever \<open>EXEC\<close> answered.
\<close>

theorem node_task_atomic:
  fixes e :: batch_entry
  assumes "accepts_all fr"
    and "replies n False
        (pipeline_requests opts True (slot_or_0 (mse_slot n)) (map bc_cmd (be_commands e))) =
      rs @ [r] @ (if syncs opts then [x] else [])"
  shows "fst (node_task fr cfg opts True replies (n, e)) =
      zip (map bc_tx (be_commands e))
        (if bo_skip_result opts then replicate (length (be_commands e)) (Resolved (Inr Null))
         else exec_outcomes r (length (be_commands e))) \<and>
    ((\<exists>er. snd (node_task fr cfg opts True replies (n, e)) = Inl er) \<longleftrightarrow>
      \<not> bo_skip_result opts \<and> (\<exists>v. r = Inr v \<and> v \<noteq> Null \<and> (\<forall>vs. v \<noteq> Array vs)))"
proof (cases "bo_skip_result opts")
  case True
  from node_task_skipped [OF assms(1) True] obtain k where t: "node_task fr cfg opts True replies (n, e) =
      (map (\<lambda>d. (bc_tx d, Resolved (Inr Null))) (be_commands e), Inr (k, []))" by blast
  have "map (\<lambda>d. (bc_tx d, Resolved (Inr Null))) ds =
      zip (map bc_tx ds) (replicate (length ds) (Resolved (Inr Null)))" for ds :: "batch_command_data list"
    by (induction ds) simp_all
  with t True show ?thesis by simp
next
  case False
  with node_task_atomic_kept [where replies = replies, OF assms(1) False assms(2)] show ?thesis by simp
qed

section \<open>Scripts\<close>

fun script_of :: "command \<Rightarrow> string option" where
  "script_of (Eval x ks vs) = Some x"
| "script_of c = None"

definition eval_scripts :: "batch_command_data list \<Rightarrow> string list" where
  "eval_scripts ds = List.map_filter (\<lambda>d. script_of (bc_cmd d)) ds"

fun digest_command :: "'w fred \<Rightarrow> command \<Rightarrow> command" where
  "digest_command fr (Eval x ks vs) = EvalSha (fr_sha1 fr x) ks vs"
| "digest_command fr c = c"

definition use_digest :: "'w fred \<Rightarrow> batch_command_data \<Rightarrow> batch_command_data" where
  "use_digest fr d = d\<lparr>bc_cmd := digest_command fr (bc_cmd d)\<rparr>"

lemma eval_scripts_Cons [simp]:
  "eval_scripts (d # ds) =
     (case script_of (bc_cmd d) of None \<Rightarrow> eval_scripts ds | Some x \<Rightarrow> x # eval_scripts ds)"
  by (simp add: eval_scripts_def List.map_filter_simps split: option.split)

lemma eval_scripts_Nil [simp]: "eval_scripts [] = []"
  by (simp add: eval_scripts_def List.map_filter_simps)

lemma calc_sha_eq:
  "sha_cache_ok fr s \<Longrightarrow> calc_sha fr x s = (v, t) \<Longrightarrow>
   v = fr_sha1 fr x \<and> sha_cache_ok fr t \<and> loaded_shas t = loaded_shas s \<and> remote t = remote s"
  using calc_sha_value [of fr s x] calc_sha_ok [of fr s x] calc_sha_frame [of fr x s]
  by (simp add: loaded_shas_def fun_eq_iff)

lemma use_digests_eq:
  "sha_cache_ok fr s \<Longrightarrow> use_digests fr ds s = (ds', t) \<Longrightarrow>
   ds' = map (use_digest fr) ds \<and> sha_cache_ok fr t \<and> loaded_shas t = loaded_shas s"
proof (induction ds arbitrary: s ds' t)
  case (Cons d ds)
  show ?case
  proof (cases "script_of (bc_cmd d)")
    case None
    obtain ds1 u where u: "use_digests fr ds s = (ds1, u)" by fastforce
    have "ds' = d # ds1 \<and> t = u" "digest_command fr (bc_cmd d) = bc_cmd d"
      using Cons.prems(2) None u by (cases "bc_cmd d"; simp)+
    with Cons.IH [OF Cons.prems(1) u] show ?thesis by (simp add: use_digest_def)
  next
    case (Some x)
    then obtain ks vs where x: "bc_cmd d = Eval x ks vs" by (cases "bc_cmd d") auto
    obtain v s1 where v: "calc_sha fr x s = (v, s1)" by fastforce
    obtain ds1 u where u: "use_digests fr ds s1 = (ds1, u)" by fastforce
    note sha = calc_sha_eq [OF Cons.prems(1) v]
    with Cons.IH [OF _ u] Cons.prems(2) x v u show ?thesis by (auto simp: use_digest_def)
  qed
qed simp

text \<open>The scripts to load: those in use that the node is not known to have, each once.\<close>

lemma scripts_to_load_eq:
  "sha_cache_ok fr s \<Longrightarrow> distinct acc \<Longrightarrow> scripts_to_load fr srv ds acc s = (todo, t) \<Longrightarrow>
   distinct todo \<and>
   set todo = set acc \<union> {x \<in> set (eval_scripts ds). fr_sha1 fr x \<notin> loaded_shas s srv} \<and>
   sha_cache_ok fr t \<and> loaded_shas t = loaded_shas s \<and> remote t = remote s"
proof (induction ds arbitrary: s acc)
  case (Cons d ds)
  show ?case
  proof (cases "script_of (bc_cmd d)")
    case None
    have "scripts_to_load fr srv ds acc s = (todo, t)"
      using Cons.prems(3) None by (cases "bc_cmd d") simp_all
    with Cons.IH [OF Cons.prems(1,2)] None show ?thesis by simp
  next
    case (Some x)
    then obtain ks vs where x: "bc_cmd d = Eval x ks vs" by (cases "bc_cmd d") auto
    obtain b s1 where b: "is_cached fr srv x s = (b, s1)" by fastforce
    let ?acc = "if \<not> b \<and> x \<notin> set acc then acc @ [x] else acc"
    have "scripts_to_load fr srv ds ?acc s1 = (todo, t)" using Cons.prems(3) x b by simp
    from Cons.IH [OF _ _ this] is_cached_iff [OF Cons.prems(1) b] Cons.prems(2) Some
    show ?thesis by (auto split: if_splits)
  qed
qed simp

lemma load_node_spec:
  assumes ok: "sha_cache_ok fr s" and load: "load_node fr n e s = (Inr e', t)"
  shows "e' = e\<lparr>be_commands := map (use_digest fr) (be_commands e)\<rparr> \<and> sha_cache_ok fr t \<and>
    loaded_shas t = (loaded_shas s)(get_client n :=
      loaded_shas s (get_client n) \<union> fr_sha1 fr ` set (eval_scripts (be_commands e)))"
proof -
  let ?srv = "get_client n"
  obtain todo s1 where todo: "scripts_to_load fr ?srv (be_commands e) [] s = (todo, s1)" by fastforce
  note sc = scripts_to_load_eq [OF ok distinct.simps(1) [THEN iffD2, OF TrueI] todo]
  obtain r s2 where r: "(if todo = [] then (Inr (), s1)
      else on_remote (pbind (pick (fr_pick fr)) (\<lambda>i. load_each fr i (slot_or_0 (mse_slot n)) todo)) s1)
      = (r, s2)" by fastforce
  let ?s3 = "if todo = [] then s2 else cache_scripts fr ?srv todo s2"
  obtain ds s4 where ds: "use_digests fr (be_commands e) ?s3 = (ds, s4)" by fastforce
  have r': "r = Inr ()" "e' = e\<lparr>be_commands := ds\<rparr>" "t = s4"
    using load todo r ds by (auto simp: load_node_def split: sum.splits)
  have s2: "sha_cache_ok fr s2" "loaded_shas s2 = loaded_shas s1"
    using r sc by (auto simp: on_remote_apply sha_cache_ok_def loaded_shas_def fun_eq_iff split: if_splits)
  have s3: "sha_cache_ok fr ?s3"
    "loaded_shas ?s3 = (loaded_shas s)(?srv := loaded_shas s ?srv \<union> fr_sha1 fr ` set todo)"
    using cache_scripts_props(1,2) [OF s2(1), of ?srv todo] s2 sc
    by (cases "todo = []", simp_all add: fun_upd_idem)+
  have "loaded_shas s ?srv \<union> fr_sha1 fr ` set todo =
      loaded_shas s ?srv \<union> fr_sha1 fr ` set (eval_scripts (be_commands e))"
    using sc by auto
  with use_digests_eq [OF s3(1) ds] s3(2) r' show ?thesis by simp
qed

lemma load_nodes_spec:
  assumes "sha_cache_ok fr s" and "load_nodes fr nm s = (Inr nm', t)"
  shows "nm' = map (\<lambda>(n, e). (n, e\<lparr>be_commands := map (use_digest fr) (be_commands e)\<rparr>)) nm \<and>
    sha_cache_ok fr t \<and> (\<forall>srv. loaded_shas s srv \<subseteq> loaded_shas t srv) \<and>
    (\<forall>(n, e) \<in> set nm. fr_sha1 fr ` set (eval_scripts (be_commands e)) \<subseteq> loaded_shas t (get_client n))"
  using assms
proof (induction nm arbitrary: s nm')
  case (Cons ne nm)
  obtain n e where ne: "ne = (n, e)" by (cases ne)
  with Cons.prems(2) obtain e1 s1 nm1 where e1: "load_node fr n e s = (Inr e1, s1)"
    and nm1: "load_nodes fr nm s1 = (Inr nm1, t)" "nm' = (n, e1) # nm1"
    by (auto elim!: pbind_InrE)
  note one = load_node_spec [OF Cons.prems(1) e1]
  from one have ok: "sha_cache_ok fr s1" by blast
  note rest = Cons.IH [OF ok nm1(1)]
  have rest': "\<And>srv. loaded_shas s1 srv \<subseteq> loaded_shas t srv" "sha_cache_ok fr t"
    "nm1 = map (\<lambda>(n, e). (n, e\<lparr>be_commands := map (use_digest fr) (be_commands e)\<rparr>)) nm"
    "\<forall>(n, e) \<in> set nm. fr_sha1 fr ` set (eval_scripts (be_commands e)) \<subseteq> loaded_shas t (get_client n)"
    using rest by blast+
  have mono: "loaded_shas s srv \<subseteq> loaded_shas t srv" for srv
    using one rest'(1) [of srv] by auto
  have "fr_sha1 fr ` set (eval_scripts (be_commands e)) \<subseteq> loaded_shas s1 (get_client n)"
    using one by simp
  with rest'(1) have "fr_sha1 fr ` set (eval_scripts (be_commands e)) \<subseteq> loaded_shas t (get_client n)"
    by blast
  with rest' have all: "\<forall>(n, e) \<in> set (ne # nm).
      fr_sha1 fr ` set (eval_scripts (be_commands e)) \<subseteq> loaded_shas t (get_client n)"
    by (simp add: ne del: image_subset_iff)
  have "nm' = map (\<lambda>(n, e). (n, e\<lparr>be_commands := map (use_digest fr) (be_commands e)\<rparr>)) (ne # nm)"
    using one nm1(2) rest'(3) ne by simp
  with all mono rest'(2) show ?case by blast
qed simp

text \<open>
  C22: When the scripts of a batch were loaded, no pipeline holds a script text any more:
  each \<open>EVAL\<close> became an \<open>EVALSHA\<close> with the digest of its script and the same keys and
  arguments, every other command is as it was, and the caches record every digest that a
  node's pipeline uses as loaded on that node.
\<close>

theorem load_scripts_spec:
  assumes "cf_use_script_cache cfg" and "sha_cache_ok fr s"
    and "load_scripts fr cfg nm s = (Inr nm', t)"
  shows "nm' = map (\<lambda>(n, e). (n, e\<lparr>be_commands := map (use_digest fr) (be_commands e)\<rparr>)) nm \<and>
    (\<forall>(n, e) \<in> set nm. fr_sha1 fr ` set (eval_scripts (be_commands e)) \<subseteq> loaded_shas t (get_client n))"
proof -
  have "load_nodes fr nm s = (Inr nm', t)" using assms(1,3) by (simp add: load_scripts_def)
  from load_nodes_spec [OF assms(2) this] show ?thesis by (intro conjI) (elim conjE, assumption)+
qed

section \<open>Independence from the scheduler\<close>

lemma join_ok_tasks:
  "join_tasks fin ts n acc = (sent, Inr (k, idx)) \<Longrightarrow> t \<in> set ts \<Longrightarrow> \<exists>p. snd (snd t) = Inr p"
proof (induction fin ts n acc arbitrary: sent k idx rule: join_tasks.induct)
  case (2 fin m s r ts n acc)
  then obtain k' i where r: "r = Inr (k', i)" by (cases r) (auto split: prod.splits)
  obtain s' where "join_tasks fin ts (n + k') (acc @ i) = (s', Inr (k, idx))"
    using 2(2) r by (auto split: prod.splits)
  from 2(1) [OF r refl this] 2(3) r show ?case by auto
qed simp

lemma join_all_ok:
  "(\<And>t. t \<in> set ts \<Longrightarrow> \<exists>p. snd (snd t) = Inr p) \<Longrightarrow>
   join_tasks fin ts n acc =
     (concat (map (\<lambda>t. fst (snd t)) ts),
      Inr (n + sum_list (map (\<lambda>t. fst (projr (snd (snd t)))) ts),
           acc @ concat (map (\<lambda>t. snd (projr (snd (snd t)))) ts)))"
proof (induction fin ts n acc rule: join_tasks.induct)
  case (2 fin m s r ts n acc)
  then obtain k i where r: "r = Inr (k, i)" by fastforce
  with 2 show ?case by (simp add: add.assoc)
qed simp

lemma sum_list_perm:
  "mset xs = mset ys \<Longrightarrow> sum_list (map f xs) = sum_list (map f ys)" for f :: "'a \<Rightarrow> 'b::comm_monoid_add"
  by (metis mset_map sum_mset_sum_list)

lemma settle_perm:
  assumes "mset os = mset os'" and d: "distinct (map fst os)"
  shows "settle os sv = settle os' sv"
proof -
  have d': "distinct (map fst os')"
    using d mset_eq_imp_distinct_iff [of "map fst os" "map fst os'"] assms(1) by simp
  have "map_of os = map_of os'"
    using map_of_inject_set [OF d d'] mset_eq_setD [OF assms(1)] by simp
  then have "bs_promises (settle os sv) = bs_promises (settle os' sv)"
    by (simp add: settle_promises d d')
  then show ?thesis by (simp add: settle_def)
qed

lemma agrees_indexes:
  assumes "agrees ps sent idx" and "distinct (map snd ps)"
  shows "distinct (map fst idx)"
proof -
  let ?F = "\<lambda>((c, i), r). map_option (Pair i) (outcome_value r)"
  obtain L :: "((nat \<times> nat) \<times> outcome) list"
    where L: "map fst L = ps" "idx = List.map_filter ?F L"
    using assms(1) unfolding agrees_def by blast
  have "map fst (List.map_filter ?F L) = map (snd \<circ> fst) (filter (\<lambda>x. ?F x \<noteq> None) L)"
    by (induction L) (auto simp: List.map_filter_simps split: option.split)
  moreover have "distinct (map (snd \<circ> fst) L)" using assms(2) L(1) by (metis map_map)
  ultimately show ?thesis using L(2) distinct_map_filter by metis
qed

lemma skipped_task:
  "bo_skip_result opts \<Longrightarrow> node_task fr cfg opts atomic replies ne = (sent, Inr (k, idx)) \<Longrightarrow> idx = []"
  by (cases ne) (auto simp: node_task_def handle_replies_def Let_def split: prod.splits sum.splits)

text \<open>Two runs of the same tasks: the same messages, values and sum, in another order.\<close>

lemma run_tasks_perm:
  assumes sch: "sched_ok sch1" "sched_ok sch2" and rep: "sc_replies sch2 = sc_replies sch1"
    and nm: "mset nm1 = mset nm2"
    and run: "run_tasks fr cfg opts sch1 atomic w nm1 = (sent1, Inr (k, idx1))"
  shows "\<exists>sent2 idx2. run_tasks fr cfg opts sch2 atomic w nm2 = (sent2, Inr (k, idx2)) \<and>
    mset sent2 = mset sent1 \<and> mset idx2 = mset idx1"
proof -
  let ?T = "\<lambda>ne. (fst ne, node_task fr cfg opts atomic (sc_replies sch1 w) ne)"
  let ?ts1 = "sc_order sch1 (map ?T nm1)" and ?ts2 = "sc_order sch2 (map ?T nm2)"
  have perm: "mset ?ts1 = mset ?ts2" using sch nm by (simp add: sched_ok_def)
  have ok1: "\<exists>p. snd (snd t) = Inr p" if "t \<in> set ?ts1" for t
    using run that unfolding run_tasks_def by (rule join_ok_tasks)
  have ok2: "\<exists>p. snd (snd t) = Inr p" if "t \<in> set ?ts2" for t
    using ok1 that by (simp only: mset_eq_setD [OF perm])
  have j1: "join_tasks (sc_finished sch1) ?ts1 0 [] =
      (concat (map (\<lambda>t. fst (snd t)) ?ts1),
       Inr (sum_list (map (\<lambda>t. fst (projr (snd (snd t)))) ?ts1),
            concat (map (\<lambda>t. snd (projr (snd (snd t)))) ?ts1)))"
    using join_all_ok [of ?ts1 "sc_finished sch1" 0 "[]"] ok1 by (simp only: add_0 append_Nil)
  have j2: "join_tasks (sc_finished sch2) ?ts2 0 [] =
      (concat (map (\<lambda>t. fst (snd t)) ?ts2),
       Inr (sum_list (map (\<lambda>t. fst (projr (snd (snd t)))) ?ts2),
            concat (map (\<lambda>t. snd (projr (snd (snd t)))) ?ts2)))"
    using join_all_ok [of ?ts2 "sc_finished sch2" 0 "[]"] ok2 by (simp only: add_0 append_Nil)
  have "sent1 = concat (map (\<lambda>t. fst (snd t)) ?ts1)"
    "k = sum_list (map (\<lambda>t. fst (projr (snd (snd t)))) ?ts1)"
    "idx1 = concat (map (\<lambda>t. snd (projr (snd (snd t)))) ?ts1)"
    using run unfolding run_tasks_def j1 by (simp_all only: prod.inject sum.inject)
  moreover have "run_tasks fr cfg opts sch2 atomic w nm2 = join_tasks (sc_finished sch2) ?ts2 0 []"
    by (simp only: run_tasks_def rep)
  ultimately show ?thesis
    using mset_concat_map_perm [OF perm [symmetric], of "\<lambda>t. fst (snd t)"]
      mset_concat_map_perm [OF perm [symmetric], of "\<lambda>t. snd (projr (snd (snd t)))"]
      sum_list_perm [OF perm [symmetric], of "\<lambda>t. fst (projr (snd (snd t)))"]
    by (simp only: j2) blast
qed

lemma run_tasks_indexes:
  assumes sch: "sched_ok sch" and run: "run_tasks fr cfg opts sch atomic w nm = (sent, Inr (k, idx))"
    and d: "distinct (map fst (node_pairs nm))" "distinct (map snd (node_pairs nm))"
  shows "distinct (map fst idx)"
proof (cases "bo_skip_result opts")
  case False
  from run_tasks_agrees [OF sch d(1) False run]
  obtain ps where ps: "mset ps = mset (node_pairs nm)" "agrees ps sent idx" by blast
  have "distinct (map snd ps)"
    using d(2) ps(1) mset_eq_imp_distinct_iff [of "map snd ps" "map snd (node_pairs nm)"] by simp
  with ps(2) show ?thesis by (rule agrees_indexes)
next
  case True
  let ?ts = "sc_order sch (map (\<lambda>ne. (fst ne, node_task fr cfg opts atomic (sc_replies sch w) ne)) nm)"
  have perm: "mset ?ts = mset (map (\<lambda>ne. (fst ne, node_task fr cfg opts atomic (sc_replies sch w) ne)) nm)"
    using sch by (simp add: sched_ok_def)
  have ok: "\<exists>p. snd (snd t) = Inr p" if "t \<in> set ?ts" for t
    using run that unfolding run_tasks_def by (rule join_ok_tasks)
  have nil: "snd (projr (snd (snd t))) = []" if t: "t \<in> set ?ts" for t
  proof -
    have "t \<in> (\<lambda>ne. (fst ne, node_task fr cfg opts atomic (sc_replies sch w) ne)) ` set nm"
      using t by (simp only: mset_eq_setD [OF perm] set_map)
    then obtain ne where "snd t = node_task fr cfg opts atomic (sc_replies sch w) ne" by auto
    moreover obtain p where "snd (snd t) = Inr p" using ok [OF t] by blast
    ultimately show ?thesis
      using skipped_task [OF True, of fr cfg atomic "sc_replies sch w" ne "fst (snd t)" "fst p" "snd p"]
      by (metis prod.collapse sum.sel(2))
  qed
  have "join_tasks (sc_finished sch) ?ts 0 [] =
      (concat (map (\<lambda>t. fst (snd t)) ?ts),
       Inr (sum_list (map (\<lambda>t. fst (projr (snd (snd t)))) ?ts),
            concat (map (\<lambda>t. snd (projr (snd (snd t)))) ?ts)))"
    using join_all_ok [of ?ts "sc_finished sch" 0 "[]"] ok by (simp only: add_0 append_Nil)
  with run have "idx = concat (map (\<lambda>t. snd (projr (snd (snd t)))) ?ts)"
    unfolding run_tasks_def by (simp only: prod.inject sum.inject)
  with nil have "idx = []" by (simp only: concat_eq_Nil_conv set_map) blast
  then show ?thesis by simp
qed

lemma batch_result_perm:
  assumes "mset idx2 = mset idx1" and "distinct (map fst idx1)"
  shows "batch_result_new (map snd (sort_key fst idx2)) k = batch_result_new (map snd (sort_key fst idx1)) k"
  using sort_key_perm [of idx1 idx2 fst] assms by simp

lemma execute_in_memory_schedules:
  assumes inv: "batch_inv ps sv" and cache: "\<not> cf_use_script_cache cfg"
    and sch: "sched_ok sch1" "sched_ok sch2" and rep: "sc_replies sch2 = sc_replies sch1"
    and eff: "sc_effect sch2 = sc_effect sch1"
    and exec: "execute_in_memory fr cfg sch1 atomic (sv, s) = (Inr r, sv', s')"
  shows "execute_in_memory fr cfg sch2 atomic (sv, s) = (Inr r, sv', s')"
  using exec
proof (cases rule: execute_in_memory_cases)
  case empty
  then show ?thesis by (simp add: execute_in_memory_def)
next
  case (ran ds nm w nm' s2 sent x)
  then obtain k idx where x: "x = Inr (k, idx)"
    and r: "r = batch_result_new (map snd (sort_key fst idx)) k"
    by (auto split: sum.splits prod.splits)
  have nm': "nm' = sc_shuffle sch1 nm" "s2 = s\<lparr>remote := w\<rparr>"
    using ran(4) cache by (auto simp: load_scripts_def)
  have perm: "mset nm' = mset (sc_shuffle sch2 nm)" using nm' sch by (simp add: sched_ok_def)
  obtain sent2 idx2 where run2:
    "run_tasks fr cfg (bs_options sv) sch2 atomic (remote s2) (sc_shuffle sch2 nm) = (sent2, Inr (k, idx2))"
    "mset sent2 = mset sent" "mset idx2 = mset idx"
    using run_tasks_perm [OF sch rep perm] ran(5) x by blast
  have np: "mset (node_pairs nm') = mset (pairs ds)" by (rule run_node_pairs [OF sch(1) ran(3,4)])
  then have d: "distinct (map f (node_pairs nm')) \<longleftrightarrow> distinct (map f (pairs ds))" for f :: "nat \<times> nat \<Rightarrow> nat"
    by (intro mset_eq_imp_distinct_iff) simp
  have q: "queue_pairs (bs_state sv) = pairs ds" using ran(1) by (simp add: queue_pairs_def)
  have dn: "distinct (map fst (node_pairs nm'))" "distinct (map snd (node_pairs nm'))"
    unfolding d using inv_queue_distinct [OF inv] unfolding q by blast+
  have "distinct (map fst sent)"
    using run_tasks_channels [OF sch(1), of fr cfg "bs_options sv" atomic "remote s2" nm'] ran(5) dn(1)
      mset_eq_imp_distinct_iff by fastforce
  then have "settle sent2 sv1 = settle sent sv1" for sv1
    using settle_perm [of sent sent2] run2(2) by simp
  moreover have "distinct (map fst idx)"
    using run_tasks_indexes [OF sch(1) _ dn] ran(5) x by blast
  ultimately show ?thesis
    using ran(1,2,3,6,8) eff run2 nm'(2) cache r batch_result_perm [OF run2(3)]
    by (simp add: execute_in_memory_def Let_def on_remote_apply load_scripts_def)
qed simp_all

text \<open>
  C5: The scheduler does not show: when an in-memory batch succeeds under one hash-map
  order and one order of task completion, it succeeds under every other with the same
  replies and effects of the pipelines, with the same result, the same answers to every caller and the
  same final state. (With the script cache in use the loading itself picks connections, so
  this is stated for batches without it.)
\<close>

theorem batch_schedule_independent:
  assumes "batch_reach fr cfg opts (ps, sv, s)" and "\<not> cf_use_script_cache cfg"
    and "\<not> is_redis_based_queue (bs_options sv)"
    and "sched_ok sch1" and "sched_ok sch2" and "sc_replies sch2 = sc_replies sch1"
    and "sc_effect sch2 = sc_effect sch1"
    and "execute_async fr cfg sch1 (sv, s) = (Inr r, sv', s')"
  shows "execute_async fr cfg sch2 (sv, s) = (Inr r, sv', s')"
proof -
  have "batch_inv ps (sv\<lparr>bs_executed := True\<rparr>)"
    using batch_reach_inv [OF assms(1)] by (simp add: batch_inv_def)
  note mem = execute_in_memory_schedules [OF this assms(2,4-7)]
  show ?thesis
    using assms(3,8)
    by (cases "bo_execution_mode (bs_options sv)")
      (auto simp: execute_async_def Let_def is_redis_based_queue_def intro: mem split: if_splits)
qed

end
