(* ===== verification/BatchRedis.thy ===== *)
theory BatchRedis
  imports BatchSpec
begin

text \<open>
  The redis-based path of a batch: which connections its requests go through, and what
  committing the transaction tells the callers.
\<close>

section \<open>Connections\<close>

text \<open>
  Round robin over at least two clients: the pool does not hand out the client of the
  previous call again.
\<close>

definition alternates :: "'w fred \<Rightarrow> bool" where
  "alternates fr \<longleftrightarrow>
     (\<forall>w i q. fst (fr_pick fr w) = i \<longrightarrow>
        fst (fr_pick fr (snd (fr_client fr i q (snd (fr_pick fr w))))) \<noteq> i)"

lemma call_next_logged:
  "call_next (logged fr) q (w, l) =
     (let i = fst (fr_pick fr w); r = fr_client fr i q (snd (fr_pick fr w))
      in (fst r, (snd r, l @ [(OnClient i, Some q)])))"
  by (simp add: call_next_def pick_def pbind_apply logged_call_apply Let_def)

text \<open>
  C27: In a redis-based write batch the transaction is opened on one connection and its
  first command is sent on another, whenever the pool alternates between clients: the
  command is not part of the transaction that was just opened.
\<close>

theorem redis_based_splits_transaction:
  assumes "bs_state sv = BRedisBased slot []" and "bo_execution_mode (bs_options sv) = RedisWriteAtomic"
    and "\<not> is_wait_command cmd" and "alternates fr"
    and "async0_batch (logged fr) cmd (sv, s) = (Inr tx, sv', s')"
  shows "\<exists>i j sl. i \<noteq> j \<and>
    snd (remote s') = snd (remote s) @
      [(OnClient i, Some (QCustom ''MULTI'' (Custom sl) [])), (OnClient j, Some (pipeline_request cmd))]"
proof -
  obtain w l where w: "remote s = (w, l)" by (cases "remote s")
  define slot' where "slot' = (case routing_key cmd of Some k \<Rightarrow> Some (fr_keyslot fr k) | None \<Rightarrow> slot)"
  define q where "q = QCustom ''MULTI'' (Custom (slot_or_0 slot')) []"
  define i where "i = fst (fr_pick fr w)"
  define w1 where "w1 = snd (fr_client fr i q (snd (fr_pick fr w)))"
  define j where "j = fst (fr_pick fr w1)"
  have client: "batch_client (logged fr) (bs_options sv) = call_next (logged fr)"
    using assms(2) by (simp add: batch_client_def)
  have multi: "call_next (logged fr) q (w, l) =
      (fst (fr_client fr i q (snd (fr_pick fr w))), (w1, l @ [(OnClient i, Some q)]))"
    by (simp add: call_next_logged Let_def i_def w1_def)
  have "i \<noteq> j" using assms(4) unfolding alternates_def i_def w1_def j_def by metis
  moreover have "snd (remote s') = snd (remote s) @
      [(OnClient i, Some q), (OnClient j, Some (pipeline_request cmd))]"
    using assms(1,3,5) multi w
    by (auto simp: async0_batch_def reserve_def enqueue_def client execute_on_request open_transaction_def
        on_remote_apply call_next_logged Let_def j_def q_def slot'_def
        split: sum.splits option.splits)
  ultimately show ?thesis unfolding q_def by blast
qed

section \<open>Committing\<close>

lemma send_all_nth:
  "k < length cs \<Longrightarrow>
   (cs ! k, if k < length vs then Resolved (Inr (vs ! k)) else Dropped) \<in> set (send_all cs (map Inr vs))"
proof (induction cs arbitrary: k vs)
  case (Cons c cs)
  show ?case
  proof (cases k)
    case 0
    then show ?thesis by (cases vs) simp_all
  next
    case (Suc i)
    with Cons show ?thesis
      using Cons.IH [of i "[]"] Cons.IH [of i "tl vs"] by (cases vs) auto
  qed
qed simp

text \<open>What the reply to \<open>EXEC\<close> tells the caller at position \<open>k\<close> of the queue.\<close>

definition committed :: "bool \<Rightarrow> err + rvalue \<Rightarrow> nat \<Rightarrow> outcome" where
  "committed skip a k =
     (if skip then Resolved (Inr Null)
      else
        (case a of
           Inr (Array vs) \<Rightarrow> if k < length vs then Resolved (Inr (vs ! k)) else Dropped
         | Inr Null \<Rightarrow> Resolved (Inl exec_nil)
         | Inr v \<Rightarrow> Dropped
         | Inl e \<Rightarrow> Resolved (Inl (Msg (err_string e)))))"

lemma exec_replies_nth:
  assumes "exec_replies fr opts a es = (sent, x)" and "k < length es"
  shows "(fst (es ! k), committed (bo_skip_result opts) a k) \<in> set sent"
proof -
  have mem: "fst (es ! k) \<in> fst ` set es" using assms(2) by simp
  then have same: "(fst (es ! k), Resolved y) \<in> set (send_same (map fst es) y)" for y
    by (auto simp: send_same_def)
  from mem have drop: "(fst (es ! k), Dropped) \<in> set (drop_all (map fst es))"
    by (auto simp: drop_all_def)
  have all: "(fst (es ! k), if k < length vs then Resolved (Inr (vs ! k)) else Dropped) \<in>
      set (send_all (map fst es) (map Inr vs))" for vs
    using send_all_nth [of k "map fst es" vs] assms(2) by simp
  have inside: "k < length vs \<Longrightarrow>
        (fst (es ! k), Resolved (Inr (vs ! k))) \<in> set (send_all (map fst es) (map Inr vs))"
    and outside: "\<not> k < length vs \<Longrightarrow>
        (fst (es ! k), Dropped) \<in> set (send_all (map fst es) (map Inr vs))" for vs
    using all [of vs] by simp_all
  show ?thesis
    using assms(1) same drop inside outside
    by (auto simp: exec_replies_def committed_def Let_def
        split: if_split_asm sum.splits rvalue.splits)
qed

text \<open>
  C26: Committing a redis-based batch: the reply to \<open>EXEC\<close> decides every queued call (an
  array gives the calls their elements in queue order, nil and an error reach every call),
  and \<open>skip_result\<close> tells every call a null value whatever \<open>EXEC\<close> answered.
\<close>

theorem redis_based_commit:
  assumes "bs_state sv = BRedisBased sl es" and "es \<noteq> []" and "distinct (map fst es)"
    and "fst (batch_client fr (bs_options sv) (QCustom ''EXEC'' (Custom (slot_or_0 sl)) []) (remote s)) = a"
    and "execute_redis_based_queue_inner fr (sv, s) = (r, sv', s')"
    and "k < length es"
  shows "await_reply (fst (es ! k)) sv' =
    (if bo_skip_result (bs_options sv) then Some (Inr Null)
     else
       (case a of
          Inr (Array vs) \<Rightarrow>
            Some (if k < length vs then Inr (vs ! k)
                  else Inl (Msg ''batch channel closed (execute_async not called before drop)''))
        | Inr Null \<Rightarrow> Some (Inl exec_nil)
        | Inr v \<Rightarrow> Some (Inl (Msg ''batch channel closed (execute_async not called before drop)''))
        | Inl e \<Rightarrow> Some (Inl (Msg (err_string e)))))"
  using assms(5)
proof (cases rule: execute_redis_inner_cases)
  case (ran sl' es' a' n sent x)
  have same: "es' = es" "a' = a" using ran(1,4) assms(1,4) by auto
  have "map fst sent = map fst es"
    using exec_replies_channels [of fr "bs_options sv" a es] ran(3) same by simp
  with assms(3) have d: "distinct (map fst sent)" by simp
  have "(fst (es ! k), committed (bo_skip_result (bs_options sv)) a k) \<in> set sent"
    using exec_replies_nth ran(3) same assms(6) by blast
  with d have "map_of sent (fst (es ! k)) = Some (committed (bo_skip_result (bs_options sv)) a k)"
    by simp
  then have "bs_promises sv' (fst (es ! k)) = Some (committed (bo_skip_result (bs_options sv)) a k)"
    unfolding ran(5) settle_promises [OF d] by (simp add: map_add_Some_iff)
  then show ?thesis
    by (auto simp: await_reply_def committed_def split: sum.splits rvalue.splits)
qed (use assms(1,2) in simp_all)

end
