(* ===== verification/Info.thy ===== *)
theory Info
  imports Runtime
begin

text \<open>
  The parsing of \<open>INFO\<close> output in \<open>src/command/command_async_service.rs\<close>, with the string
  functions of the standard library that it uses: \<open>lines\<close>, \<open>trim\<close> and \<open>parse::<i64>\<close>. Also
  the test for valid UTF-8 on which the eviction of client-side caches depends.
\<close>

section \<open>Lines and white space\<close>

abbreviation newline :: char where "newline \<equiv> CHR 0x0A"
abbreviation carriage_return :: char where "carriage_return \<equiv> CHR 0x0D"

definition strip_cr :: "string \<Rightarrow> string" where
  "strip_cr s = (if s \<noteq> [] \<and> last s = carriage_return then butlast s else s)"

text \<open>\<open>str::lines\<close>; the accumulator holds the current line reversed.\<close>

fun lines_from :: "string \<Rightarrow> string \<Rightarrow> string list" where
  "lines_from acc [] = (if acc = [] then [] else [rev acc])"
| "lines_from acc (c # s) =
     (if c = newline then strip_cr (rev acc) # lines_from [] s else lines_from (c # acc) s)"

definition str_lines :: "string \<Rightarrow> string list" where
  "str_lines s = lines_from [] s"

text \<open>The UTF-8 encodings of the characters with the property \<open>White_Space\<close>.\<close>

definition white_space :: "string list" where
  "white_space =
     [[CHR 0x09], [CHR 0x0A], [CHR 0x0B], [CHR 0x0C], [CHR 0x0D], [CHR 0x20],
      [CHR 0xC2, CHR 0x85], [CHR 0xC2, CHR 0xA0], [CHR 0xE1, CHR 0x9A, CHR 0x80],
      [CHR 0xE2, CHR 0x80, CHR 0x80], [CHR 0xE2, CHR 0x80, CHR 0x81],
      [CHR 0xE2, CHR 0x80, CHR 0x82], [CHR 0xE2, CHR 0x80, CHR 0x83],
      [CHR 0xE2, CHR 0x80, CHR 0x84], [CHR 0xE2, CHR 0x80, CHR 0x85],
      [CHR 0xE2, CHR 0x80, CHR 0x86], [CHR 0xE2, CHR 0x80, CHR 0x87],
      [CHR 0xE2, CHR 0x80, CHR 0x88], [CHR 0xE2, CHR 0x80, CHR 0x89],
      [CHR 0xE2, CHR 0x80, CHR 0x8A], [CHR 0xE2, CHR 0x80, CHR 0xA8],
      [CHR 0xE2, CHR 0x80, CHR 0xA9], [CHR 0xE2, CHR 0x80, CHR 0xAF],
      [CHR 0xE2, CHR 0x81, CHR 0x9F], [CHR 0xE3, CHR 0x80, CHR 0x80]]"

text \<open>Dropping characters of a list from the front, as long as there is one.\<close>

function trim_with :: "string list \<Rightarrow> string \<Rightarrow> string" where
  "trim_with ws s =
     (case find (\<lambda>w. w \<noteq> [] \<and> starts_with s w) ws of
        None \<Rightarrow> s
      | Some w \<Rightarrow> trim_with ws (drop (length w) s))"
  by pat_completeness auto
termination
proof (relation "measure (\<lambda>(ws, s). length s)")
  fix ws :: "string list" and s w :: string
  assume "find (\<lambda>w. w \<noteq> [] \<and> starts_with s w) ws = Some w"
  then have "w \<noteq> []" and "starts_with s w" by (auto simp: find_Some_iff)
  then have "0 < length w" and "length w \<le> length s" by (auto simp: starts_with_iff)
  then have "length s - length w < length s" by linarith
  then show "((ws, drop (length w) s), (ws, s)) \<in> measure (\<lambda>(ws, s). length s)"
    by simp
qed simp

declare trim_with.simps [simp del]

definition trim_start :: "string \<Rightarrow> string" where
  "trim_start s = trim_with white_space s"

definition trim_end :: "string \<Rightarrow> string" where
  "trim_end s = rev (trim_with (map rev white_space) (rev s))"

definition trim :: "string \<Rightarrow> string" where
  "trim s = trim_end (trim_start s)"

section \<open>Numbers\<close>

fun digits_value :: "string \<Rightarrow> nat \<Rightarrow> nat option" where
  "digits_value [] n = Some n"
| "digits_value (c # s) n =
     (let k = of_char c :: nat
      in if 48 \<le> k \<and> k \<le> 57 then digits_value s (n * 10 + (k - 48)) else None)"

definition in_i64 :: "int \<Rightarrow> bool" where
  "in_i64 i \<longleftrightarrow> - (2 ^ 63) \<le> i \<and> i < 2 ^ 63"

text \<open>\<open>i64::from_str\<close>: an optional sign, then at least one digit, within the range.\<close>

definition parse_i64 :: "string \<Rightarrow> i64 option" where
  "parse_i64 s =
     (let (sign, ds) =
        (case s of
           [] \<Rightarrow> (1, [])
         | c # r \<Rightarrow> if c = CHR ''-'' then (-1, r) else if c = CHR ''+'' then (1, r) else (1, s))
      in if ds = [] then None
         else (case digits_value ds 0 of
                 None \<Rightarrow> None
               | Some n \<Rightarrow> if in_i64 (sign * int n) then Some (of_int (sign * int n)) else None))"

section \<open>INFO output\<close>

text \<open>The rest of a line \<open>key:rest\<close>.\<close>

definition info_field :: "string \<Rightarrow> string \<Rightarrow> string option" where
  "info_field key line =
     (case strip_prefix line key of
        None \<Rightarrow> None
      | Some r \<Rightarrow> strip_prefix r '':'')"

fun first_field :: "string \<Rightarrow> string list \<Rightarrow> string option" where
  "first_field key [] = None"
| "first_field key (l # ls) =
     (case info_field key l of Some r \<Rightarrow> Some (trim r) | None \<Rightarrow> first_field key ls)"

definition parse_info_str :: "string \<Rightarrow> string \<Rightarrow> string option" where
  "parse_info_str info key = first_field key (str_lines info)"

definition parse_info_i64 :: "string \<Rightarrow> string \<Rightarrow> i64" where
  "parse_info_i64 info key =
     (case Option.bind (parse_info_str info key) parse_i64 of Some n \<Rightarrow> n | None \<Rightarrow> 0)"

section \<open>Valid UTF-8\<close>

definition is_cont :: "nat \<Rightarrow> bool" where
  "is_cont n \<longleftrightarrow> 128 \<le> n \<and> n \<le> 191"

text \<open>\<open>std::str::from_utf8\<close> accepts the well-formed byte sequences.\<close>

fun utf8_valid :: "nat list \<Rightarrow> bool" where
  "utf8_valid [] \<longleftrightarrow> True"
| "utf8_valid (a # s) \<longleftrightarrow>
     (if a < 128 then utf8_valid s
      else
        (case s of
           b # s2 \<Rightarrow>
             if 194 \<le> a \<and> a \<le> 223 then is_cont b \<and> utf8_valid s2
             else
               (case s2 of
                  c # s3 \<Rightarrow>
                    if 224 \<le> a \<and> a \<le> 239 then
                      is_cont b \<and> is_cont c \<and> (a = 224 \<longrightarrow> 160 \<le> b) \<and> (a = 237 \<longrightarrow> b \<le> 159) \<and>
                      utf8_valid s3
                    else
                      (case s3 of
                         d # s4 \<Rightarrow>
                           240 \<le> a \<and> a \<le> 244 \<and> is_cont b \<and> is_cont c \<and> is_cont d \<and>
                           (a = 240 \<longrightarrow> 144 \<le> b) \<and> (a = 244 \<longrightarrow> b \<le> 143) \<and> utf8_valid s4
                       | [] \<Rightarrow> False)
                | [] \<Rightarrow> False)
         | [] \<Rightarrow> False))"

definition from_utf8 :: "string \<Rightarrow> string option" where
  "from_utf8 s = (if utf8_valid (map of_char s) then Some s else None)"

lemma from_utf8_ascii: "ascii s \<Longrightarrow> from_utf8 s = Some s"
proof -
  assume "ascii s"
  then have "utf8_valid (map of_char s)" by (induction s) (auto simp: ascii_def)
  then show ?thesis by (simp add: from_utf8_def)
qed

section \<open>Round trips\<close>

text \<open>An \<open>INFO\<close> text as a server writes it.\<close>

definition render_info :: "(string \<times> string) list \<Rightarrow> string" where
  "render_info fs = concat (map (\<lambda>(k, v). k @ '':'' @ v @ [carriage_return, newline]) fs)"

lemma lines_from_line:
  "newline \<notin> set l \<Longrightarrow> lines_from acc (l @ newline # s) = strip_cr (rev acc @ l) # lines_from [] s"
  by (induction l arbitrary: acc) auto

lemma strip_cr_line: "strip_cr (l @ [carriage_return]) = l"
  by (simp add: strip_cr_def)

lemma lines_render:
  assumes "\<And>k v. (k, v) \<in> set fs \<Longrightarrow> newline \<notin> set k \<and> newline \<notin> set v"
  shows "str_lines (render_info fs) = map (\<lambda>(k, v). k @ '':'' @ v) fs"
  using assms
proof (induction fs)
  case Nil
  then show ?case by (simp add: str_lines_def render_info_def)
next
  case (Cons f fs)
  obtain k v where f: "f = (k, v)" by (cases f)
  let ?l = "k @ '':'' @ v @ [carriage_return]"
  have r: "render_info (f # fs) = ?l @ newline # render_info fs" by (simp add: render_info_def f)
  have "newline \<notin> set ?l" using Cons.prems [of k v] f by simp
  from lines_from_line [OF this, of "[]" "render_info fs"]
  have "str_lines (render_info (f # fs)) = strip_cr ?l # str_lines (render_info fs)"
    by (simp add: str_lines_def r)
  moreover have "strip_cr ?l = k @ '':'' @ v" using strip_cr_line [of "k @ '':'' @ v"] by simp
  moreover have "str_lines (render_info fs) = map (\<lambda>(k, v). k @ '':'' @ v) fs"
    by (rule Cons.IH) (use Cons.prems in auto)
  ultimately show ?case using f by simp
qed

lemma info_field_line:
  assumes "CHR '':'' \<notin> set k" and "CHR '':'' \<notin> set key"
  shows "info_field key (k @ '':'' @ v) = (if key = k then Some v else None)"
proof (cases "key = k")
  case True
  then show ?thesis by (simp add: info_field_def strip_prefix_def starts_with_def)
next
  case False
  have "\<not> (\<exists>r. k @ '':'' @ v = key @ '':'' @ r)"
  proof
    assume "\<exists>r. k @ '':'' @ v = key @ '':'' @ r"
    then obtain r where "k @ '':'' @ v = key @ '':'' @ r" by blast
    from arg_cong [OF this, of "takeWhile (\<lambda>c. c \<noteq> CHR '':'')"] assms
    have "k = key" by (auto simp: takeWhile_append split: if_splits)
    with False show False by simp
  qed
  then have "strip_prefix r '':'' = None" if "strip_prefix (k @ '':'' @ v) key = Some r" for r
    using that by (cases "strip_prefix r '':''") (auto simp: strip_prefix_Some)
  with False show ?thesis by (auto simp: info_field_def split: option.split)
qed

lemma trim_with_id: "(\<And>w. w \<in> set ws \<Longrightarrow> w \<noteq> [] \<Longrightarrow> \<not> starts_with s w) \<Longrightarrow> trim_with ws s = s"
  by (subst trim_with.simps) (auto split: option.split simp: find_Some_iff)

text \<open>A visible ASCII text has nothing to trim.\<close>

definition visible :: "string \<Rightarrow> bool" where
  "visible s \<longleftrightarrow> list_all (\<lambda>c. 32 < (of_char c :: nat) \<and> of_char c < (128::nat)) s"

lemma white_space_bytes:
  "list_all (\<lambda>w. w \<noteq> [] \<and> ((of_char (hd w) :: nat) \<le> 32 \<or> (128::nat) \<le> of_char (hd w)))
     (white_space @ map rev white_space)"
  by (simp add: white_space_def)

lemma not_starts_white:
  assumes "w \<in> set white_space \<or> w \<in> set (map rev white_space)" and "visible s"
  shows "\<not> starts_with s w"
proof (cases s)
  case (Cons c r)
  with assms(2) have c: "32 < (of_char c :: nat)" "of_char c < (128::nat)" by (auto simp: visible_def)
  have "w \<in> set (white_space @ map rev white_space)" using assms(1) by simp
  with white_space_bytes have w: "w \<noteq> []" "(of_char (hd w) :: nat) \<le> 32 \<or> (128::nat) \<le> of_char (hd w)"
    unfolding list_all_iff by blast+
  with c Cons show ?thesis by (cases w) (auto simp: starts_with_def)
next
  case Nil
  have "w \<in> set (white_space @ map rev white_space)" using assms(1) by simp
  with white_space_bytes have "w \<noteq> []" unfolding list_all_iff by blast
  with Nil show ?thesis by (simp add: starts_with_def)
qed

lemma trim_visible: "visible s \<Longrightarrow> trim s = s"
proof -
  assume v: "visible s"
  then have v': "visible (rev s)" by (simp add: visible_def list_all_iff)
  have "trim_start s = s" unfolding trim_start_def
    by (rule trim_with_id) (simp add: not_starts_white v)
  moreover have "trim_end s = s" unfolding trim_end_def
    using trim_with_id [of "map rev white_space" "rev s"] not_starts_white [OF _ v'] by simp
  ultimately show ?thesis by (simp add: trim_def)
qed

lemma first_field_map_of:
  assumes "\<And>k v. (k, v) \<in> set fs \<Longrightarrow> CHR '':'' \<notin> set k \<and> visible v" and "CHR '':'' \<notin> set key"
  shows "first_field key (map (\<lambda>(k, v). k @ '':'' @ v) fs) = map_of fs key"
  using assms(1)
proof (induction fs)
  case (Cons f fs)
  obtain k v where f: "f = (k, v)" by (cases f)
  have kv: "CHR '':'' \<notin> set k" "trim v = v" using Cons.prems [of k v] f trim_visible by auto
  have "first_field key (map (\<lambda>(k, v). k @ '':'' @ v) fs) = map_of fs key"
    by (rule Cons.IH) (use Cons.prems in auto)
  with kv f info_field_line [OF kv(1) assms(2), of v] show ?case by simp
qed simp

text \<open>Decimal numbers.\<close>

lemma digit_char: "n < 10 \<Longrightarrow> of_char (char_of (n + 48) :: char) = (n + 48 :: nat)"
  by (simp add: of_char_of)

lemma digits_value_append:
  "digits_value (s @ t) n = Option.bind (digits_value s n) (digits_value t)"
  by (induction s n rule: digits_value.induct) (simp_all add: Let_def)

lemma digits_value_show: "digits_value (show_nat n) 0 = Some n"
proof (induction n rule: show_nat.induct)
  case (1 n)
  show ?case
  proof (cases "n < 10")
    case True
    then show ?thesis by (subst show_nat.simps) (simp add: Let_def digit_char)
  next
    case False
    have "digits_value [char_of (n mod 10 + 48)] (n div 10) = Some n"
      by (simp add: Let_def digit_char)
    with False 1 show ?thesis by (subst show_nat.simps) (simp add: digits_value_append)
  qed
qed

lemma show_nat_nonempty: "show_nat n \<noteq> []"
  by (subst show_nat.simps) simp

lemma show_nat_digit:
  "c \<in> set (show_nat n) \<Longrightarrow> 48 \<le> (of_char c :: nat) \<and> of_char c \<le> (57::nat)"
proof (induction n rule: show_nat.induct)
  case (1 n)
  then show ?case
    by (subst (asm) show_nat.simps) (auto simp: digit_char split: if_splits)
qed

lemma show_int_visible: "visible (show_int i)"
  using show_nat_digit by (fastforce simp: visible_def show_int_def list_all_iff)

lemma parse_show_int:
  "parse_i64 (show_int i) = (if in_i64 i then Some (of_int i) else None)"
proof (cases "i < 0")
  case True
  then show ?thesis
    by (simp add: parse_i64_def show_int_def show_nat_nonempty digits_value_show)
next
  case False
  obtain c r where c: "show_nat (nat i) = c # r" using show_nat_nonempty by (cases "show_nat (nat i)") auto
  with show_nat_digit [of c "nat i"] have "c \<noteq> CHR ''-''" "c \<noteq> CHR ''+''" by auto
  with False c digits_value_show [of "nat i"] show ?thesis
    by (simp add: parse_i64_def show_int_def)
qed

lemma parse_info_render:
  assumes "\<And>k v. (k, v) \<in> set fs \<Longrightarrow> CHR '':'' \<notin> set k \<and> newline \<notin> set k \<and> visible v"
    and "CHR '':'' \<notin> set key"
  shows "parse_info_str (render_info fs) key = map_of fs key"
proof -
  have nl: "newline \<notin> set v" if "visible v" for v
    using that by (auto simp: visible_def list_all_iff)
  have "str_lines (render_info fs) = map (\<lambda>(k, v). k @ '':'' @ v) fs"
    by (rule lines_render) (use assms(1) nl in blast)
  moreover have "first_field key (map (\<lambda>(k, v). k @ '':'' @ v) fs) = map_of fs key"
    by (rule first_field_map_of) (use assms in blast)+
  ultimately show ?thesis by (simp add: parse_info_str_def)
qed

text \<open>
  Reading a field of an \<open>INFO\<close> text gives back what the server wrote: for any list of
  fields (names without colon or line break, visible values) and any name, the value found
  is that of the first field with this very name, however many longer names start with it.
\<close>

theorem parse_info_roundtrip:
  assumes "\<forall>(k, v) \<in> set fs. CHR '':'' \<notin> set k \<and> newline \<notin> set k \<and> visible v"
    and "CHR '':'' \<notin> set key"
  shows "parse_info_str (render_info fs) key = map_of fs key"
  by (rule parse_info_render) (use assms in blast)+

theorem parse_info_roundtrip_witness:
  "parse_info_str (render_info [(''role'', ''master''), (''connected_slaves'', ''2'')]) ''connected_slaves''
     = Some ''2''"
proof -
  have "parse_info_str (render_info [(''role'', ''master''), (''connected_slaves'', ''2'')]) ''connected_slaves''
    = map_of [(''role'', ''master''), (''connected_slaves'', ''2'')] ''connected_slaves''"
    by (rule parse_info_roundtrip) (simp_all add: visible_def)
  then show ?thesis by simp
qed

text \<open>
  The lines of a real \<open>INFO\<close> text: fields with a number, fields with any other text, and
  lines that are not fields, the headings of the sections and the empty lines between them.
\<close>

datatype info_line = NumberField string int | TextField string string | OtherLine string

fun line_text :: "info_line \<Rightarrow> string" where
  "line_text (NumberField k n) = k @ '':'' @ show_int n"
| "line_text (TextField k v) = k @ '':'' @ v"
| "line_text (OtherLine l) = l"

fun line_ok :: "info_line \<Rightarrow> bool" where
  "line_ok (NumberField k n) \<longleftrightarrow> CHR '':'' \<notin> set k \<and> newline \<notin> set k"
| "line_ok (TextField k v) \<longleftrightarrow> CHR '':'' \<notin> set k \<and> newline \<notin> set k \<and> newline \<notin> set v"
| "line_ok (OtherLine l) \<longleftrightarrow> CHR '':'' \<notin> set l \<and> newline \<notin> set l"

definition render_lines :: "info_line list \<Rightarrow> string" where
  "render_lines ls = concat (map (\<lambda>l. line_text l @ [carriage_return, newline]) ls)"

text \<open>The first number that is written under a name.\<close>

fun number_of :: "string \<Rightarrow> info_line list \<Rightarrow> int option" where
  "number_of key [] = None"
| "number_of key (NumberField k n # ls) = (if k = key then Some n else number_of key ls)"
| "number_of key (_ # ls) = number_of key ls"

lemma newline_line_text: "line_ok l \<Longrightarrow> newline \<notin> set (line_text l)"
  using show_int_visible by (cases l) (fastforce simp: visible_def list_all_iff)+

lemma lines_render_lines:
  "\<forall>l \<in> set ls. line_ok l \<Longrightarrow> str_lines (render_lines ls) = map line_text ls"
proof (induction ls)
  case (Cons l ls)
  let ?l = "line_text l @ [carriage_return]"
  have "newline \<notin> set ?l" using newline_line_text [of l] Cons.prems by simp
  from lines_from_line [OF this, of "[]" "render_lines ls"] strip_cr_line [of "line_text l"]
  have "str_lines (render_lines (l # ls)) = line_text l # str_lines (render_lines ls)"
    by (simp add: str_lines_def render_lines_def)
  with Cons show ?case by simp
qed (simp add: str_lines_def render_lines_def)

lemma info_field_other: "CHR '':'' \<notin> set l \<Longrightarrow> info_field key l = None"
  by (auto simp: info_field_def strip_prefix_def starts_with_iff split: if_splits)

lemma first_field_lines:
  assumes "\<forall>l \<in> set ls. line_ok l" and "CHR '':'' \<notin> set key" and "\<forall>v. TextField key v \<notin> set ls"
  shows "first_field key (map line_text ls) = map_option show_int (number_of key ls)"
  using assms(1,3)
proof (induction ls)
  case (Cons l ls)
  then show ?case
    using info_field_line [OF _ assms(2)]
    by (cases l) (auto simp: info_field_other trim_visible [OF show_int_visible])
qed simp

text \<open>
  C37: Reading a number field of an \<open>INFO\<close> text gives back the number: in any text of number
  fields, text fields, headings and empty lines, in any order, the value found under a name
  that is not a text field's is the first number written under this very name, however many
  other names start with it. A number that does not fit into a signed one of 64 bits counts
  as zero, as does a name that is missing.
\<close>

theorem parse_info_number_roundtrip:
  assumes "\<forall>l \<in> set ls. line_ok l"
    and "CHR '':'' \<notin> set key" and "\<forall>v. TextField key v \<notin> set ls"
  shows "parse_info_i64 (render_lines ls) key =
    (case number_of key ls of Some n \<Rightarrow> if in_i64 n then of_int n else 0 | None \<Rightarrow> 0)"
  by (simp add: parse_info_i64_def parse_info_str_def lines_render_lines [OF assms(1)]
      first_field_lines [OF assms] parse_show_int split: option.split)

theorem parse_info_number_roundtrip_witness:
  "parse_info_i64 (render_lines
     [OtherLine ''# Server'', TextField ''os'' ''Linux 5: x86_64'', OtherLine '''',
      OtherLine ''# Replication'', TextField ''role'' ''master'', NumberField ''connected'' (-7),
      NumberField ''connected_slaves'' 2]) ''connected_slaves'' = 2"
proof -
  let ?ls = "[OtherLine ''# Server'', TextField ''os'' ''Linux 5: x86_64'', OtherLine '''',
      OtherLine ''# Replication'', TextField ''role'' ''master'', NumberField ''connected'' (-7),
      NumberField ''connected_slaves'' 2]"
  have "parse_info_i64 (render_lines ?ls) ''connected_slaves'' =
      (case number_of ''connected_slaves'' ?ls of Some n \<Rightarrow> if in_i64 n then of_int n else 0 | None \<Rightarrow> 0)"
    by (rule parse_info_number_roundtrip) simp_all
  then show ?thesis by (simp add: in_i64_def)
qed

end
