(* ===== verification/Async.thy ===== *)
theory Async
  imports BatchSpec Info
begin

text \<open>
  \<open>src/command/command_async_service.rs\<close>: the default methods of \<open>CommandAsyncServiceLike\<close>.
  Single commands with the eviction of client-side caches after writes, scripts by digest
  with reloading, and scripts whose effect must reach the replicas (\<open>synced_eval\<close>), which
  run in a batch of their own.
\<close>

section \<open>State\<close>

text \<open>
  The two implementations of the trait: only the plain service uses the script cache, and
  only the batch service reports that it is one.
\<close>

datatype service_kind = PlainService | BatchService

definition is_eval_cache_active :: "service_kind \<Rightarrow> redisson_config \<Rightarrow> bool" where
  "is_eval_cache_active k cfg \<longleftrightarrow> (case k of PlainService \<Rightarrow> cf_use_script_cache cfg | BatchService \<Rightarrow> False)"

definition is_batch :: "service_kind \<Rightarrow> bool" where
  "is_batch k \<longleftrightarrow> (case k of PlainService \<Rightarrow> False | BatchService \<Rightarrow> True)"

text \<open>
  The state a service works on: the statics and the servers, its own inner record, the
  registry of client-side caches, and the \<open>clear_cache\<close> calls made so far.
\<close>

record ('w, 'i) async_state =
  as_globals :: "'w globals"
  as_inner :: command_async_inner
  as_registry :: "'i service_manager"
  as_cleared :: "('i \<times> string) list"

definition on_globals :: "('w globals, 'a) prog \<Rightarrow> (('w, 'i) async_state, 'a) prog" where
  "on_globals m st = (case m (as_globals st) of (r, s) \<Rightarrow> (r, st\<lparr>as_globals := s\<rparr>))"

section \<open>Single commands\<close>

definition eviction_key :: "command \<Rightarrow> string option" where
  "eviction_key cmd = Option.bind (routing_key cmd) from_utf8"

definition evict_after_write :: "command \<Rightarrow> ('w, 'i) async_state \<Rightarrow> ('w, 'i) async_state" where
  "evict_after_write cmd st =
     (if \<not> is_read_only cmd \<and> has_caching_instances (as_registry st) then
        (case eviction_key cmd of
           Some name \<Rightarrow>
             st\<lparr>as_cleared := as_cleared st @ evict_client_side_caching name (as_registry st)\<rparr>
         | None \<Rightarrow> st)
      else st)"

definition async0 :: "'w fred \<Rightarrow> command \<Rightarrow> (('w, 'i) async_state, rvalue) prog" where
  "async0 fr cmd st =
     (case on_globals (execute fr (call_options (as_inner st)) cmd) st of
        (Inl e, st') \<Rightarrow> (Inl e, st')
      | (Inr v, st') \<Rightarrow> (Inr v, evict_after_write cmd st'))"

definition write_async :: "'w fred \<Rightarrow> command \<Rightarrow> (('w, 'i) async_state, rvalue) prog" where
  "write_async fr cmd = async0 fr cmd"

section \<open>Scripts\<close>

text \<open>\<open>keys.first().map(redis_keyslot).unwrap_or(0)\<close>\<close>

definition keys_slot :: "'w fred \<Rightarrow> key list \<Rightarrow> u16" where
  "keys_slot fr ks = (case ks of [] \<Rightarrow> 0 | k # ks' \<Rightarrow> fr_keyslot fr k)"

definition pinned_options ::
  "'w fred \<Rightarrow> fred_options \<Rightarrow> key list \<Rightarrow> 'w globals \<Rightarrow> fred_options" where
  "pinned_options fr opts ks s =
     (case get_write_entry fr (remote s) (keys_slot fr ks) of
        Some e \<Rightarrow> opts\<lparr>cluster_node := Some (primary e)\<rparr>
      | None \<Rightarrow> opts)"

definition eval_command ::
  "bool \<Rightarrow> string \<Rightarrow> key list \<Rightarrow> rvalue list \<Rightarrow> 'w globals \<Rightarrow> command" where
  "eval_command read_only sha ks vs s =
     (if read_only \<and> eval_sha_ro_supported s then EvalShaRo sha ks vs else EvalSha sha ks vs)"

definition load_script_call :: "'w fred \<Rightarrow> fred_options \<Rightarrow> string \<Rightarrow> ('w globals, rvalue) prog" where
  "load_script_call fr opts script =
     on_remote (fr_call fr opts (QCustom ''SCRIPT'' FirstKey [Str ''LOAD'', Str script]))"

text \<open>The attempt by digest and its two recoveries, all under the same options.\<close>

definition eval_pinned ::
  "'w fred \<Rightarrow> bool \<Rightarrow> fred_options \<Rightarrow> string \<Rightarrow> key list \<Rightarrow> rvalue list \<Rightarrow>
   ('w globals, rvalue) prog" where
  "eval_pinned fr read_only opts script ks vs s =
     (case calc_sha fr script s of
        (sha, s1) \<Rightarrow>
          (case execute fr opts (eval_command read_only sha ks vs s1) s1 of
             (Inr v, s2) \<Rightarrow> (Inr v, s2)
           | (Inl e, s2) \<Rightarrow>
               if str_contains (err_string e) ''ERR unknown command'' then
                 execute fr opts (EvalSha sha ks vs) (s2\<lparr>eval_sha_ro_supported := False\<rparr>)
               else if str_contains (err_string e) ''NOSCRIPT'' then
                 (case load_script_call fr opts script s2 of
                    (Inl e', s3) \<Rightarrow> (Inl e', s3)
                  | (Inr u, s3) \<Rightarrow> execute fr opts (eval_command read_only sha ks vs s3) s3)
               else (Inl e, s2)))"

definition eval_options :: "command_async_inner \<Rightarrow> bool \<Rightarrow> fred_options" where
  "eval_options inner no_retry =
     (if no_retry then (call_options inner)\<lparr>max_attempts := Some 1\<rparr> else call_options inner)"

definition eval_async ::
  "'w fred \<Rightarrow> redisson_config \<Rightarrow> service_kind \<Rightarrow> bool \<Rightarrow> bool \<Rightarrow> string \<Rightarrow> key list \<Rightarrow> rvalue list \<Rightarrow>
   (('w, 'i) async_state, rvalue) prog" where
  "eval_async fr cfg k read_only no_retry script ks vs st =
     (let opts = eval_options (as_inner st) no_retry
      in if \<not> is_eval_cache_active k cfg then on_globals (execute fr opts (Eval script ks vs)) st
         else
           on_globals
             (eval_pinned fr read_only (pinned_options fr opts ks (as_globals st)) script ks vs) st)"

definition eval_write_async where
  "eval_write_async fr cfg k script ks vs = eval_async fr cfg k False False script ks vs"

definition eval_write_no_retry_async where
  "eval_write_no_retry_async fr cfg k script ks vs = eval_async fr cfg k False True script ks vs"

definition eval_read_async where
  "eval_read_async fr cfg k script ks vs = eval_async fr cfg k True False script ks vs"

definition eval_write_fallback where
  "eval_write_fallback fr cfg k retry script ks vs =
     (if retry then eval_write_async fr cfg k script ks vs
      else eval_write_no_retry_async fr cfg k script ks vs)"

section \<open>Probing and replication state\<close>

definition probe_command ::
  "'w fred \<Rightarrow> fred_options \<Rightarrow> string \<Rightarrow> rvalue list \<Rightarrow> ('w, bool) prog" where
  "probe_command fr opts cmd vs w =
     (case fr_call fr opts (QCustom cmd FirstKey vs) w of
        (Inr v, w') \<Rightarrow> (Inr True, w')
      | (Inl e, w') \<Rightarrow>
          if str_contains (err_details e) ''ERR unknown command'' then (Inr False, w')
          else (Inl e, w'))"

definition probe_wait_support :: "'w fred \<Rightarrow> fred_options \<Rightarrow> ('w, wait_support) prog" where
  "probe_wait_support fr opts =
     pbind (probe_command fr opts ''WAIT'' [Integer 0, Integer 0]) (\<lambda>wt.
     pbind (probe_command fr opts ''WAITAOF'' [Integer 0, Integer 0, Integer 0]) (\<lambda>aof.
     pret \<lparr>ws_wait = wt, ws_wait_aof = aof\<rparr>))"

definition query_replication_info :: "'w fred \<Rightarrow> fred_options \<Rightarrow> ('w, cached_slave_info) prog" where
  "query_replication_info fr opts =
     pbind (fr_info fr opts) (\<lambda>info.
     pret \<lparr>connected_slaves = parse_info_i64 info ''connected_slaves'',
           aof_enabled = (parse_info_str info ''aof_enabled'' = Some ''1'')\<rparr>)"

text \<open>The lazily probed, then remembered support for \<open>WAIT\<close> and \<open>WAITAOF\<close>.\<close>

definition wait_support_of :: "'w fred \<Rightarrow> fred_options \<Rightarrow> (('w, 'i) async_state, wait_support) prog" where
  "wait_support_of fr opts st =
     (case ai_wait_support (as_inner st) of
        Some ws \<Rightarrow> (Inr ws, st)
      | None \<Rightarrow>
          (case on_globals (on_remote (probe_wait_support fr opts)) st of
             (Inl e, st') \<Rightarrow> (Inl e, st')
           | (Inr ws, st') \<Rightarrow>
               (Inr ws, st'\<lparr>as_inner := (as_inner st')\<lparr>ai_wait_support := Some ws\<rparr>\<rparr>)))"

definition replication_info ::
  "'w fred \<Rightarrow> fred_options \<Rightarrow> server option \<Rightarrow> ('w globals, cached_slave_info) prog" where
  "replication_info fr opts node s =
     (case Option.bind node (get_slave_info s) of
        Some info \<Rightarrow> (Inr info, s)
      | None \<Rightarrow>
          (case on_remote (query_replication_info fr opts) s of
             (Inl e, s') \<Rightarrow> (Inl e, s')
           | (Inr info, s') \<Rightarrow>
               (Inr info, case node of Some srv \<Rightarrow> set_slave_info srv info s' | None \<Rightarrow> s')))"

section \<open>Synchronised evaluation\<close>

definition skip_sync :: "sync_mode \<Rightarrow> wait_support \<Rightarrow> bool" where
  "skip_sync m ws =
     (case m of
        SyncAuto \<Rightarrow> \<not> ws_wait ws \<and> \<not> ws_wait_aof ws
      | SyncWait \<Rightarrow> \<not> ws_wait ws
      | SyncWaitAof \<Rightarrow> \<not> ws_wait_aof ws)"

definition use_aof :: "sync_mode \<Rightarrow> wait_support \<Rightarrow> cached_slave_info \<Rightarrow> bool" where
  "use_aof m ws info \<longleftrightarrow> ws_wait_aof ws \<and> aof_enabled info \<and> m \<in> {SyncAuto, SyncWaitAof}"

definition available_slaves :: "wait_support \<Rightarrow> cached_slave_info \<Rightarrow> i64" where
  "available_slaves ws info = (if ws_wait ws then connected_slaves info else 0)"

definition synced_batch_options :: "bool \<Rightarrow> i64 \<Rightarrow> duration \<Rightarrow> batch_options" where
  "synced_batch_options aof n t = (if aof then sync_aof 1 n t defaults else sync n t defaults)"

definition not_synced :: err where
  "not_synced = Msg (''None of slaves were synced. Try to increase slavesSyncTimeout ''
     @ ''or set checkLockSyncedSlaves = false.'')"

text \<open>
  The batch with its one command. The command is issued by a task of its own, so it may
  enter the queue before the batch runs or only after; the flag \<open>late\<close> says which. The
  result is that of the execution, and what awaiting the task's call yields afterwards.
\<close>

definition run_synced_batch ::
  "'w fred \<Rightarrow> redisson_config \<Rightarrow> 'w schedule \<Rightarrow> bool \<Rightarrow> batch_options \<Rightarrow> command \<Rightarrow> 'w globals \<Rightarrow>
   (err + batch_result) \<times> (err + rvalue) option \<times> 'w globals" where
  "run_synced_batch fr cfg sch late opts cmd s =
     (let sv = batch_new cfg opts
      in if late then
           (case execute_async fr cfg sch (sv, s) of
              (r, sv1, s1) \<Rightarrow>
                (case async0_batch fr cmd (sv1, s1) of
                   (Inl e, sv2, s2) \<Rightarrow> (r, Some (Inl e), s2)
                 | (Inr tx, sv2, s2) \<Rightarrow> (r, await_reply tx sv2, s2)))
         else
           (case async0_batch fr cmd (sv, s) of
              (q, sv1, s1) \<Rightarrow>
                (case execute_async fr cfg sch (sv1, s1) of
                   (r, sv2, s2) \<Rightarrow>
                     (r, (case q of Inl e \<Rightarrow> Some (Inl e) | Inr tx \<Rightarrow> await_reply tx sv2), s2))))"

text \<open>
  The loop of \<open>synced_eval\<close>; the result is absent when the call never returns. The
  scheduling of its (at most two) rounds is given by round.
\<close>

function synced_loop ::
  "'w fred \<Rightarrow> redisson_config \<Rightarrow> (bool \<Rightarrow> 'w schedule) \<Rightarrow> (bool \<Rightarrow> bool) \<Rightarrow> bool \<Rightarrow> i64 \<Rightarrow> server option \<Rightarrow>
   string \<Rightarrow> key list \<Rightarrow> rvalue list \<Rightarrow> bool \<Rightarrow> 'w globals \<Rightarrow> (err + rvalue) option \<times> 'w globals" where
  "synced_loop fr cfg sch late aof n node script ks vs loaded s =
     (case (if loaded then on_remote (fr_pool fr (QScriptLoadCluster script)) s else (Inr Null, s)) of
        (Inl e, s1) \<Rightarrow> (Some (Inl e), s1)
      | (Inr u, s1) \<Rightarrow>
          (case run_synced_batch fr cfg (sch loaded) (late loaded)
                  (synced_batch_options aof n (cf_slaves_sync_timeout cfg)) (Eval script ks vs) s1 of
             (Inl e, reply, s2) \<Rightarrow>
               if \<not> loaded \<and> str_contains (err_string e) ''NOSCRIPT'' then
                 synced_loop fr cfg sch late aof n node script ks vs True s2
               else (Some (Inl e), s2)
           | (Inr r, reply, s2) \<Rightarrow>
               (let s3 = (if synced_slaves r \<noteq> n then
                            (case node of Some srv \<Rightarrow> invalidate_slave_info srv s2 | None \<Rightarrow> s2)
                          else s2)
                in if cf_check_lock_synced_slaves cfg \<and> synced_slaves r = 0 \<and> 0 < sint n
                   then (Some (Inl not_synced), s3)
                   else (reply, s3))))"
  by pat_completeness auto
termination
  by (relation "measure (\<lambda>(fr, cfg, sch, late, aof, n, node, script, ks, vs, loaded, s).
    if loaded then 0 else 1)") auto

declare synced_loop.simps [simp del]

definition node_options :: "command_async_inner \<Rightarrow> server option \<Rightarrow> fred_options" where
  "node_options inner node = (call_options inner)\<lparr>cluster_node := node\<rparr>"

definition returns :: "(err + 'a) \<times> 's \<Rightarrow> (err + 'a) option \<times> 's" where
  "returns p = (Some (fst p), snd p)"

definition synced_eval ::
  "'w fred \<Rightarrow> redisson_config \<Rightarrow> service_kind \<Rightarrow> (bool \<Rightarrow> 'w schedule) \<Rightarrow> (bool \<Rightarrow> bool) \<Rightarrow> sync_mode \<Rightarrow> bool \<Rightarrow>
   string \<Rightarrow> key list \<Rightarrow> rvalue list \<Rightarrow> ('w, 'i) async_state \<Rightarrow>
   (err + rvalue) option \<times> ('w, 'i) async_state" where
  "synced_eval fr cfg k sch late m retry script ks vs st =
     (if is_standalone (cf_mode cfg) \<or> is_batch k then
        returns (eval_write_fallback fr cfg k retry script ks vs st)
      else
        (let node = map_option primary
               (get_write_entry fr (remote (as_globals st)) (keys_slot fr ks));
             opts = node_options (as_inner st) node
         in (case wait_support_of fr opts st of
               (Inl e, st1) \<Rightarrow> (Some (Inl e), st1)
             | (Inr ws, st1) \<Rightarrow>
                 if skip_sync m ws then returns (eval_write_fallback fr cfg k retry script ks vs st1)
                 else
                   (case on_globals (replication_info fr opts node) st1 of
                      (Inl e, st2) \<Rightarrow> (Some (Inl e), st2)
                    | (Inr info, st2) \<Rightarrow>
                        (let aof = use_aof m ws info; n = available_slaves ws info
                         in if n = 0 \<and> \<not> aof then
                              returns (eval_write_fallback fr cfg k retry script ks vs st2)
                            else
                              (case synced_loop fr cfg sch late aof n node script ks vs False
                                      (as_globals st2) of
                                 (r, s) \<Rightarrow> (r, st2\<lparr>as_globals := s\<rparr>)))))))"

definition synced_eval_with_retry where
  "synced_eval_with_retry fr cfg k sch late script ks vs =
     synced_eval fr cfg k sch late SyncWait True script ks vs"

definition synced_eval_no_retry where
  "synced_eval_no_retry fr cfg k sch late script ks vs =
     synced_eval fr cfg k sch late SyncWait False script ks vs"

end
