(* ===== verification/AsyncSpec.thy ===== *)
theory AsyncSpec
  imports Async BatchNodes
begin

text \<open>
  What the command service promises: which client-side caches a write evicts, that a script
  sent by digest does what the script itself would have done, that every request of an
  evaluation goes to one node, and when the synchronised evaluation returns.
\<close>

section \<open>Eviction\<close>

lemma evict_after_write_cleared:
  "as_cleared (evict_after_write cmd st) = as_cleared st @
     (if is_read_only cmd then []
      else case eviction_key cmd of None \<Rightarrow> []
        | Some name \<Rightarrow> evict_client_side_caching name (as_registry st))"
  by (simp add: evict_after_write_def has_caching_instances_def evict_client_side_caching_def
      split: option.split)

text \<open>The keys that a request of the client library names, in their order.\<close>

fun request_keys :: "request \<Rightarrow> key list" where
  "request_keys (QGet k) = [k]"
| "request_keys (QSet k v ex opt get) = [k]"
| "request_keys (QDel ks) = ks"
| "request_keys (QExists ks) = ks"
| "request_keys (QExpire k n) = [k]"
| "request_keys (QPexpire k n) = [k]"
| "request_keys (QTtl k) = [k]"
| "request_keys (QPttl k) = [k]"
| "request_keys (QPersist k) = [k]"
| "request_keys (QHGet k f) = [k]"
| "request_keys (QHSet k fv) = [k]"
| "request_keys (QHGetAll k) = [k]"
| "request_keys (QHDel k fs) = [k]"
| "request_keys (QHExists k f) = [k]"
| "request_keys (QHLen k) = [k]"
| "request_keys (QHIncrBy k f d) = [k]"
| "request_keys (QSAdd k ms) = [k]"
| "request_keys (QSRem k ms) = [k]"
| "request_keys (QSMembers k) = [k]"
| "request_keys (QSIsMember k m) = [k]"
| "request_keys (QSCard k) = [k]"
| "request_keys (QZAdd k opt ch incr sm) = [k]"
| "request_keys (QZRem k ms) = [k]"
| "request_keys (QZScore k m) = [k]"
| "request_keys (QZCard k) = [k]"
| "request_keys (QEval script ks vs) = ks"
| "request_keys (QEvalSha sha ks vs) = ks"
| "request_keys (QCustom name h vs) = (if name = ''SORT'' then [k. Bytes k \<leftarrow> vs] else [])"
| "request_keys _ = []"

lemma routing_key_request: "routing_key c = first_key (request_keys (base_request c))"
  by (cases c) (simp_all add: pipeline_request_def)

text \<open>What a write tells the client-side caches: its first key, if it has one that is text.\<close>

definition told_caches :: "'i service_manager \<Rightarrow> command \<Rightarrow> err + rvalue \<Rightarrow> ('i \<times> string) list" where
  "told_caches sm c r =
     (case (r, request_keys (base_request c)) of
        (Inr v, k # ks) \<Rightarrow>
          if \<not> is_read_only c \<and> utf8_valid (map of_char k)
          then map (\<lambda>(a, i). (arc_obj i, k)) (caching_instances sm) else []
      | _ \<Rightarrow> [])"

text \<open>Commands issued one after the other, with what they returned.\<close>

fun issue :: "'w fred \<Rightarrow> command list \<Rightarrow> ('w, 'i) async_state \<Rightarrow> (err + rvalue) list \<times> ('w, 'i) async_state" where
  "issue fr [] st = ([], st)"
| "issue fr (c # cs) st =
     (case async0 fr c st of (r, st1) \<Rightarrow> case issue fr cs st1 of (rs, st2) \<Rightarrow> (r # rs, st2))"

lemma async0_told:
  assumes "async0 fr c st = (r, st')"
  shows "as_cleared st' = as_cleared st @ told_caches (as_registry st) c r"
    and "as_registry st' = as_registry st"
  using assms
  by (auto simp: async0_def on_globals_def evict_after_write_cleared evict_client_side_caching_def
      told_caches_def eviction_key_def routing_key_request from_utf8_def evict_after_write_def
      has_caching_instances_def Let_def
      case_prod_unfold split: sum.splits list.split option.splits)

text \<open>
  C31: Which client-side caches are told to drop which keys. Over any sequence of commands,
  each successful write tells every registered cache once, in the order of the commands, to
  drop the first of the keys that its request names, and only this one: of a \<open>DEL\<close> with
  several keys, the others stay in the caches. A write without a key or with a key that is
  not valid UTF-8, a failed command and a read tell the caches nothing.
\<close>

theorem async0_evicts:
  "as_cleared (snd (issue fr cs st)) = as_cleared st @
     concat (map2 (told_caches (as_registry st)) cs (fst (issue fr cs st)))"
proof (induction cs arbitrary: st)
  case (Cons c cs)
  obtain r st1 where a: "async0 fr c st = (r, st1)" by fastforce
  obtain rs st2 where i: "issue fr cs st1 = (rs, st2)" by fastforce
  from Cons.IH [of st1] async0_told [OF a] a i show ?case by simp
qed simp

section \<open>Scripts by digest\<close>

text \<open>
  The documented behaviour of a server that the protocol relies on, at the node that the
  options name: \<open>EVALSHA\<close> runs the script if its digest is loaded and answers \<open>NOSCRIPT\<close>
  otherwise; \<open>SCRIPT LOAD\<close> loads it and does not change what scripts compute;
  for a script that is evaluated as read-only (one that does not write),
  \<open>EVALSHA_RO\<close> does the same as \<open>EVALSHA\<close> or is unknown; and a script's own error is
  none of these two answers.
\<close>

definition plain_error :: "err \<Rightarrow> bool" where
  "plain_error e \<longleftrightarrow>
     \<not> str_contains (err_string e) ''ERR unknown command'' \<and>
     \<not> str_contains (err_string e) ''NOSCRIPT'' \<and> \<not> unknown_command e"

definition no_script :: "err \<Rightarrow> bool" where
  "no_script e \<longleftrightarrow>
     \<not> str_contains (err_string e) ''ERR unknown command'' \<and>
     str_contains (err_string e) ''NOSCRIPT'' \<and> \<not> unknown_command e"

definition digest_server ::
  "'w fred \<Rightarrow> bool \<Rightarrow> fred_options \<Rightarrow> string \<Rightarrow> key list \<Rightarrow> rvalue list \<Rightarrow> ('w \<Rightarrow> bool) \<Rightarrow> bool" where
  "digest_server fr read_only opts script ks vs loaded \<longleftrightarrow>
     (\<forall>w.
        (let run = fr_call fr opts (QEval script ks vs);
             sha = fr_call fr opts (QEvalSha (fr_sha1 fr script) ks vs);
             sha_ro = fr_call fr opts
               (QCustom ''EVALSHA_RO'' FirstKey (script_args (fr_sha1 fr script) ks vs));
             load = fr_call fr opts (QCustom ''SCRIPT'' FirstKey [Str ''LOAD'', Str script])
         in (loaded w \<longrightarrow> sha w = run w) \<and>
            (\<not> loaded w \<longrightarrow> (\<exists>e. sha w = (Inl e, w) \<and> no_script e)) \<and>
            (read_only \<longrightarrow> sha_ro w = sha w \<or> (\<exists>e. sha_ro w = (Inl e, w) \<and> unknown_command e)) \<and>
            (\<exists>v w'. load w = (Inr v, w') \<and> loaded w' \<and> fst (run w') = fst (run w)) \<and>
            (\<forall>e. fst (run w) = Inl e \<longrightarrow> plain_error e)))"

lemma digest_serverD:
  assumes "digest_server fr read_only opts script ks vs loaded"
  shows "loaded w \<Longrightarrow> fr_call fr opts (QEvalSha (fr_sha1 fr script) ks vs) w =
      fr_call fr opts (QEval script ks vs) w"
    and "\<not> loaded w \<Longrightarrow> \<exists>e. fr_call fr opts (QEvalSha (fr_sha1 fr script) ks vs) w = (Inl e, w) \<and> no_script e"
    and "read_only \<Longrightarrow> fr_call fr opts (QCustom ''EVALSHA_RO'' FirstKey (script_args (fr_sha1 fr script) ks vs)) w =
        fr_call fr opts (QEvalSha (fr_sha1 fr script) ks vs) w \<or>
      (\<exists>e. fr_call fr opts (QCustom ''EVALSHA_RO'' FirstKey (script_args (fr_sha1 fr script) ks vs)) w
        = (Inl e, w) \<and> unknown_command e)"
    and "\<exists>v w'. fr_call fr opts (QCustom ''SCRIPT'' FirstKey [Str ''LOAD'', Str script]) w = (Inr v, w') \<and>
      loaded w' \<and> fst (fr_call fr opts (QEval script ks vs) w') = fst (fr_call fr opts (QEval script ks vs) w)"
    and "fst (fr_call fr opts (QEval script ks vs) w) = Inl e \<Longrightarrow> plain_error e"
  using assms unfolding digest_server_def Let_def by blast+

text \<open>One attempt by digest: the script's result, or \<open>NOSCRIPT\<close> with nothing changed.\<close>

lemma digest_attempt:
  assumes srv: "digest_server fr read_only opts script ks vs loaded"
    and cmd: "cmd = EvalSha (fr_sha1 fr script) ks vs \<or> read_only \<and> cmd = EvalShaRo (fr_sha1 fr script) ks vs"
    and ex: "execute fr opts cmd s = (r, t)"
  shows "if loaded (remote s) then r = fst (fr_call fr opts (QEval script ks vs) (remote s))
    else (\<exists>e. r = Inl e \<and> no_script e \<and> remote t = remote s)"
proof -
  let ?sha = "fr_call fr opts (QEvalSha (fr_sha1 fr script) ks vs)"
  have sha: "if loaded w then fst (?sha w) = fst (fr_call fr opts (QEval script ks vs) w)
      else (\<exists>e. ?sha w = (Inl e, w) \<and> no_script e)" for w
    using digest_serverD(1,2) [OF srv, of w] by auto
  have not_unknown: "fst (?sha w) = Inl e \<Longrightarrow> \<not> unknown_command e" for w e
    using sha [of w] digest_serverD(5) [OF srv, of w e]
    by (auto simp: plain_error_def no_script_def split: if_splits)
  have "r = fst (?sha (remote s)) \<and> remote t = snd (?sha (remote s))"
  proof (cases "cmd = EvalSha (fr_sha1 fr script) ks vs \<or> \<not> eval_sha_ro_supported s")
    case True
    with cmd ex show ?thesis by (auto simp: on_remote_apply)
  next
    case False
    with cmd have c: "cmd = EvalShaRo (fr_sha1 fr script) ks vs" "eval_sha_ro_supported s" "read_only" by auto
    from digest_serverD(3) [OF srv c(3), of "remote s"] show ?thesis
    proof (elim disjE exE conjE)
      let ?ro = "fr_call fr opts (QCustom ''EVALSHA_RO'' FirstKey (script_args (fr_sha1 fr script) ks vs))"
      assume "?ro (remote s) = ?sha (remote s)"
      with c ex not_unknown [of "remote s"] show ?thesis
        by (auto simp: on_remote_apply split: sum.splits)
    next
      fix e
      let ?ro = "fr_call fr opts (QCustom ''EVALSHA_RO'' FirstKey (script_args (fr_sha1 fr script) ks vs))"
      assume "?ro (remote s) = (Inl e, remote s)" and "unknown_command e"
      with c ex show ?thesis by (auto simp: on_remote_apply)
    qed
  qed
  with sha [of "remote s"] show ?thesis by (auto split: if_splits)
qed

text \<open>
  C17: Evaluating a script by its digest does what sending the script would have done,
  whether or not the node has it loaded and whether or not it knows the read-only command:
  the result is that of \<open>EVAL\<close> with the whole script. Only a script that is evaluated as
  read-only is ever sent by \<open>EVALSHA_RO\<close>, so only such a one must not write.
\<close>

theorem eval_pinned_as_eval:
  assumes "digest_server fr read_only opts script ks vs loaded" and "sha_cache_ok fr s"
  shows "fst (eval_pinned fr read_only opts script ks vs s) =
    fst (fr_call fr opts (QEval script ks vs) (remote s))"
proof -
  note srv = assms(1)
  let ?run = "\<lambda>w. fst (fr_call fr opts (QEval script ks vs) w)"
  obtain sha s1 where sha: "calc_sha fr script s = (sha, s1)" by fastforce
  with calc_sha_eq [OF assms(2)] have s1: "sha = fr_sha1 fr script" "remote s1 = remote s" by auto
  have cmd: "eval_command read_only sha ks vs x = EvalSha (fr_sha1 fr script) ks vs \<or>
      read_only \<and> eval_command read_only sha ks vs x = EvalShaRo (fr_sha1 fr script) ks vs" for x :: "'a globals"
    by (simp add: eval_command_def s1)
  obtain r s2 where ex: "execute fr opts (eval_command read_only sha ks vs s1) s1 = (r, s2)" by fastforce
  note a = digest_attempt [OF srv cmd ex]
  show ?thesis
  proof (cases "loaded (remote s1)")
    case True
    with a have r: "r = ?run (remote s)" using s1 by simp
    have "\<And>e. r = Inl e \<Longrightarrow> plain_error e" using digest_serverD(5) [OF srv] r by metis
    with sha ex show ?thesis
      by (cases r) (auto simp: eval_pinned_def plain_error_def r [symmetric])
  next
    case False
    with a obtain e where e: "r = Inl e" "no_script e" "remote s2 = remote s" using s1 by auto
    obtain v w' where l: "fr_call fr opts (QCustom ''SCRIPT'' FirstKey [Str ''LOAD'', Str script]) (remote s2)
        = (Inr v, w')" "loaded w'" "?run w' = ?run (remote s2)"
      using digest_serverD(4) [OF srv, of "remote s2"] by blast
    let ?s3 = "s2\<lparr>remote := w'\<rparr>"
    obtain r' s4 where ex': "execute fr opts (eval_command read_only sha ks vs ?s3) ?s3 = (r', s4)" by fastforce
    have "r' = ?run (remote s)" using digest_attempt [OF srv cmd ex'] l(2,3) e(3) by simp
    with sha ex e l(1) ex' show ?thesis
      by (simp add: eval_pinned_def no_script_def load_script_call_def on_remote_apply)
  qed
qed

section \<open>One node per evaluation\<close>

text \<open>The requests a program of the recorded client appends to the log.\<close>

definition appends ::
  "fred_options \<Rightarrow> request list \<Rightarrow> 'w logged globals \<Rightarrow> 'w logged globals \<Rightarrow> bool" where
  "appends opts qs s t \<longleftrightarrow>
     snd (remote t) = snd (remote s) @ map (\<lambda>q. (WithOptions opts, Some q)) qs"

lemma appends_Nil [simp]: "remote t = remote s \<Longrightarrow> appends opts [] s t"
  by (simp add: appends_def)

lemma appends_trans: "appends opts qs s t \<Longrightarrow> appends opts qs' t u \<Longrightarrow> appends opts (qs @ qs') s u"
  by (simp add: appends_def)

lemma call_appends:
  "on_remote (fr_call (logged fr) opts q) s = (r, t) \<Longrightarrow>
   appends opts [q] s t \<and> eval_sha_ro_supported t = eval_sha_ro_supported s"
  by (cases "remote s") (auto simp: appends_def on_remote_apply logged_call_apply)

text \<open>
  A script command is one request by digest; with the read-only command it may be that
  request and then the other, after which the read-only command is not tried again.
\<close>

lemma eval_command_appends:
  assumes "cmd \<in> {EvalSha sha ks vs, EvalShaRo sha ks vs}"
    and "execute (logged fr) opts cmd s = (r, t)"
  shows "\<exists>qs. appends opts qs s t \<and>
    set qs \<subseteq> {QEvalSha sha ks vs, QCustom ''EVALSHA_RO'' FirstKey (script_args sha ks vs)} \<and>
    (length qs = 1 \<or>
     length qs = 2 \<and> cmd = EvalShaRo sha ks vs \<and> eval_sha_ro_supported s \<and> \<not> eval_sha_ro_supported t)"
proof (cases "cmd = EvalShaRo sha ks vs \<and> eval_sha_ro_supported s")
  case False
  with assms have "on_remote (fr_call (logged fr) opts (QEvalSha sha ks vs)) s = (r, t)" by auto
  from call_appends [OF this] show ?thesis by (intro exI [of _ "[QEvalSha sha ks vs]"]) simp
next
  case True
  let ?ro = "QCustom ''EVALSHA_RO'' FirstKey (script_args sha ks vs)"
  obtain x t1 where x: "on_remote (fr_call (logged fr) opts ?ro) s = (x, t1)" by fastforce
  note a = call_appends [OF x]
  show ?thesis
  proof (cases "\<exists>e. x = Inl e \<and> unknown_command e")
    case False
    with assms(2) True x have "t = t1" by (auto split: sum.splits if_splits simp del: logged_simps)
    with a show ?thesis by (intro exI [of _ "[?ro]"]) simp
  next
    case unknown: True
    let ?t1 = "t1\<lparr>eval_sha_ro_supported := False\<rparr>"
    have t: "on_remote (fr_call (logged fr) opts (QEvalSha sha ks vs)) ?t1 = (r, t)"
      using assms(2) True x unknown by (auto simp del: logged_simps)
    have "appends opts [?ro] s ?t1" using a by (simp add: appends_def)
    from appends_trans [OF this] call_appends [OF t] True
    show ?thesis by (intro exI [of _ "[?ro, QEvalSha sha ks vs]"]) fastforce
  qed
qed

text \<open>Whether an attempt by digest was answered with \<open>NOSCRIPT\<close>.\<close>

definition answered_noscript :: "err + rvalue \<Rightarrow> bool" where
  "answered_noscript r \<longleftrightarrow>
     (\<exists>e. r = Inl e \<and> \<not> str_contains (err_string e) ''ERR unknown command'' \<and>
        str_contains (err_string e) ''NOSCRIPT'')"

text \<open>The four ways an evaluation by digest can go.\<close>

lemma eval_pinned_ways:
  assumes sha: "calc_sha fr script s = (sha, s1)"
    and t: "eval_pinned fr read_only opts script ks vs s = (r', t)"
  obtains
    (once) r where "execute fr opts (eval_command read_only sha ks vs s1) s1 = (r, t)"
      and "\<not> answered_noscript r"
  | (downgraded) e s2 where "execute fr opts (eval_command read_only sha ks vs s1) s1 = (Inl e, s2)"
      and "\<not> answered_noscript (Inl e)"
      and "execute fr opts (EvalSha sha ks vs) (s2\<lparr>eval_sha_ro_supported := False\<rparr>) = (r', t)"
  | (refused) e s2 e' where "execute fr opts (eval_command read_only sha ks vs s1) s1 = (Inl e, s2)"
      and "answered_noscript (Inl e)" and "load_script_call fr opts script s2 = (Inl e', t)"
  | (loaded) e s2 u s3 where "execute fr opts (eval_command read_only sha ks vs s1) s1 = (Inl e, s2)"
      and "answered_noscript (Inl e)" and "load_script_call fr opts script s2 = (Inr u, s3)"
      and "execute fr opts (eval_command read_only sha ks vs s3) s3 = (r', t)"
proof -
  obtain r s2 where ex: "execute fr opts (eval_command read_only sha ks vs s1) s1 = (r, s2)" by fastforce
  obtain l s3 where l: "load_script_call fr opts script s2 = (l, s3)" by fastforce
  show ?thesis
  proof (cases r)
    case (Inr v)
    with t sha ex show ?thesis by (intro once [of r]) (auto simp: eval_pinned_def answered_noscript_def)
  next
    case (Inl e)
    consider "str_contains (err_string e) ''ERR unknown command''"
      | "\<not> str_contains (err_string e) ''ERR unknown command''" "\<not> str_contains (err_string e) ''NOSCRIPT''"
      | "answered_noscript (Inl e)" by (auto simp: answered_noscript_def)
    then show ?thesis
    proof cases
      case 1
      with t sha ex Inl show ?thesis
        by (intro downgraded) (auto simp: eval_pinned_def answered_noscript_def)
    next
      case 2
      with t sha ex Inl show ?thesis
        by (intro once [of r]) (auto simp: eval_pinned_def answered_noscript_def)
    next
      case 3
      with t sha ex Inl l show ?thesis
        by (cases l) (auto simp: eval_pinned_def answered_noscript_def intro: refused loaded)
    qed
  qed
qed

text \<open>
  The requests of an evaluation: by digest, and once the text of the script exactly when that
  was asked for, never first.
\<close>

definition script_log :: "request \<Rightarrow> request set \<Rightarrow> bool \<Rightarrow> request list \<Rightarrow> bool" where
  "script_log load Q asked qs \<longleftrightarrow>
     qs \<noteq> [] \<and> length qs \<le> 4 \<and> hd qs \<in> Q \<and> set qs \<subseteq> insert load Q \<and>
     filter (\<lambda>q. q = load) qs = (if asked then [load] else [])"

lemma filter_outside: "set qs \<subseteq> Q \<Longrightarrow> x \<notin> Q \<Longrightarrow> filter (\<lambda>q. q = x) qs = []"
  by (auto simp: filter_empty_conv)

lemma script_log_plain:
  "set qs \<subseteq> Q \<Longrightarrow> load \<notin> Q \<Longrightarrow> qs \<noteq> [] \<Longrightarrow> length qs \<le> 4 \<Longrightarrow> script_log load Q False qs"
  using hd_in_set [of qs] by (auto simp: script_log_def filter_outside)

lemma script_log_loaded:
  "set qs \<subseteq> Q \<Longrightarrow> set qs' \<subseteq> Q \<Longrightarrow> load \<notin> Q \<Longrightarrow> qs \<noteq> [] \<Longrightarrow> length qs + length qs' \<le> 3 \<Longrightarrow>
   script_log load Q True (qs @ [load] @ qs')"
  using hd_in_set [of qs] by (auto simp: script_log_def filter_outside)

lemma load_appends:
  "load_script_call (logged fr) opts script s = (l, t) \<Longrightarrow>
   appends opts [QCustom ''SCRIPT'' FirstKey [Str ''LOAD'', Str script]] s t \<and>
   eval_sha_ro_supported t = eval_sha_ro_supported s"
  unfolding load_script_call_def by (rule call_appends)

lemma eval_pinned_log:
  assumes sha: "calc_sha (logged fr) script s = (sha, s1)"
  shows "\<exists>qs. appends opts qs s (snd (eval_pinned (logged fr) read_only opts script ks vs s)) \<and>
    script_log (QCustom ''SCRIPT'' FirstKey [Str ''LOAD'', Str script])
      {QEvalSha sha ks vs, QCustom ''EVALSHA_RO'' FirstKey (script_args sha ks vs)}
      (answered_noscript (fst (execute (logged fr) opts (eval_command read_only sha ks vs s1) s1))) qs"
proof -
  let ?load = "QCustom ''SCRIPT'' FirstKey [Str ''LOAD'', Str script]"
  let ?Q = "{QEvalSha sha ks vs, QCustom ''EVALSHA_RO'' FirstKey (script_args sha ks vs)}"
  have load: "?load \<notin> ?Q" by (simp add: script_args_def)
  have cmd: "eval_command read_only sha ks vs x \<in> {EvalSha sha ks vs, EvalShaRo sha ks vs}"
    for x :: "'a logged globals" by (simp add: eval_command_def)
  have start: "appends opts qs s u" if "appends opts qs s1 u" for qs u
    using that calc_sha_frame(3) [of "logged fr" script s] sha by (simp add: appends_def)
  obtain r' t where t: "eval_pinned (logged fr) read_only opts script ks vs s = (r', t)" by fastforce
  show ?thesis unfolding t snd_conv using sha t
  proof (cases rule: eval_pinned_ways)
    case (once r)
    from eval_command_appends [OF cmd once(1)] obtain qs where "appends opts qs s1 t" "set qs \<subseteq> ?Q"
      "length qs = 1 \<or> length qs = 2" by blast
    with start load once show "\<exists>qs. appends opts qs s t \<and> script_log ?load ?Q
        (answered_noscript (fst (execute (logged fr) opts (eval_command read_only sha ks vs s1) s1))) qs"
      by (intro exI [of _ qs]) (auto intro!: script_log_plain)
  next
    case (downgraded e s2)
    from eval_command_appends [OF cmd downgraded(1)] obtain qs where qs: "appends opts qs s1 s2"
      "set qs \<subseteq> ?Q" "length qs = 1 \<or> length qs = 2" by blast
    from eval_command_appends [OF _ downgraded(3), of sha ks vs] obtain qs2 where
      qs2: "appends opts qs2 (s2\<lparr>eval_sha_ro_supported := False\<rparr>) t" "set qs2 \<subseteq> ?Q" "length qs2 = 1" by auto
    have "appends opts (qs @ qs2) s t" using start [OF qs(1)] qs2(1) by (auto simp: appends_def)
    moreover have "script_log ?load ?Q False (qs @ qs2)"
      using qs(2,3) qs2(2,3) load by (intro script_log_plain) auto
    ultimately show "\<exists>qs. appends opts qs s t \<and> script_log ?load ?Q
        (answered_noscript (fst (execute (logged fr) opts (eval_command read_only sha ks vs s1) s1))) qs"
      using downgraded(1,2) by auto
  next
    case (refused e s2 e')
    from eval_command_appends [OF cmd refused(1)] obtain qs where qs: "appends opts qs s1 s2"
      "set qs \<subseteq> ?Q" "length qs = 1 \<or> length qs = 2" by blast
    have "script_log ?load ?Q True (qs @ [?load] @ [])"
      by (rule script_log_loaded) (use qs(2,3) load in auto)
    moreover have "appends opts (qs @ [?load] @ []) s t"
      using appends_trans [OF start [OF qs(1)]] load_appends [OF refused(3)] by simp
    ultimately show "\<exists>qs. appends opts qs s t \<and> script_log ?load ?Q
        (answered_noscript (fst (execute (logged fr) opts (eval_command read_only sha ks vs s1) s1))) qs"
      using refused(1,2) by auto
  next
    case (loaded e s2 u s3)
    from eval_command_appends [OF cmd loaded(1)] obtain qs where qs: "appends opts qs s1 s2"
      "set qs \<subseteq> ?Q" "length qs = 1 \<or> length qs = 2 \<and> \<not> eval_sha_ro_supported s2" by blast
    note l = load_appends [OF loaded(3)]
    from eval_command_appends [OF cmd loaded(4)] obtain qs3 where qs3: "appends opts qs3 s3 t"
      "set qs3 \<subseteq> ?Q" "length qs3 = 1 \<or> length qs3 = 2 \<and> eval_sha_ro_supported s3" by blast
    have "appends opts (qs @ [?load] @ qs3) s t"
      using appends_trans [OF appends_trans [OF start [OF qs(1)] conjunct1 [OF l]] qs3(1)] by simp
    moreover have "script_log ?load ?Q True (qs @ [?load] @ qs3)"
      by (rule script_log_loaded) (use qs(2,3) qs3(2,3) load l in auto)
    ultimately show "\<exists>qs. appends opts qs s t \<and> script_log ?load ?Q
        (answered_noscript (fst (execute (logged fr) opts (eval_command read_only sha ks vs s1) s1))) qs"
      using loaded(1,2) by auto
  qed
qed

text \<open>The options of an evaluation name the primary of its first key.\<close>

lemma pinned_node:
  assumes "cluster_node opts = None"
  shows "pinned_options fr opts ks s =
    opts\<lparr>cluster_node := map_option primary (get_write_entry fr (remote s) (keys_slot fr ks))\<rparr>"
  using assms by (cases opts) (simp add: pinned_options_def split: option.split)

lemma logged_host [simp]: "first_host_entry (logged fr) wl = first_host_entry fr (fst wl)"
  by (simp add: first_host_entry_def)

lemma logged_entry [simp]: "get_write_entry (logged fr) wl sl = get_write_entry fr (fst wl) sl"
  by (simp add: get_write_entry_def split: option.split)

lemma logged_slot [simp]: "keys_slot (logged fr) ks = keys_slot fr ks"
  by (simp add: keys_slot_def split: list.split)

text \<open>
  C18: With the script cache active, an evaluation on the plain service talks to one node only:
  all its requests carry the same options, which name the primary of its first key (of slot
  zero without a key, and no node if the lookup finds none). There are at least one and at
  most four of them. The first is by digest, and the text of the script travels exactly
  once if that attempt was answered with \<open>NOSCRIPT\<close>, and not at all otherwise.
\<close>

theorem eval_pinned_one_node:
  assumes "cf_use_script_cache cfg"
    and "calc_sha (logged fr) script (as_globals st) = (sha, s1)"
    and "opts = (eval_options (as_inner st) no_retry)\<lparr>cluster_node :=
      map_option primary (get_write_entry fr (fst (remote (as_globals st))) (keys_slot fr ks))\<rparr>"
    and "attempt = execute (logged fr) opts (eval_command read_only sha ks vs s1) s1"
    and "load = QCustom ''SCRIPT'' FirstKey [Str ''LOAD'', Str script]"
  shows "\<exists>qs. snd (remote (as_globals
        (snd (eval_async (logged fr) cfg PlainService read_only no_retry script ks vs st)))) =
      snd (remote (as_globals st)) @ map (\<lambda>q. (WithOptions opts, Some q)) qs \<and>
    qs \<noteq> [] \<and> length qs \<le> 4 \<and> hd qs \<noteq> load \<and>
    set qs \<subseteq> {QEvalSha sha ks vs, QCustom ''EVALSHA_RO'' FirstKey (script_args sha ks vs), load} \<and>
    filter (\<lambda>q. q = load) qs = (if answered_noscript (fst attempt) then [load] else [])"
proof -
  have none: "cluster_node (eval_options (as_inner st) no_retry) = None"
    by (simp add: eval_options_def call_options_def)
  have run: "as_globals (snd (eval_async (logged fr) cfg PlainService read_only no_retry script ks vs st)) =
      snd (eval_pinned (logged fr) read_only opts script ks vs (as_globals st))"
    using assms(1,3) pinned_node [OF none, of "logged fr" ks "as_globals st"]
    by (simp add: eval_async_def is_eval_cache_active_def on_globals_def case_prod_unfold Let_def)
  have "load \<notin> {QEvalSha sha ks vs, QCustom ''EVALSHA_RO'' FirstKey (script_args sha ks vs)}"
    by (simp add: assms(5) script_args_def)
  with eval_pinned_log [OF assms(2), where read_only = read_only and opts = opts and ks = ks and vs = vs]
  show ?thesis unfolding run assms(4) appends_def script_log_def assms(5) [symmetric] by auto
qed

section \<open>Synchronised evaluation\<close>

lemma synced_options [simp]:
  "bo_execution_mode (synced_batch_options aof n t) = InMemory"
  "bo_sync_slaves (synced_batch_options aof n t) = n"
  "\<not> bo_skip_result (synced_batch_options aof n t)"
  "\<not> is_redis_based_queue (synced_batch_options aof n t)"
  by (simp_all add: synced_batch_options_def sync_def sync_aof_def defaults_def is_redis_based_queue_def)

lemma async0_in_memory:
  "bs_state sv = BInMemory ds \<Longrightarrow>
   async0_batch fr cmd (sv, s) =
     (Inr (bs_channels sv),
      sv\<lparr>bs_channels := bs_channels sv + 1, bs_next_index := bs_next_index sv + 1,
         bs_state := BInMemory (ds @ [\<lparr>bc_cmd = cmd, bc_tx = bs_channels sv, bc_index = bs_next_index sv\<rparr>])\<rparr>,
      s)"
  by (simp add: async0_batch_def reserve_def enqueue_def)

lemma run_tasks_cut:
  "run_tasks fr cfg opts (sch\<lparr>sc_cut := k\<rparr>) = run_tasks fr cfg opts sch"
  "sc_shuffle (sch\<lparr>sc_cut := k\<rparr>) = sc_shuffle sch"
  "sc_effect (sch\<lparr>sc_cut := k\<rparr>) = sc_effect sch"
  by (simp_all add: run_tasks_def fun_eq_iff)

lemma execute_in_memory_cut:
  "execute_in_memory fr cfg (sch\<lparr>sc_cut := k\<rparr>) atomic = execute_in_memory fr cfg sch atomic"
  unfolding execute_in_memory_def run_tasks_cut ..

lemma execute_async_cut:
  "\<not> is_redis_based_queue (bs_options sv) \<Longrightarrow>
   execute_async fr cfg (sch\<lparr>sc_cut := k\<rparr>) (sv, s) = execute_async fr cfg sch (sv, s)"
  by (simp add: execute_async_def is_redis_based_queue_def execute_in_memory_cut Let_def
      split: execution_mode.split)

text \<open>A command that entered the queue first is answered by the execution.\<close>

lemma run_synced_batch_answered:
  assumes "sched_ok sch" and "\<not> is_redis_based_queue opts"
    and run: "run_synced_batch fr cfg sch False opts cmd s = (r, reply, s')"
  shows "reply \<noteq> None"
proof -
  let ?sv = "batch_new cfg opts"
  have mem: "bs_state ?sv = BInMemory []" "bs_channels ?sv = 0" "bs_next_index ?sv = 0"
    "bs_options ?sv = opts" "\<not> bs_executed ?sv"
    using assms(2) by (simp_all add: batch_new_def Let_def)
  obtain sv1 where a: "async0_batch fr cmd (?sv, s) = (Inr 0, sv1, s)" and sv1:
    "bs_options sv1 = opts" "\<not> bs_executed sv1" "bs_channels sv1 = 1"
    and step: "reserve ?sv = ((0, 0), ?sv\<lparr>bs_channels := 1, bs_next_index := 1\<rparr>)"
      "enqueue fr cmd 0 0 (?sv\<lparr>bs_channels := 1, bs_next_index := 1\<rparr>, s) = (Inr 0, sv1, s)"
    using mem by (simp add: async0_in_memory reserve_def enqueue_def)
  have "batch_inv [(0, 0)] (?sv\<lparr>bs_channels := 1, bs_next_index := 1\<rparr>)"
    using batch_inv_reserve [OF batch_inv_new step(1)] .
  from enqueue_inv [OF this, of "(0, 0)"] step(2) have inv: "batch_inv [] sv1" by simp
  have mode: "mode_ok sv1"
    using mode_ok_enqueue [OF step(2)] mode_ok_new [of cfg opts] by (simp add: mode_ok_def)
  let ?sch = "sch\<lparr>sc_cut := Finishes\<rparr>"
  obtain x sv2 s2 where ex: "execute_async fr cfg sch (sv1, s) = (x, sv2, s2)"
    by (metis prod_cases3)
  then have ex': "execute_async fr cfg ?sch (sv1, s) = (x, sv2, s2)"
    using execute_async_cut [where sv = sv1 and fr = fr and cfg = cfg and sch = sch and k = Finishes and s = s] sv1(1) assms(2) by simp
  have ok: "sched_ok ?sch" using assms(1) by (simp add: sched_ok_def)
  have "batch_inv [] sv2" by (rule execute_async_inv [OF ok ex' inv])
  moreover have "queue_pairs (bs_state sv2) = []"
    by (rule execute_empties_queue [OF ex' sv1(2) mode]) simp
  moreover have "bs_channels sv2 = 1"
    using execute_async_effect [OF ok ex' sv1(2)] sv1(3) by (auto simp: takes_queue_def)
  ultimately have "bs_promises sv2 0 \<noteq> None" by (simp add: batch_inv_def queue_ok_def)
  then have "await_reply 0 sv2 \<noteq> None" by (auto simp: await_reply_def split: outcome.split)
  with run a ex show ?thesis by (auto simp: run_synced_batch_def Let_def)
qed

lemma synced_loop_second_returns:
  assumes "\<And>b. sched_ok (sch b)" and "\<And>b. \<not> late b"
  shows "fst (synced_loop fr cfg sch late aof n node script ks vs True s) \<noteq> None"
proof -
  obtain l s1 where l: "on_remote (fr_pool fr (QScriptLoadCluster script)) s = (l, s1)" by fastforce
  obtain r reply s2 where run: "run_synced_batch fr cfg (sch True) False
      (synced_batch_options aof n (cf_slaves_sync_timeout cfg)) (Eval script ks vs) s1 = (r, reply, s2)"
    by (metis prod_cases3)
  from run_synced_batch_answered [OF assms(1) _ run] have "reply \<noteq> None" by simp
  with l run assms(2) show ?thesis
    by (subst synced_loop.simps) (simp add: Let_def split: sum.split)
qed

lemma synced_loop_returns:
  assumes "\<And>b. sched_ok (sch b)" and "\<And>b. \<not> late b"
  shows "fst (synced_loop fr cfg sch late aof n node script ks vs False s) \<noteq> None"
proof -
  obtain r reply s2 where run: "run_synced_batch fr cfg (sch False) False
      (synced_batch_options aof n (cf_slaves_sync_timeout cfg)) (Eval script ks vs) s = (r, reply, s2)"
    by (metis prod_cases3)
  from run_synced_batch_answered [OF assms(1) _ run] have "reply \<noteq> None" by simp
  moreover have "fst (synced_loop fr cfg sch late aof n node script ks vs True s2) \<noteq> None"
    by (rule synced_loop_second_returns [OF assms])
  ultimately show ?thesis using run assms(2)
    by (subst synced_loop.simps) (simp add: Let_def split: sum.split)
qed

text \<open>
  C19: A synchronised evaluation returns, provided the task that issues its command gets to
  the queue before the batch is executed: whatever the servers answer and whatever the
  scheduler does otherwise, there is a result.
\<close>

theorem synced_eval_returns:
  assumes "\<forall>b. sched_ok (sch b)" and "\<forall>b. \<not> late b"
  shows "fst (synced_eval fr cfg k sch late m retry script ks vs st) \<noteq> None"
proof -
  have "fst (synced_loop fr cfg sch late aof n node script ks vs False s) \<noteq> None" for aof n node s
    using synced_loop_returns assms by blast
  then have loop: "synced_loop fr cfg sch late aof n node script ks vs False s = (r, t) \<Longrightarrow> r \<noteq> None"
    for aof n node s r t by (metis fst_conv)
  show ?thesis
    by (auto simp: synced_eval_def returns_def Let_def dest: loop split: sum.splits prod.splits)
qed

text \<open>The replication state recorded for the node that an evaluation was meant for, dropped.\<close>

definition invalidate_node :: "server option \<Rightarrow> 'w globals \<Rightarrow> 'w globals" where
  "invalidate_node node s = (case node of Some srv \<Rightarrow> invalidate_slave_info srv s | None \<Rightarrow> s)"

text \<open>
  C20: Nothing makes the task be first. When it is not, the batch runs empty: the script is
  never sent, and the servers are left as they were. If replicas are to be waited for, the
  cached replication state of the node is dropped, and with the check for them on the call
  fails with "None of slaves were synced". In every other case, with that check off or with
  no replica to wait for (the append-only file alone), the call never returns.
\<close>

theorem synced_eval_late:
  assumes "late False"
  shows "synced_loop fr cfg sch late aof n node script ks vs False s =
    (if cf_check_lock_synced_slaves cfg \<and> 0 < sint n then Some (Inl not_synced) else None,
     if n = 0 then s else invalidate_node node s)"
proof -
  let ?opts = "synced_batch_options aof n (cf_slaves_sync_timeout cfg)"
  have st: "bs_state (batch_new cfg ?opts) = BInMemory []" "bs_options (batch_new cfg ?opts) = ?opts"
    "\<not> bs_executed (batch_new cfg ?opts)" "bs_promises (batch_new cfg ?opts) = (\<lambda>c. None)"
    by (simp_all add: batch_new_def Let_def)
  have "execute_async fr cfg (sch False) (batch_new cfg ?opts, s) =
      (Inr (batch_result_new [] 0), (batch_new cfg ?opts)\<lparr>bs_executed := True\<rparr>, s)"
    using st by (simp add: execute_async_def execute_in_memory_def Let_def)
  then have "run_synced_batch fr cfg (sch False) True ?opts (Eval script ks vs) s =
      (Inr (batch_result_new [] 0), None, s)"
    using st by (simp add: run_synced_batch_def Let_def async0_in_memory await_reply_def)
  with assms show ?thesis
    by (subst synced_loop.simps) (simp add: batch_result_new_def invalidate_node_def Let_def)
qed

lemma shuffle_single:
  "sched_ok sch \<Longrightarrow> sc_shuffle sch [x] = [x]" "sched_ok sch \<Longrightarrow> sc_order sch [t] = [t]"
proof -
  assume ok: "sched_ok sch"
  have "mset (sc_shuffle sch [x]) = {#x#}" "mset (sc_order sch [t]) = {#t#}"
    using ok by (simp_all add: sched_ok_def)
  then show "sc_shuffle sch [x] = [x]" "sc_order sch [t] = [t]" by simp_all
qed

lemma keys_slot_eval: "slot_of fr (Eval script ks vs) = keys_slot fr ks"
  by (cases ks) (simp_all add: slot_of_def keys_slot_def)

text \<open>The one entry of the batch, and the request its script becomes.\<close>

definition script_entry :: "command \<Rightarrow> batch_entry" where
  "script_entry c = \<lparr>be_commands = [\<lparr>bc_cmd = c, bc_tx = 0, bc_index = 0\<rparr>], be_read_only = False\<rparr>"

definition script_request :: "'w fred \<Rightarrow> redisson_config \<Rightarrow> string \<Rightarrow> key list \<Rightarrow> rvalue list \<Rightarrow> request" where
  "script_request fr cfg script ks vs =
     (if cf_use_script_cache cfg then QCustom ''EVALSHA'' FirstKey (script_args (fr_sha1 fr script) ks vs)
      else QCustom ''EVAL'' FirstKey (script_args script ks vs))"

lemma load_script_entry:
  assumes "sha_cache_ok fr s"
    and "load_scripts fr cfg [(nd, script_entry (Eval script ks vs))] s = (Inr nm, s1)"
  obtains c where "nm = [(nd, script_entry c)]" and "pipeline_request c = script_request fr cfg script ks vs"
proof (cases "cf_use_script_cache cfg")
  case True
  from load_scripts_spec [OF True assms] have "nm = [(nd, script_entry (EvalSha (fr_sha1 fr script) ks vs))]"
    by (simp add: script_entry_def use_digest_def)
  then show ?thesis
    by (rule that) (simp add: True pipeline_request_def script_request_def)
next
  case False
  then show ?thesis using assms(2)
    by (intro that [of "Eval script ks vs"])
      (simp_all add: load_scripts_def pipeline_request_def script_request_def)
qed

text \<open>The run of a batch with one queued command.\<close>

lemma run_tasks_single:
  assumes "sched_ok sch" and "accepts_all fr" and "\<not> bo_skip_result opts"
    and "sc_replies sch u nd False
        (pipeline_request c # (if syncs opts then [wait_request opts (slot_or_0 (mse_slot nd))] else [])) =
      r # (if syncs opts then [w] else [])"
  shows "run_tasks fr cfg opts sch False u [(nd, script_entry c)] =
    ([(0, Resolved (Inr (value_or_null r)))],
     Inr (if syncs opts then extract_synced_slaves (Some w) else 0, [(0, value_or_null r)]))"
proof -
  have pop1: "pop [r, w] = (Some w, [r])" using pop_snoc [of "[r]" w] by simp
  show ?thesis
    using assms
    by (cases "syncs opts")
      (simp_all add: run_tasks_def shuffle_single node_task_def use_replica_def build_pipeline_requests
        pipeline_requests_def script_entry_def handle_replies_def pop1 Let_def)
qed

text \<open>
  C21: What a synchronised evaluation returns once its batch ran on the node of the key, the
  script being loaded there first where the script cache asks for that (and sent by digest
  then): the
  reply of the script, and null in place of an error of the script, so that a failed script
  (an unknown digest included) looks like one that returned nothing. Where replicas are to
  be waited for, the other reply is the
  number of synced replicas: a number that is not the expected one drops the cached
  replication state of the node, and none at all is an error when the check is on. Where
  none are, no wait is sent at all, even if the append-only file was to be waited for.
\<close>

theorem synced_eval_result:
  assumes "sched_ok (sch False)" and "\<not> late False" and "accepts_all fr"
    and "sha_cache_ok fr s"
    and "get_write_entry fr (remote s) (keys_slot fr ks) = Some nd"
    and "load_scripts fr cfg [(nd, script_entry (Eval script ks vs))] s = (Inr nm, s1)"
    and "opts = synced_batch_options aof n (cf_slaves_sync_timeout cfg)"
    and "sc_replies (sch False) (remote s1) nd False
        (script_request fr cfg script ks vs #
          (if 0 < sint n then [wait_request opts (slot_or_0 (mse_slot nd))] else []))
      = r # (if 0 < sint n then [w] else [])"
    and "synced = (if 0 < sint n then extract_synced_slaves (Some w) else 0)"
  shows "synced_loop fr cfg sch late aof n node script ks vs False s =
    (if cf_check_lock_synced_slaves cfg \<and> 0 < sint n \<and> synced = 0
     then Some (Inl not_synced) else Some (Inr (value_or_null r)),
     (if synced \<noteq> n then invalidate_node node else id) (s1\<lparr>remote := sc_effect (sch False) (remote s1)\<rparr>))"
proof -
  let ?s' = "s1\<lparr>remote := sc_effect (sch False) (remote s1)\<rparr>"
  let ?d = "\<lparr>bc_cmd = Eval script ks vs, bc_tx = 0, bc_index = 0\<rparr>"
  let ?sv = "batch_new cfg opts"
  have mode: "bo_execution_mode opts = InMemory" "\<not> bo_skip_result opts" "syncs opts \<longleftrightarrow> 0 < sint n"
    "\<not> is_redis_based_queue opts"
    using assms(7) by (simp_all add: syncs_def)
  have st: "bs_state ?sv = BInMemory []" "bs_options ?sv = opts" "\<not> bs_executed ?sv"
    "bs_channels ?sv = 0" "bs_next_index ?sv = 0"
    using mode(4) by (simp_all add: batch_new_def Let_def)
  have entry: "add_command ?d batch_entry_new = script_entry (Eval script ks vs)"
    by (simp add: add_command_def batch_entry_new_def script_entry_def Let_def)
  have grp: "group_by_node fr (bs_retry_attempts ?sv) (bs_retry_delay ?sv) [?d] [] (remote s) =
      (Inr [(nd, script_entry (Eval script ks vs))], remote s)"
    using resolve_entry_known [of fr "remote s" "keys_slot fr ks" nd] assms(5)
    by (simp add: keys_slot_eval entry)
  obtain c where c: "nm = [(nd, script_entry c)]" "pipeline_request c = script_request fr cfg script ks vs"
    by (rule load_script_entry [OF assms(4,6)])
  have reply: "sc_replies (sch False) (remote s1) nd False
        (pipeline_request c # (if syncs opts then [wait_request opts (slot_or_0 (mse_slot nd))] else [])) =
      r # (if syncs opts then [w] else [])"
    using assms(8) unfolding c(2) mode(3) .
  have run: "run_tasks fr cfg opts (sch False) False (remote s1) nm =
    ([(0, Resolved (Inr (value_or_null r)))], Inr (synced, [(0, value_or_null r)]))"
    using run_tasks_single [OF assms(1,3) mode(2) reply] unfolding mode(3) c(1) assms(9) .
  obtain sv1 where sv1: "async0_batch fr (Eval script ks vs) (?sv, s) = (Inr 0, sv1, s)"
    "bs_state sv1 = BInMemory [?d]" "bs_options sv1 = opts" "\<not> bs_executed sv1"
    "bs_retry_attempts sv1 = bs_retry_attempts ?sv" "bs_retry_delay sv1 = bs_retry_delay ?sv"
    using st by (simp add: async0_in_memory)
  have "execute_async fr cfg (sch False) (sv1, s) =
      (Inr (batch_result_new [value_or_null r] synced),
       settle [(0, Resolved (Inr (value_or_null r)))]
         (sv1\<lparr>bs_executed := True, bs_state := BInMemory []\<rparr>), ?s')"
    using sv1 mode(1,2) grp assms(6) run shuffle_single(1) [OF assms(1)]
    by (simp add: execute_async_def execute_in_memory_def Let_def on_remote_apply)
  then have "run_synced_batch fr cfg (sch False) False opts (Eval script ks vs) s =
      (Inr (batch_result_new [value_or_null r] synced),
       Some (Inr (value_or_null r)), ?s')"
    using sv1(1) by (simp add: run_synced_batch_def Let_def await_reply_def settle_def)
  then show ?thesis
    using assms(2,7)
    by (subst synced_loop.simps) (auto simp: batch_result_new_def invalidate_node_def Let_def)
qed

end
