(* ===== verification/Renewal.thy ===== *)
theory Renewal
  imports Prelude
begin

text \<open>
  The bookkeeping of lock holders: \<open>LockEntry\<close> of \<open>src/renewal/lock_entry.rs\<close> and the list of
  waiting tasks of \<open>src/pubsub/redisson_lock_entry.rs\<close> (whose wake-up signal belongs to the
  runtime and is an argument). A lock entry keeps a counter and a lock name per thread and
  a queue of thread ids; the specification is one list of holders in the order in which
  they came, and the lock entry refines it.
\<close>

section \<open>Lock entries\<close>

record lock_entry =
  thread2lock_name :: "string \<rightharpoonup> string"
  thread_counter :: "string \<rightharpoonup> nat"
  threads_queue :: "string list"

definition lock_entry_new :: lock_entry where
  "lock_entry_new =
     \<lparr>thread2lock_name = Map.empty, thread_counter = Map.empty, threads_queue = []\<rparr>"

definition add_thread_id :: "string \<Rightarrow> string \<Rightarrow> lock_entry \<Rightarrow> lock_entry" where
  "add_thread_id t name le =
     (let n = (case thread_counter le t of Some n \<Rightarrow> n | None \<Rightarrow> 0)
      in le\<lparr>thread_counter := (thread_counter le)(t \<mapsto> n + 1),
            threads_queue := threads_queue le @ [t],
            thread2lock_name :=
              (case thread2lock_name le t of
                 Some l \<Rightarrow> thread2lock_name le
               | None \<Rightarrow> (thread2lock_name le)(t \<mapsto> name))\<rparr>)"

definition remove_thread_id :: "string \<Rightarrow> lock_entry \<Rightarrow> lock_entry" where
  "remove_thread_id t le =
     (case thread_counter le t of
        None \<Rightarrow> le
      | Some n \<Rightarrow>
          if n - 1 = 0 then
            le\<lparr>thread_counter := (thread_counter le)(t := None),
               thread2lock_name := (thread2lock_name le)(t := None),
               threads_queue := filter (\<lambda>u. u \<noteq> t) (threads_queue le)\<rparr>
          else le\<lparr>thread_counter := (thread_counter le)(t \<mapsto> n - 1)\<rparr>)"

definition has_no_threads :: "lock_entry \<Rightarrow> bool" where
  "has_no_threads le \<longleftrightarrow> threads_queue le = []"

definition get_first_lock_name :: "lock_entry \<Rightarrow> string option" where
  "get_first_lock_name le =
     (case threads_queue le of [] \<Rightarrow> None | t # ts \<Rightarrow> thread2lock_name le t)"

section \<open>The specification: holders in order\<close>

type_synonym holders = "(string \<times> string \<times> nat) list"

fun acquire :: "string \<Rightarrow> string \<Rightarrow> holders \<Rightarrow> holders" where
  "acquire t name [] = [(t, name, 1)]"
| "acquire t name ((u, l, n) # hs) =
     (if u = t then (u, l, n + 1) # hs else (u, l, n) # acquire t name hs)"

fun release :: "string \<Rightarrow> holders \<Rightarrow> holders" where
  "release t [] = []"
| "release t ((u, l, n) # hs) =
     (if u = t then (if n = 1 then hs else (u, l, n - 1) # hs) else (u, l, n) # release t hs)"

datatype lock_event = Acquire string string | Release string

fun lock_apply :: "lock_event \<Rightarrow> lock_entry \<Rightarrow> lock_entry" where
  "lock_apply (Acquire t name) le = add_thread_id t name le"
| "lock_apply (Release t) le = remove_thread_id t le"

fun holders_apply :: "lock_event \<Rightarrow> holders \<Rightarrow> holders" where
  "holders_apply (Acquire t name) hs = acquire t name hs"
| "holders_apply (Release t) hs = release t hs"

definition lock_run :: "lock_event list \<Rightarrow> lock_entry" where
  "lock_run es = fold lock_apply es lock_entry_new"

definition holders_run :: "lock_event list \<Rightarrow> holders" where
  "holders_run es = fold holders_apply es []"

section \<open>The refinement\<close>

text \<open>The first occurrences in a list, in order.\<close>

definition firsts :: "'a list \<Rightarrow> 'a list" where
  "firsts q = rev (remdups (rev q))"

lemma firsts_append: "firsts (q @ [x]) = (if x \<in> set q then firsts q else firsts q @ [x])"
  by (simp add: firsts_def)

lemma firsts_filter: "firsts (filter P q) = filter P (firsts q)"
  by (simp add: firsts_def remdups_filter rev_filter)

lemma set_firsts [simp]: "set (firsts q) = set q"
  by (simp add: firsts_def)

lemma last_remdups: "xs \<noteq> [] \<Longrightarrow> last (remdups xs) = last xs"
  by (induction xs) auto

lemma hd_firsts: "q \<noteq> [] \<Longrightarrow> hd (firsts q) = hd q"
  by (simp add: firsts_def hd_rev last_remdups last_rev)

definition holders_rel :: "lock_entry \<Rightarrow> holders \<Rightarrow> bool" where
  "holders_rel le hs \<longleftrightarrow>
     distinct (map fst hs) \<and> (\<forall>(t, l, n) \<in> set hs. 0 < n) \<and>
     thread2lock_name le = map_option fst \<circ> map_of hs \<and>
     thread_counter le = map_option snd \<circ> map_of hs \<and>
     firsts (threads_queue le) = map fst hs"

lemma acquire_keys:
  "map fst (acquire t name hs) = (if t \<in> fst ` set hs then map fst hs else map fst hs @ [t])"
  by (induction t name hs rule: acquire.induct) auto

lemma map_of_acquire:
  "map_of (acquire t name hs) =
     (map_of hs)(t \<mapsto> (case map_of hs t of Some (l, n) \<Rightarrow> (l, n + 1) | None \<Rightarrow> (name, 1)))"
  by (induction t name hs rule: acquire.induct) (auto simp: fun_eq_iff)

lemma release_keys:
  "distinct (map fst hs) \<Longrightarrow>
   map fst (release t hs) =
     (if map_option snd (map_of hs t) = Some 1 then filter (\<lambda>u. u \<noteq> t) (map fst hs) else map fst hs)"
proof (induction t hs rule: release.induct)
  case (2 t u l n hs)
  show ?case
  proof (cases "u = t")
    case True
    with 2 have "filter (\<lambda>u. u \<noteq> t) (map fst hs) = map fst hs"
      by (auto simp: filter_id_conv image_iff)
    with True show ?thesis by simp
  qed (use 2 in auto)
qed simp

lemma map_of_release:
  "distinct (map fst hs) \<Longrightarrow>
   map_of (release t hs) =
     (map_of hs)(t := (case map_of hs t of None \<Rightarrow> None
       | Some (l, n) \<Rightarrow> if n = 1 then None else Some (l, n - 1)))"
proof (induction t hs rule: release.induct)
  case (2 t u l n hs)
  show ?case
  proof (cases "u = t")
    case True
    with 2 have "map_of hs t = None" by (simp add: map_of_eq_None_iff)
    with True show ?thesis by (auto simp: fun_eq_iff)
  qed (use 2 in \<open>auto simp: fun_eq_iff\<close>)
qed (simp add: fun_eq_iff)

lemma acquire_positive:
  "\<forall>(t, l, n) \<in> set hs. 0 < n \<Longrightarrow> \<forall>(t, l, n) \<in> set (acquire t name hs). 0 < n"
  by (induction t name hs rule: acquire.induct) auto

lemma release_positive:
  "\<forall>(t, l, n) \<in> set hs. 0 < n \<Longrightarrow> \<forall>(t, l, n) \<in> set (release t hs). 0 < n"
  by (induction t hs rule: release.induct) auto

lemma add_refines:
  assumes "holders_rel le hs"
  shows "holders_rel (add_thread_id t name le) (acquire t name hs)"
proof -
  have q: "set (threads_queue le) = fst ` set hs"
    using assms by (metis holders_rel_def list.set_map set_firsts)
  have "firsts (threads_queue le @ [t]) = map fst (acquire t name hs)"
    using assms q by (simp add: holders_rel_def firsts_append acquire_keys)
  moreover have "distinct (map fst (acquire t name hs))"
    using assms by (simp add: holders_rel_def acquire_keys image_iff)
  ultimately show ?thesis
    using assms acquire_positive [of hs t name]
    by (auto simp: holders_rel_def add_thread_id_def map_of_acquire fun_eq_iff Let_def split: option.splits)
qed

lemma remove_refines:
  assumes "holders_rel le hs"
  shows "holders_rel (remove_thread_id t le) (release t hs)"
proof (cases "map_of hs t")
  case None
  then have "release t hs = hs"
    by (induction t hs rule: release.induct) (auto split: if_splits)
  with assms None show ?thesis by (simp add: holders_rel_def remove_thread_id_def)
next
  case (Some p)
  obtain l n where p: "p = (l, n)" by (cases p)
  have d: "distinct (map fst hs)" and pos: "0 < n"
    using assms Some p by (auto simp: holders_rel_def dest!: map_of_SomeD)
  have "distinct (map fst (release t hs))" using d by (simp add: release_keys)
  with assms Some p pos release_positive [of hs t] show ?thesis
    by (auto simp: holders_rel_def remove_thread_id_def map_of_release release_keys fun_eq_iff
        firsts_filter split: option.splits)
qed

lemma run_refines: "holders_rel (lock_run es) (holders_run es)"
proof (induction es rule: rev_induct)
  case Nil
  show ?case by (simp add: lock_run_def holders_run_def holders_rel_def lock_entry_new_def firsts_def fun_eq_iff)
next
  case (snoc e es)
  have "lock_run (es @ [e]) = lock_apply e (lock_run es)"
    "holders_run (es @ [e]) = holders_apply e (holders_run es)"
    by (simp_all add: lock_run_def holders_run_def)
  with snoc add_refines remove_refines show ?case by (cases e) simp_all
qed

text \<open>
  C33: A lock entry refines the list of holders: after any sequence of acquisitions and
  releases its counters and names are those of the holders (reentrant acquisitions keep the
  first name, no counter is ever zero, releases by threads that hold nothing change
  nothing), it is empty exactly when there is no holder, and the name used for renewal is
  that of the holder that has been holding longest.
\<close>

theorem lock_entry_refines:
  "thread_counter (lock_run es) t = map_option snd (map_of (holders_run es) t) \<and>
   thread2lock_name (lock_run es) t = map_option fst (map_of (holders_run es) t) \<and>
   thread_counter (lock_run es) t \<noteq> Some 0 \<and>
   (has_no_threads (lock_run es) \<longleftrightarrow> holders_run es = []) \<and>
   get_first_lock_name (lock_run es) =
     (case holders_run es of [] \<Rightarrow> None | (u, l, n) # hs \<Rightarrow> Some l)"
proof -
  note r = run_refines [of es, unfolded holders_rel_def]
  have empty: "threads_queue (lock_run es) = [] \<longleftrightarrow> holders_run es = []"
    using r by (metis Nil_is_map_conv empty_set set_empty set_firsts)
  have "get_first_lock_name (lock_run es) =
      (case holders_run es of [] \<Rightarrow> None | (u, l, n) # hs \<Rightarrow> Some l)"
  proof (cases "holders_run es")
    case Nil
    with empty show ?thesis by (simp add: get_first_lock_name_def)
  next
    case (Cons h hs)
    obtain u l n where h: "h = (u, l, n)" by (cases h)
    obtain x q where q: "threads_queue (lock_run es) = x # q"
      using empty Cons by (cases "threads_queue (lock_run es)") auto
    have "x = u" using hd_firsts [of "threads_queue (lock_run es)"] q r Cons h by simp
    with q r Cons h show ?thesis by (simp add: get_first_lock_name_def)
  qed
  moreover have "thread_counter (lock_run es) t \<noteq> Some 0"
    using r by (auto dest!: map_of_SomeD)
  ultimately show ?thesis using r empty by (simp add: has_no_threads_def)
qed

section \<open>Waiting tasks\<close>

text \<open>
  \<open>RedissonLockEntry\<close>: the waiting tasks, the wake-up signal and a counter that nothing
  changes. The signal belongs to the runtime: its state is a type variable and its two ways
  to wake are arguments.
\<close>

record ('i, 'n) redisson_lock_entry =
  rl_waiters :: "'i list"
  rl_signal :: 'n
  rl_subscribe_count :: nat

definition redisson_lock_entry_new :: "'n \<Rightarrow> ('i, 'n) redisson_lock_entry" where
  "redisson_lock_entry_new signal =
     \<lparr>rl_waiters = [], rl_signal = signal, rl_subscribe_count = 0\<rparr>"

definition add_waiter :: "'i \<Rightarrow> ('i, 'n) redisson_lock_entry \<Rightarrow> ('i, 'n) redisson_lock_entry" where
  "add_waiter i e = e\<lparr>rl_waiters := rl_waiters e @ [i]\<rparr>"

text \<open>\<open>Vec::pop\<close>: the waiter that came last goes.\<close>

definition remove_waiter :: "('i, 'n) redisson_lock_entry \<Rightarrow> ('i, 'n) redisson_lock_entry" where
  "remove_waiter e = e\<lparr>rl_waiters := butlast (rl_waiters e)\<rparr>"

definition waiters_count :: "('i, 'n) redisson_lock_entry \<Rightarrow> nat" where
  "waiters_count e = length (rl_waiters e)"

definition no_waiters :: "('i, 'n) redisson_lock_entry \<Rightarrow> bool" where
  "no_waiters e \<longleftrightarrow> rl_waiters e = []"

definition try_run_listener ::
  "('n \<Rightarrow> 'n) \<Rightarrow> ('i, 'n) redisson_lock_entry \<Rightarrow> ('i, 'n) redisson_lock_entry" where
  "try_run_listener notify_one e = e\<lparr>rl_signal := notify_one (rl_signal e)\<rparr>"

definition try_run_all_listeners ::
  "('n \<Rightarrow> 'n) \<Rightarrow> ('i, 'n) redisson_lock_entry \<Rightarrow> ('i, 'n) redisson_lock_entry" where
  "try_run_all_listeners notify_waiters e = e\<lparr>rl_signal := notify_waiters (rl_signal e)\<rparr>"

text \<open>
  Waiting ends with a wake-up or after sixty seconds, whichever comes first, and the caller
  is not told which; \<open>notified\<close> waits on the signal for at most the given time.
\<close>

definition wait_limit :: duration where
  "wait_limit = from_secs 60"

definition wait_signal ::
  "(duration \<Rightarrow> 'n \<Rightarrow> bool \<times> 'n) \<Rightarrow> ('i, 'n) redisson_lock_entry \<Rightarrow> ('i, 'n) redisson_lock_entry" where
  "wait_signal notified e = e\<lparr>rl_signal := snd (notified wait_limit (rl_signal e))\<rparr>"

text \<open>
  The waiters of a lock entry are a stack: a task that leaves takes the waiter that came
  last off the list, whichever task it is, so of two waiters the first one to leave removes
  the other. The count and the emptiness test agree with the list, and waking or waiting
  never changes it.
\<close>

lemma waiters_are_a_stack:
  "rl_waiters (remove_waiter (add_waiter i e)) = rl_waiters e \<and>
   rl_waiters (remove_waiter (add_waiter j (add_waiter i e))) = rl_waiters e @ [i] \<and>
   waiters_count (add_waiter i e) = waiters_count e + 1 \<and>
   waiters_count (remove_waiter e) = waiters_count e - 1 \<and>
   (no_waiters e \<longleftrightarrow> waiters_count e = 0) \<and>
   rl_waiters (try_run_listener one e) = rl_waiters e \<and>
   rl_waiters (try_run_all_listeners all e) = rl_waiters e \<and>
   rl_waiters (wait_signal notified e) = rl_waiters e"
  by (simp add: add_waiter_def remove_waiter_def waiters_count_def no_waiters_def
      try_run_listener_def try_run_all_listeners_def wait_signal_def butlast_append)

end
