(* ===== verification/BatchExamples.thy ===== *)
theory BatchExamples
  imports CoreSpec PubSubSpec BatchNodes BatchRedis AsyncSpec Renewal
begin

text \<open>
  Concrete instances of the properties of batches that have hypotheses: a small client with
  two primaries and a round robin over two connections, a scheduler that ends the tasks in
  the reverse order, and for each such property one input at which all its hypotheses hold.
\<close>

section \<open>A concrete client\<close>

text \<open>The remote state: whether the script is loaded, and the number of picks so far.\<close>

type_synonym demo_world = "bool \<times> nat"

definition demo_answer :: "bool \<Rightarrow> request \<Rightarrow> err + rvalue" where
  "demo_answer loaded q =
     (case q of
        QGet k \<Rightarrow> Inr (Str k)
      | QEval x ks vs \<Rightarrow> Inr (Str ''done'')
      | QEvalSha x ks vs \<Rightarrow>
          if loaded then Inr (Str ''done'')
          else Inl (Fred ''NOSCRIPT'' ''NOSCRIPT No matching script'')
      | QCustom name h vs \<Rightarrow>
          if name = ''EVALSHA_RO'' then Inl (Fred ''ERR unknown command'' ''ERR unknown command'')
          else Inr Null
      | _ \<Rightarrow> Inr (Integer 1))"

definition demo_call :: "request \<Rightarrow> (demo_world, rvalue) prog" where
  "demo_call q w =
     (demo_answer (fst w) q,
      (fst w \<or> (case q of QCustom name h vs \<Rightarrow> name = ''SCRIPT'' | _ \<Rightarrow> False), snd w))"

definition node_a :: server where "node_a = Server ''10.0.0.1'' 6379"
definition node_b :: server where "node_b = Server ''10.0.0.2'' 6379"

definition demo_routing :: routing where
  "demo_routing =
     \<lparr>get_server = (\<lambda>sl. Some (if sl = 1 then node_a else node_b)), replicas = (\<lambda>p. []),
      unique_primary_nodes = [node_a, node_b]\<rparr>"

definition demo_fred :: "demo_world fred" where
  "demo_fred =
     \<lparr>fr_call = (\<lambda>opts. demo_call), fr_pool = demo_call,
      fr_pick = (\<lambda>(b, n). (n mod 2, (b, n + 1))), fr_client = (\<lambda>i. demo_call),
      fr_pick_replicas = (\<lambda>w. (0, w)), fr_replica = (\<lambda>i. demo_call),
      fr_push = (\<lambda>q. None), fr_info = (\<lambda>opts w. (Inr [], w)),
      fr_cluster_state = (\<lambda>w. Some demo_routing), fr_hosts = (\<lambda>w. [node_a]),
      fr_sleep = (\<lambda>d w. w), fr_keyslot = (\<lambda>k. of_nat (length k)),
      fr_sha1 = (\<lambda>x. ''sha of '' @ x), fr_debug = (\<lambda>v. ''value'')\<rparr>"

definition demo_config :: redisson_config where
  "demo_config =
     \<lparr>cf_mode = Cluster [\<lparr>rn_host = ''10.0.0.1'', rn_port = 6379\<rparr>], cf_username = None,
      cf_password = None, cf_command_timeout = 3, cf_connect_timeout = 5,
      cf_max_command_attempts = 3, cf_max_redirections = 5, cf_reconnect_max_attempts = 0,
      cf_reconnect_min_delay = 1, cf_reconnect_max_delay = 2, cf_reconnect_multiplier = 2,
      cf_pool_size = 2, cf_lock_watchdog_timeout = 30, cf_subscription_timeout = 7,
      cf_retry_attempts = 4, cf_retry_delay = 1, cf_sharded_subscription_mode = Auto,
      cf_read_mode = Slave, cf_use_script_cache = False, cf_slaves_sync_timeout = 1,
      cf_check_lock_synced_slaves = True\<rparr>"

definition demo_replies ::
  "demo_world \<Rightarrow> master_slave_entry \<Rightarrow> bool \<Rightarrow> request list \<Rightarrow> (err + rvalue) list" where
  "demo_replies w n b qs = map (demo_answer True) qs"

definition demo_schedule :: "demo_world schedule" where
  "demo_schedule =
     \<lparr>sc_shuffle = rev, sc_order = rev, sc_finished = (\<lambda>n. False), sc_replies = demo_replies,
      sc_effect = (\<lambda>(b, k). (b, k + 1)), sc_cut = Finishes\<rparr>"

lemma demo_schedule_ok: "sched_ok demo_schedule"
  by (simp add: sched_ok_def demo_schedule_def demo_replies_def)

lemma demo_accepts: "accepts_all demo_fred"
  by (simp add: accepts_all_def demo_fred_def)

lemmas demo_defs = demo_fred_def demo_config_def demo_schedule_def demo_replies_def
  demo_answer_def demo_routing_def

abbreviation demo_globals :: "demo_world globals" where
  "demo_globals \<equiv> initial_globals (False, 0)"

text \<open>The state after a run of the pipelines, which pick a connection.\<close>

definition after_run :: "demo_world globals \<Rightarrow> demo_world globals" where
  "after_run s = s\<lparr>remote := sc_effect demo_schedule (remote s)\<rparr>"

section \<open>Batches\<close>

definition demo_queue :: "batch_command_data list" where
  "demo_queue =
     [\<lparr>bc_cmd = Get ''a'', bc_tx = 0, bc_index = 0\<rparr>, \<lparr>bc_cmd = Get ''bb'', bc_tx = 1, bc_index = 1\<rparr>]"

definition demo_batch :: batch_service where
  "demo_batch =
     (batch_new demo_config defaults)
       \<lparr>bs_channels := 2, bs_next_index := 2, bs_state := BInMemory demo_queue\<rparr>"

lemma reach_async0:
  assumes "batch_reach fr cfg opts (ps, sv, s)" and "bs_state sv = BInMemory ds"
    and "async0_batch fr cmd (sv, s) = (Inr tx, sv', s)"
  shows "batch_reach fr cfg opts (ps, sv', s)"
proof -
  let ?p = "(bs_channels sv, bs_next_index sv)"
  obtain sv1 where r: "reserve sv = (?p, sv1)" by (simp add: reserve_def)
  have "enqueue fr cmd (fst ?p) (snd ?p) (sv1, s) = (Inr tx, sv', s)"
    using assms(3) r by (simp add: async0_batch_def)
  with reach_step [OF reach_step [OF assms(1) step_reserve [OF r]] step_enqueue [of ?p "?p # ps"]]
  show ?thesis by simp
qed

lemma demo_batch_reach: "batch_reach demo_fred demo_config defaults ([], demo_batch, s)"
proof -
  let ?sv = "batch_new demo_config defaults"
  have st: "bs_state ?sv = BInMemory []" "bs_channels ?sv = 0" "bs_next_index ?sv = 0"
    by (simp_all add: batch_new_def Let_def is_redis_based_queue_def defaults_def)
  let ?sv1 = "?sv\<lparr>bs_channels := 1, bs_next_index := 1,
      bs_state := BInMemory [\<lparr>bc_cmd = Get ''a'', bc_tx = 0, bc_index = 0\<rparr>]\<rparr>"
  have "async0_batch demo_fred (Get ''a'') (?sv, s) = (Inr 0, ?sv1, s)"
    using async0_in_memory [OF st(1)] st by simp
  from reach_async0 [OF reach_new st(1) this]
  have one: "batch_reach demo_fred demo_config defaults ([], ?sv1, s)" .
  have st1: "bs_state ?sv1 = BInMemory [\<lparr>bc_cmd = Get ''a'', bc_tx = 0, bc_index = 0\<rparr>]" by simp
  have "async0_batch demo_fred (Get ''bb'') (?sv1, s) = (Inr 1, demo_batch, s)"
    using async0_in_memory [OF st1] by (simp add: demo_batch_def demo_queue_def numeral_2_eq_2)
  from reach_async0 [OF one st1 this] show ?thesis .
qed

lemma demo_batch_simps [simp]:
  "bs_options demo_batch = defaults" "\<not> bs_executed demo_batch"
  "bs_state demo_batch = BInMemory demo_queue" "bs_channels demo_batch = 2"
  by (simp_all add: demo_batch_def batch_new_def Let_def)

lemma defaults_simps [simp]:
  "bo_execution_mode defaults = InMemory" "\<not> bo_skip_result defaults" "\<not> syncs defaults"
  "\<not> is_redis_based_queue defaults"
  by (simp_all add: defaults_def syncs_def is_redis_based_queue_def)

definition demo_result :: "(err + batch_result) \<times> batch_service \<times> demo_world globals" where
  "demo_result = execute_async demo_fred demo_config demo_schedule (demo_batch, demo_globals)"

lemma demo_entry [simp]:
  "get_write_entry demo_fred w sl = Some (from_slot sl (if sl = 1 then node_a else node_b))"
  by (simp add: get_write_entry_def demo_fred_def demo_routing_def)

lemma demo_keyslot [simp]: "fr_keyslot demo_fred k = of_nat (length k)"
  by (simp add: demo_fred_def)

lemma node_ab [simp]: "node_a \<noteq> node_b" "node_b \<noteq> node_a"
  by (simp_all add: node_a_def node_b_def)

lemma demo_group:
  "group_by_node demo_fred retries dl demo_queue [] w =
     (Inr [(from_slot 1 node_a, \<lparr>be_commands = [demo_queue ! 0], be_read_only = True\<rparr>),
           (from_slot 2 node_b, \<lparr>be_commands = [demo_queue ! 1], be_read_only = True\<rparr>)], w)"
  by (simp add: demo_queue_def resolve_entry_known slot_of_def mse_eq_primary from_slot_def
      add_command_def batch_entry_new_def Let_def numeral_2_eq_2)

lemma demo_queue_simps:
  "demo_queue ! 0 = \<lparr>bc_cmd = Get ''a'', bc_tx = 0, bc_index = 0\<rparr>"
  "demo_queue ! 1 = \<lparr>bc_cmd = Get ''bb'', bc_tx = 1, bc_index = 1\<rparr>"
  "demo_queue \<noteq> []"
  by (simp_all add: demo_queue_def)

lemma demo_run:
  "execute_async demo_fred demo_config demo_schedule (demo_batch, s) =
     (Inr (batch_result_new [Str ''a'', Str ''bb''] 0),
      settle [(0, Resolved (Inr (Str ''a''))), (1, Resolved (Inr (Str ''bb'')))]
        (demo_batch\<lparr>bs_executed := True, bs_state := BInMemory []\<rparr>), after_run s)"
proof -
  have load: "load_scripts demo_fred demo_config nm t = (Inr nm, t)" for nm t
    by (simp add: load_scripts_def demo_config_def)
  have task: "node_task demo_fred demo_config defaults False (demo_replies w)
      (n, \<lparr>be_commands = [\<lparr>bc_cmd = Get k, bc_tx = c, bc_index = i\<rparr>], be_read_only = True\<rparr>) =
      ([(c, Resolved (Inr (Str k)))], Inr (0, [(i, Str k)]))" for w n k c i
    by (simp add: node_task_def build_pipeline_requests demo_accepts pipeline_requests_def
        pipeline_request_def handle_replies_def demo_replies_def demo_answer_def value_or_null_def Let_def)
  show ?thesis
    by (simp add: execute_async_def execute_in_memory_def demo_group on_remote_apply load run_tasks_def
        demo_schedule_def after_run_def task demo_queue_simps Let_def del: One_nat_def)
qed

theorem batch_responses_witness:
  "\<exists>r sv' s'. execute_async demo_fred demo_config demo_schedule (demo_batch, demo_globals) = (Inr r, sv', s') \<and>
     responses r = [Str ''a'', Str ''bb'']"
proof -
  note w = batch_responses [OF demo_batch_reach demo_schedule_ok _ demo_run [of demo_globals]]
  have "responses (batch_result_new [Str ''a'', Str ''bb''] 0) = [Str ''a'', Str ''bb'']"
    by (subst w) (simp_all add: queue_pairs_def demo_queue_def settle_def promise_value_def
        List.map_filter_simps)
  then show ?thesis using demo_run [of demo_globals] by blast
qed

theorem batch_all_answered_witness:
  "\<exists>r sv' s'. execute_async demo_fred demo_config demo_schedule (demo_batch, demo_globals) = (r, sv', s') \<and>
     {c. c < bs_channels sv' \<and> await_reply c sv' = None} = {}"
  using batch_all_answered [OF demo_batch_reach demo_schedule_ok _ _ demo_run [of demo_globals]]
    demo_run [of demo_globals] by (auto simp: demo_schedule_def)

theorem batch_answers_final_witness:
  "bs_promises demo_batch \<subseteq>\<^sub>m bs_promises (snd (discard_async demo_batch)) \<and>
   bs_promises (snd (discard_async demo_batch)) 0 \<noteq> None"
proof -
  obtain r sv' where d: "discard_async demo_batch = (r, sv')" by fastforce
  have step: "batch_step demo_fred demo_config ([], demo_batch, demo_globals) ([], sv', demo_globals)"
    by (rule step_discard [OF d])
  have "bs_promises sv' 0 \<noteq> None"
    using d by (auto simp: discard_async_def demo_queue_def queued_channels_def settle_def Let_def)
  with batch_answers_final [OF demo_batch_reach step] d show ?thesis by simp
qed

text \<open>A command issued after the execution.\<close>

definition demo_late :: batch_service where
  "demo_late = fst (snd (async0_batch demo_fred (Get ''c'')
     (settle [(0, Resolved (Inr (Str ''a''))), (1, Resolved (Inr (Str ''bb'')))]
        (demo_batch\<lparr>bs_executed := True, bs_state := BInMemory []\<rparr>), after_run demo_globals)))"

theorem late_command_never_answered_witness:
  "bs_executed demo_late \<and> await_reply 2 demo_late = None"
proof -
  let ?sv = "settle [(0, Resolved (Inr (Str ''a''))), (1, Resolved (Inr (Str ''bb'')))]
        (demo_batch\<lparr>bs_executed := True, bs_state := BInMemory []\<rparr>)"
  have one: "batch_reach demo_fred demo_config defaults ([], ?sv, after_run demo_globals)"
    by (rule reach_step [OF demo_batch_reach step_execute [OF demo_schedule_ok demo_run]])
  have st: "bs_state ?sv = BInMemory []" by simp
  have a: "async0_batch demo_fred (Get ''c'') (?sv, after_run demo_globals) = (Inr 2, demo_late, after_run demo_globals)"
    using async0_in_memory [OF st, of demo_fred "Get ''c''" "after_run demo_globals"] by (simp add: demo_late_def)
  have reach: "batch_reach demo_fred demo_config defaults ([], demo_late, after_run demo_globals)"
    by (rule reach_async0 [OF one st a])
  have ex: "bs_executed demo_late"
    using async0_in_memory [OF st, of demo_fred "Get ''c''" "after_run demo_globals"] by (simp add: demo_late_def)
  have q: "(2, bs_next_index demo_batch) \<in> set (queue_pairs (bs_state demo_late))"
    using async0_in_memory [OF st, of demo_fred "Get ''c''" "after_run demo_globals"]
    by (simp add: demo_late_def queue_pairs_def)
  from late_command_never_answered [OF reach ex q rtranclp.rtrancl_refl] ex show ?thesis by simp
qed

theorem batch_schedule_independent_witness:
  "\<exists>r sv' s'. execute_async demo_fred demo_config (demo_schedule\<lparr>sc_shuffle := id, sc_order := id\<rparr>)
      (demo_batch, demo_globals) = (Inr r, sv', s') \<and> responses r = [Str ''a'', Str ''bb'']"
proof -
  have ok: "sched_ok (demo_schedule\<lparr>sc_shuffle := id, sc_order := id\<rparr>)"
    by (simp add: sched_ok_def demo_schedule_def demo_replies_def)
  have "execute_async demo_fred demo_config (demo_schedule\<lparr>sc_shuffle := id, sc_order := id\<rparr>)
      (demo_batch, demo_globals) =
    (Inr (batch_result_new [Str ''a'', Str ''bb''] 0),
      settle [(0, Resolved (Inr (Str ''a''))), (1, Resolved (Inr (Str ''bb'')))]
        (demo_batch\<lparr>bs_executed := True, bs_state := BInMemory []\<rparr>), after_run demo_globals)"
    by (rule batch_schedule_independent [OF demo_batch_reach _ _ demo_schedule_ok ok _ _ demo_run])
      (simp_all add: demo_config_def demo_schedule_def)
  then show ?thesis by (simp add: batch_result_new_def)
qed

theorem group_by_node_spec_witness:
  "\<exists>nm. group_by_node demo_fred 4 1 demo_queue [] (False, 0) = (Inr nm, (False, 0)) \<and>
     grouped demo_fred (False, 0) demo_queue nm"
  by (rule group_by_node_spec) (simp add: command_primary_def)

theorem node_task_plain_witness:
  "node_task demo_fred demo_config defaults False (\<lambda>n b qs. [Inr (Str ''a''), Inl (Msg ''WRONGTYPE'')])
     (from_slot 1 node_a, \<lparr>be_commands = demo_queue, be_read_only = True\<rparr>) =
   ([(0, Resolved (Inr (Str ''a''))), (1, Resolved (Inr Null))], Inr (0, [(0, Str ''a''), (1, Null)]))"
proof -
  let ?e = "\<lparr>be_commands = demo_queue, be_read_only = True\<rparr>"
  have "node_task demo_fred demo_config defaults False (\<lambda>n b qs. [Inr (Str ''a''), Inl (Msg ''WRONGTYPE'')])
      (from_slot 1 node_a, ?e) =
    (zip (map bc_tx (be_commands ?e)) (map (Resolved \<circ> Inr \<circ> value_or_null) [Inr (Str ''a''), Inl (Msg ''WRONGTYPE'')]),
     Inr (if syncs defaults then extract_synced_slaves (Some (Inr Null)) else 0,
          zip (map bc_index (be_commands ?e)) (map value_or_null [Inr (Str ''a''), Inl (Msg ''WRONGTYPE'')])))"
    by (rule node_task_plain [OF demo_accepts]) (simp_all add: demo_queue_def)
  then show ?thesis by (simp add: demo_queue_def value_or_null_def)
qed

theorem node_task_atomic_witness:
  "fst (node_task demo_fred demo_config defaults True (\<lambda>n b qs. [Inr Queued, Inr Queued, Inr Queued, Inr Null])
     (from_slot 1 node_a, \<lparr>be_commands = demo_queue, be_read_only = True\<rparr>)) =
   [(0, Resolved (Inl exec_nil)), (1, Resolved (Inl exec_nil))]"
proof -
  let ?e = "\<lparr>be_commands = demo_queue, be_read_only = True\<rparr>"
  have "fst (node_task demo_fred demo_config defaults True
      (\<lambda>n b qs. [Inr Queued, Inr Queued, Inr Queued, Inr Null]) (from_slot 1 node_a, ?e)) =
    zip (map bc_tx (be_commands ?e)) (exec_outcomes (Inr Null) (length (be_commands ?e)))"
    using node_task_atomic [OF demo_accepts,
        of "\<lambda>n b qs. [Inr Queued, Inr Queued, Inr Queued, Inr Null]" "from_slot 1 node_a" defaults ?e
          "[Inr Queued, Inr Queued, Inr Queued]" "Inr Null"]
    by simp
  then show ?thesis by (simp add: demo_queue_def)
qed

definition demo_scripts :: node_map where
  "demo_scripts =
     [(from_slot 1 node_a,
       \<lparr>be_commands = [\<lparr>bc_cmd = Eval ''return 1'' [''a''] [], bc_tx = 0, bc_index = 0\<rparr>],
        be_read_only = False\<rparr>)]"

lemma demo_sha_ok: "sha_cache_ok demo_fred demo_globals"
  by (simp add: sha_cache_ok_def initial_globals_def)

lemma demo_load_each: "\<exists>w'. load_each demo_fred i sl xs w = (Inr (), w')"
  by (induction xs arbitrary: w) (simp_all add: demo_fred_def demo_call_def demo_answer_def)

lemma demo_load_node: "\<exists>e' t. load_node demo_fred n e s = (Inr e', t)"
proof -
  obtain todo s1 where a: "scripts_to_load demo_fred (get_client n) (be_commands e) [] s = (todo, s1)"
    by fastforce
  obtain s2 where b: "(if todo = [] then (Inr (), s1)
      else on_remote (pbind (pick (fr_pick demo_fred))
        (\<lambda>i. load_each demo_fred i (slot_or_0 (mse_slot n)) todo)) s1) = (Inr (), s2)"
  proof (cases "todo = []")
    case False
    obtain i w where p: "fr_pick demo_fred (remote s1) = (i, w)" by (rule prod.exhaust)
    with demo_load_each [of i "slot_or_0 (mse_slot n)" todo w] False that show ?thesis
      by (auto simp: on_remote_apply pbind_apply pick_def)
  qed (use that in simp)
  obtain ds s3 where "use_digests demo_fred (be_commands e)
      (if todo = [] then s2 else cache_scripts demo_fred (get_client n) todo s2) = (ds, s3)" by fastforce
  with a b show ?thesis by (simp add: load_node_def)
qed

lemma demo_load_scripts:
  "\<exists>e t. load_scripts demo_fred (demo_config\<lparr>cf_use_script_cache := True\<rparr>) demo_scripts s =
      (Inr [(fst (hd demo_scripts), e)], t)"
proof -
  let ?n = "fst (hd demo_scripts)" and ?e = "snd (hd demo_scripts)"
  have sc: "demo_scripts = [(?n, ?e)]" by (simp add: demo_scripts_def)
  obtain e t where "load_node demo_fred ?n ?e s = (Inr e, t)" using demo_load_node by blast
  then have "load_nodes demo_fred [(?n, ?e)] s = (Inr [(?n, e)], t)"
    by (simp only: load_nodes.simps pbind_apply) (simp add: pbind_apply pret_def)
  then show ?thesis by (subst sc) (simp add: load_scripts_def del: load_nodes.simps)
qed

theorem load_scripts_spec_witness:
  "\<exists>nm t. load_scripts demo_fred (demo_config\<lparr>cf_use_script_cache := True\<rparr>) demo_scripts demo_globals
      = (Inr nm, t) \<and>
    map (\<lambda>(n, e). map bc_cmd (be_commands e)) nm = [[EvalSha ''sha of return 1'' [''a''] []]] \<and>
    ''sha of return 1'' \<in> loaded_shas t node_a"
proof -
  let ?n = "fst (hd demo_scripts)"
  obtain e t where l: "load_scripts demo_fred (demo_config\<lparr>cf_use_script_cache := True\<rparr>) demo_scripts
      demo_globals = (Inr [(?n, e)], t)"
    using demo_load_scripts by blast
  have sha: "fr_sha1 demo_fred = (\<lambda>x. ''sha of '' @ x)" by (simp add: demo_fred_def)
  from load_scripts_spec [OF _ demo_sha_ok l] l show ?thesis
    by (auto simp: demo_scripts_def use_digest_def sha eval_scripts_def get_client_def from_slot_def
        List.map_filter_simps)
qed

section \<open>Redis-based batches\<close>

definition demo_redis :: batch_service where
  "demo_redis = batch_new demo_config (defaults\<lparr>bo_execution_mode := RedisWriteAtomic\<rparr>)"

lemma demo_alternates: "alternates demo_fred"
proof -
  have "Suc n mod 2 \<noteq> n mod 2" for n :: nat by presburger
  then show ?thesis by (auto simp: alternates_def demo_fred_def demo_call_def)
qed

lemma demo_next:
  assumes "q \<in> {QCustom ''MULTI'' h vs, QGet k}"
  shows "\<exists>v w'. call_next (logged demo_fred) q w = (Inr v, w')"
proof -
  have "\<exists>v. fst (fr_client demo_fred i q u) = Inr v" for i u
    using assms by (auto simp: demo_fred_def demo_call_def demo_answer_def)
  then obtain v where "fst (fr_client demo_fred (fst (fr_pick demo_fred (fst w))) q
      (snd (fr_pick demo_fred (fst w)))) = Inr v" by blast
  then show ?thesis by (cases w) (simp add: call_next_logged Let_def)
qed

theorem redis_based_splits_transaction_witness:
  "\<exists>i j sl r s'. async0_batch (logged demo_fred) (Get ''a'') (demo_redis, with_log [] demo_globals) = (r, s') \<and>
     i \<noteq> j \<and> snd (remote (snd s')) =
     [(OnClient i, Some (QCustom ''MULTI'' (Custom sl) [])), (OnClient j, Some (QGet ''a''))]"
proof -
  have st: "bs_state demo_redis = BRedisBased None []" "bo_execution_mode (bs_options demo_redis) = RedisWriteAtomic"
    by (simp_all add: demo_redis_def batch_new_def is_redis_based_queue_def Let_def)
  have client: "batch_client (logged demo_fred) (bs_options demo_redis) = call_next (logged demo_fred)"
    using st(2) by (simp add: batch_client_def)
  obtain v1 w1 where multi: "call_next (logged demo_fred) (QCustom ''MULTI'' (Custom 1) [])
      (remote (with_log [] demo_globals)) = (Inr v1, w1)"
    using demo_next [of "QCustom ''MULTI'' (Custom 1) []"] by blast
  obtain v2 w2 where get: "call_next (logged demo_fred) (QGet ''a'') w1 = (Inr v2, w2)"
    using demo_next [of "QGet ''a''"] by blast
  have key: "routing_key (Get ''a'') = Some ''a''" by simp
  have req: "pipeline_request (Get ''a'') = QGet ''a''" by (simp add: pipeline_request_def)
  have "\<exists>sv' s'. async0_batch (logged demo_fred) (Get ''a'') (demo_redis, with_log [] demo_globals)
      = (Inr (bs_channels demo_redis), sv', s')"
    using multi get
    by (simp add: async0_batch_def reserve_def enqueue_def st client open_transaction_def on_remote_apply
        execute_on_request req key slot_or_0_def is_wait_command_def Let_def)
  then obtain sv' s' where run: "async0_batch (logged demo_fred) (Get ''a'')
      (demo_redis, with_log [] demo_globals) = (Inr (bs_channels demo_redis), sv', s')" by blast
  obtain i j sl where ij: "i \<noteq> j" and l: "snd (remote s') = snd (remote (with_log [] demo_globals)) @
      [(OnClient i, Some (QCustom ''MULTI'' (Custom sl) [])), (OnClient j, Some (pipeline_request (Get ''a'')))]"
    using redis_based_splits_transaction [OF st _ demo_alternates run] by (auto simp: is_wait_command_def)
  have "snd (remote s') = [(OnClient i, Some (QCustom ''MULTI'' (Custom sl) [])), (OnClient j, Some (QGet ''a''))]"
    unfolding l by (simp add: with_log_def pipeline_request_def)
  with ij run show ?thesis
    by (intro exI [of _ i] exI [of _ j] exI [of _ sl] exI [of _ "Inr (bs_channels demo_redis)"]
        exI [of _ "(sv', s')"]) simp
qed

theorem redis_based_commit_witness:
  "\<exists>r sv' s'. execute_redis_based_queue_inner demo_fred
      (demo_redis\<lparr>bs_state := BRedisBased (Some 1) [(0, 0), (1, 1)]\<rparr>, demo_globals) = (r, sv', s') \<and>
    await_reply 1 sv' = Some (Inl exec_nil)"
proof -
  let ?sv = "demo_redis\<lparr>bs_state := BRedisBased (Some 1) [(0, 0), (1, 1)]\<rparr>"
  have opts: "bo_execution_mode (bs_options ?sv) = RedisWriteAtomic" "\<not> bo_skip_result (bs_options ?sv)"
    by (simp_all add: demo_redis_def batch_new_def defaults_def Let_def)
  have a: "fst (batch_client demo_fred (bs_options ?sv) (QCustom ''EXEC'' (Custom (slot_or_0 (Some 1))) [])
      (remote demo_globals)) = Inr Null"
    using opts(1) by (simp add: batch_client_def call_next_def pick_def pbind_def demo_fred_def demo_call_def
        demo_answer_def initial_globals_def)
  obtain r sv' s' where run: "execute_redis_based_queue_inner demo_fred (?sv, demo_globals) = (r, sv', s')"
    by (metis prod_cases3)
  have "await_reply (fst ([(0, 0), (1, 1 :: nat)] ! 1)) sv' = Some (Inl exec_nil)"
    using redis_based_commit [of ?sv "Some 1" "[(0, 0), (1, 1)]", OF _ _ _ a run, of 1] opts(2) by simp
  with run show ?thesis by auto
qed

end
