(* ===== verification/BatchDirect.thy ===== *)
theory BatchDirect
  imports BatchNodes Async
begin

text \<open>
  A batch against the plain service: the answers of an in-memory batch are those that its
  commands get when they are issued one by one. The servers are those of a cluster without
  failures: each command is served by the server its key belongs to, each server has data of its
  own and serves the requests it is sent in their order, in a pipeline or not. The proof
  splits both runs by server.
\<close>

section \<open>Servers\<close>

text \<open>What a server answers to a sequence of requests, one after the other.\<close>

fun serve_all ::
  "(request \<Rightarrow> 'd \<Rightarrow> (err + rvalue) \<times> 'd) \<Rightarrow> request list \<Rightarrow> 'd \<Rightarrow> (err + rvalue) list" where
  "serve_all serve [] d = []"
| "serve_all serve (q # qs) d = (case serve q d of (r, d') \<Rightarrow> r # serve_all serve qs d')"

lemma length_serve_all [simp]: "length (serve_all serve qs d) = length qs"
  by (induction qs arbitrary: d) (simp_all split: prod.split)

lemma serve_all_snoc: "\<exists>x. serve_all serve (qs @ [q]) d = serve_all serve qs d @ [x]"
  by (induction qs arbitrary: d) (simp_all split: prod.split)

text \<open>
  A read-only variant of a command is served like the command, by the same server, which knows it.
\<close>

definition served_variant ::
  "(request \<Rightarrow> server) \<Rightarrow> (server \<Rightarrow> request \<Rightarrow> 'd \<Rightarrow> (err + rvalue) \<times> 'd) \<Rightarrow> command \<Rightarrow> bool" where
  "served_variant route serve c \<longleftrightarrow>
     (case ro_request c of
        None \<Rightarrow> True
      | Some q \<Rightarrow> route q = route (base_request c) \<and>
          (\<forall>srv d. serve srv q d = serve srv (base_request c) d) \<and>
          (\<forall>srv d e. fst (serve srv q d) = Inl e \<longrightarrow> \<not> unknown_command e))"

text \<open>Pipelines that read from the replicas are answered as on the primary.\<close>

definition replicas_mirror :: "'w schedule \<Rightarrow> bool" where
  "replicas_mirror sch \<longleftrightarrow> (\<forall>w n qs. sc_replies sch w n True qs = sc_replies sch w n False qs)"

text \<open>
  The cluster: a request without a fixed node is served by the server it is routed to and leaves
  the data of the others alone, a pipeline to a primary is served in order, and a server takes
  a script command that was built by hand for the one that the client has a method for.
\<close>

definition served_cluster ::
  "'w fred \<Rightarrow> 'w schedule \<Rightarrow> (request \<Rightarrow> server) \<Rightarrow>
   (server \<Rightarrow> request \<Rightarrow> 'd \<Rightarrow> (err + rvalue) \<times> 'd) \<Rightarrow> ('w \<Rightarrow> server \<Rightarrow> 'd) \<Rightarrow> bool" where
  "served_cluster fr sch route serve data \<longleftrightarrow>
     (\<forall>opts q w. cluster_node opts = None \<longrightarrow>
        (case fr_call fr opts q w of (r, w') \<Rightarrow>
           serve (route q) q (data w (route q)) = (r, data w' (route q)) \<and>
           (\<forall>srv. srv \<noteq> route q \<longrightarrow> data w' srv = data w srv))) \<and>
     (\<forall>w n qs. sc_replies sch w n False qs =
        serve_all (serve (get_client n)) qs (data w (get_client n))) \<and>
     (\<forall>srv c. serve srv (pipeline_request c) = serve srv (base_request c))"

lemma served_call:
  assumes "served_cluster fr sch route serve data" and "cluster_node opts = None"
    and "fr_call fr opts q w = (r, w')"
  shows "serve (route q) q (data w (route q)) = (r, data w' (route q))"
    and "srv \<noteq> route q \<Longrightarrow> data w' srv = data w srv"
proof -
  have "case fr_call fr opts q w of (r, w') \<Rightarrow>
      serve (route q) q (data w (route q)) = (r, data w' (route q)) \<and>
      (\<forall>srv. srv \<noteq> route q \<longrightarrow> data w' srv = data w srv)"
    by (rule conjunct1 [OF assms(1) [unfolded served_cluster_def], rule_format, OF assms(2)])
  with assms(3) show "serve (route q) q (data w (route q)) = (r, data w' (route q))"
    and "srv \<noteq> route q \<Longrightarrow> data w' srv = data w srv"
    by simp_all
qed

lemma served_pipeline:
  assumes "served_cluster fr sch route serve data"
  shows "sc_replies sch w n False qs = serve_all (serve (get_client n)) qs (data w (get_client n))"
    and "serve srv (pipeline_request c) = serve srv (base_request c)"
  using assms unfolding served_cluster_def by blast+

lemma serve_all_cong:
  "\<forall>c \<in> set cs. serve (f c) = serve (g c) \<Longrightarrow> serve_all serve (map f cs) d = serve_all serve (map g cs) d"
  by (induction cs arbitrary: d) (simp_all split: prod.split)

section \<open>Direct calls\<close>

text \<open>The replies to commands that a caller of the plain service issues one after the other.\<close>

fun issue_all :: "'w fred \<Rightarrow> command list \<Rightarrow> ('w, 'i) async_state \<Rightarrow> (err + rvalue) list" where
  "issue_all fr [] st = []"
| "issue_all fr (c # cs) st = (case async0 fr c st of (r, st') \<Rightarrow> r # issue_all fr cs st')"

fun call_all ::
  "'w fred \<Rightarrow> fred_options \<Rightarrow> request list \<Rightarrow> 'w \<Rightarrow> (err + rvalue) list" where
  "call_all fr opts [] w = []"
| "call_all fr opts (q # qs) w = (case fr_call fr opts q w of (r, w') \<Rightarrow> r # call_all fr opts qs w')"

lemma length_call_all [simp]: "length (call_all fr opts qs w) = length qs"
  by (induction qs arbitrary: w) (simp_all split: prod.split)

text \<open>The request of a direct call, as long as the servers know the read-only variants.\<close>

definition direct_request :: "'w globals \<Rightarrow> command \<Rightarrow> request" where
  "direct_request s c =
     (case ro_request c of Some q \<Rightarrow> if ro_supported c s then q else base_request c | None \<Rightarrow> base_request c)"

lemma direct_request_served:
  assumes "served_variant route serve c"
  shows "route (direct_request s c) = route (base_request c)"
    and "serve srv (direct_request s c) = serve srv (base_request c)"
  using assms by (auto simp: served_variant_def direct_request_def fun_eq_iff split: option.splits)

lemma ro_supported_remote [simp]: "ro_supported c (s\<lparr>remote := w\<rparr>) = ro_supported c s"
  by (cases c) simp_all

lemma direct_request_remote [simp]: "direct_request (s\<lparr>remote := w\<rparr>) = direct_request s"
  by (simp add: fun_eq_iff direct_request_def split: option.split)

lemma async0_call:
  assumes "served_cluster fr sch route serve data" and "served_variant route serve c"
    and "async0 fr c st = (r, st')"
  shows "fr_call fr (call_options (as_inner st)) (direct_request (as_globals st) c) (remote (as_globals st)) =
      (r, remote (as_globals st'))"
    and "as_inner st' = as_inner st"
    and "direct_request (as_globals st') = direct_request (as_globals st)"
proof -
  let ?o = "call_options (as_inner st)" and ?s = "as_globals st" and ?q = "direct_request (as_globals st) c"
  obtain x w where call: "fr_call fr ?o ?q (remote ?s) = (x, w)" by fastforce
  have "cluster_node ?o = None" by (simp add: call_options_def)
  from served_call(1) [OF assms(1) this call]
  have x: "fst (serve (route ?q) ?q (data (remote ?s) (route ?q))) = x" by simp
  have "execute fr ?o c ?s = (x, ?s\<lparr>remote := w\<rparr>)"
  proof (cases "ro_request c = None \<or> \<not> ro_supported c ?s")
    case True
    with call show ?thesis
      by (auto simp: execute_cases direct_request_def on_remote_apply split: option.splits)
  next
    case False
    then obtain q where q: "ro_request c = Some q" "ro_supported c ?s" "?q = q"
      by (auto simp: direct_request_def)
    have "\<not> unknown_command e" if "x = Inl e" for e
      using x that assms(2) q by (auto simp: served_variant_def)
    with q call show ?thesis
      by (auto simp: execute_cases on_remote_apply split: sum.split)
  qed
  then have "st' = (case x of Inl e \<Rightarrow> st\<lparr>as_globals := ?s\<lparr>remote := w\<rparr>\<rparr>
      | Inr v \<Rightarrow> evict_after_write c (st\<lparr>as_globals := ?s\<lparr>remote := w\<rparr>\<rparr>))" "r = x"
    using assms(3) by (auto simp: async0_def on_globals_def split: sum.splits)
  then have "as_globals st' = ?s\<lparr>remote := w\<rparr>" "as_inner st' = as_inner st"
    by (auto simp: evict_after_write_def split: sum.splits option.splits)
  with call \<open>r = x\<close> show "fr_call fr ?o ?q (remote ?s) = (r, remote (as_globals st'))"
    and "as_inner st' = as_inner st"
    and "direct_request (as_globals st') = direct_request (as_globals st)"
    by simp_all
qed

lemma issue_all_calls:
  assumes "served_cluster fr sch route serve data" and "\<forall>c \<in> set cs. served_variant route serve c"
  shows "issue_all fr cs st =
    call_all fr (call_options (as_inner st)) (map (direct_request (as_globals st)) cs) (remote (as_globals st))"
  using assms(2)
proof (induction cs arbitrary: st)
  case (Cons c cs)
  obtain r st' where a: "async0 fr c st = (r, st')" by fastforce
  from async0_call [OF assms(1) _ a] Cons a show ?case by simp
qed simp

text \<open>The calls that are routed to one server, with their replies, are a run of that server.\<close>

lemma call_all_by_server:
  assumes "served_cluster fr sch route serve data" and "cluster_node opts = None"
  shows "map snd (filter (\<lambda>(q, r). route q = srv) (zip qs (call_all fr opts qs w))) =
    serve_all (serve srv) (filter (\<lambda>q. route q = srv) qs) (data w srv)"
proof (induction qs arbitrary: w)
  case (Cons q qs)
  obtain r w' where call: "fr_call fr opts q w = (r, w')" by fastforce
  from served_call(1) [OF assms call] served_call(2) [OF assms call, of srv] Cons.IH [of w'] call show ?case by auto
qed simp

section \<open>The tasks of the batch\<close>

lemma zip_filter_fst:
  "length rs = length ds \<Longrightarrow> map fst (filter (\<lambda>(d, r). P d) (zip ds rs)) = filter P ds"
  by (induction ds rs rule: list_induct2') auto

lemma zip_map_fst_snd: "zip (map f (map fst xs)) (map g (map snd xs)) = map (\<lambda>(a, b). (f a, g b)) xs"
  by (induction xs) auto

text \<open>What a command and its reply become: a message to a channel, and an indexed value.\<close>

definition told :: "batch_command_data \<times> (err + rvalue) \<Rightarrow> nat \<times> outcome" where
  "told = (\<lambda>(d, r). (bc_tx d, Resolved (Inr (value_or_null r))))"

definition indexed :: "batch_command_data \<times> (err + rvalue) \<Rightarrow> nat \<times> rvalue" where
  "indexed = (\<lambda>(d, r). (bc_index d, value_or_null r))"

definition command_server :: "(request \<Rightarrow> server) \<Rightarrow> batch_command_data \<Rightarrow> server" where
  "command_server route d = route (base_request (bc_cmd d))"

lemma node_task_direct:
  assumes cluster: "served_cluster fr sch route serve data" "cluster_node co = None"
    and client: "accepts_all fr" "\<not> bo_skip_result opts" "cf_read_mode cfg = Master \<or> replicas_mirror sch"
    and variants: "\<forall>d \<in> set ds. served_variant route serve (bc_cmd d)"
    and cmds: "be_commands e = filter (\<lambda>d. command_server route d = primary n) ds"
    and rs: "rs = call_all fr co (map (direct_request g) (map bc_cmd ds)) w"
  shows "\<exists>k. node_task fr cfg opts False (sc_replies sch w) (n, e) =
    (map told (filter (\<lambda>(d, r). command_server route d = primary n) (zip ds rs)),
     Inr (k, map indexed (filter (\<lambda>(d, r). command_server route d = primary n) (zip ds rs))))"
proof -
  let ?X = "filter (\<lambda>(d, r). command_server route d = primary n) (zip ds rs)"
  let ?srv = "primary n" and ?qs = "map (direct_request g) (map bc_cmd ds)"
  have len: "length rs = length ds" by (simp add: rs)
  have fsts: "map fst ?X = be_commands e" by (simp add: zip_filter_fst [OF len] cmds)
  have routed: "route (direct_request g (bc_cmd d)) = command_server route d" if "d \<in> set ds" for d
    using direct_request_served(1) [of route serve "bc_cmd d" g] variants that by (simp add: command_server_def)
  have zip: "zip ?qs rs = map (\<lambda>(d, r). (direct_request g (bc_cmd d), r)) (zip ds rs)"
    by (simp add: zip_map1 comp_def)
  have "map snd (filter (\<lambda>(q, r). route q = ?srv) (zip ?qs rs)) =
      map snd (filter (\<lambda>(d, r). route (direct_request g (bc_cmd d)) = ?srv) (zip ds rs))"
    unfolding zip by (simp add: filter_map comp_def case_prod_unfold)
  also have "\<dots> = map snd ?X"
    by (intro arg_cong [where f = "map snd"] filter_cong refl) (use routed in \<open>auto dest: set_zip_leftD\<close>)
  finally have "map snd ?X = map snd (filter (\<lambda>(q, r). route q = ?srv) (zip ?qs rs))" ..
  also have "\<dots> = serve_all (serve ?srv) (filter (\<lambda>q. route q = ?srv) ?qs) (data w ?srv)"
    unfolding rs by (rule call_all_by_server [OF cluster])
  also have "filter (\<lambda>q. route q = ?srv) ?qs = map (direct_request g) (map bc_cmd (be_commands e))"
    unfolding cmds using routed by (simp add: filter_map comp_def cong: filter_cong)
  also have "serve_all (serve ?srv) \<dots> (data w ?srv) =
      serve_all (serve ?srv) (map pipeline_request (map bc_cmd (be_commands e))) (data w ?srv)"
    by (rule serve_all_cong)
      (use variants cmds direct_request_served(2) [of route serve _ "primary n" g]
         served_pipeline(2) [OF cluster(1)] in auto)
  finally have snds: "map snd ?X =
      serve_all (serve ?srv) (map pipeline_request (map bc_cmd (be_commands e))) (data w ?srv)" .
  obtain x where x: "sc_replies sch w n (use_replica cfg False e)
      (pipeline_requests opts False (slot_or_0 (mse_slot n)) (map bc_cmd (be_commands e))) =
    map snd ?X @ (if syncs opts then [x] else [])"
  proof -
    have "sc_replies sch w n (use_replica cfg False e) = sc_replies sch w n False"
      using client(3) by (cases "use_replica cfg False e") (auto simp: use_replica_def replicas_mirror_def)
    moreover obtain x where "serve_all (serve ?srv)
        (map pipeline_request (map bc_cmd (be_commands e)) @ [wait_request opts (slot_or_0 (mse_slot n))])
        (data w ?srv) = map snd ?X @ [x]"
      unfolding snds using serve_all_snoc [of "serve ?srv"] by metis
    ultimately show thesis
      using snds
      by (intro that [of x], cases "syncs opts")
        (simp_all add: served_pipeline(1) [OF cluster(1)] pipeline_requests_def get_client_def)
  qed
  have "length (map snd ?X) = length (be_commands e)" unfolding fsts [symmetric] by simp
  from node_task_plain [where rs = "map snd ?X" and replies = "sc_replies sch w" and x = x,
      OF client(1,2) this x]
  show ?thesis unfolding fsts [symmetric] by (simp only: zip_map_fst_snd told_def indexed_def) (simp add: comp_def)
qed

section \<open>The batch\<close>

lemma run_tasks_direct:
  assumes cluster: "served_cluster fr sch route serve data" "cluster_node co = None"
    and client: "accepts_all fr" "\<not> bo_skip_result opts" "cf_read_mode cfg = Master \<or> replicas_mirror sch"
      "sched_ok sch"
    and variants: "\<forall>d \<in> set ds. served_variant route serve (bc_cmd d)"
    and nm: "grouped fr w ds nm" "\<forall>d \<in> set ds. command_primary fr w d = Some (command_server route d)"
    and rs: "rs = call_all fr co (map (direct_request g) (map bc_cmd ds)) w"
  shows "\<exists>sent k idx. run_tasks fr cfg opts sch False w (sc_shuffle sch nm) = (sent, Inr (k, idx)) \<and>
    mset sent = mset (map told (zip ds rs)) \<and> mset idx = mset (map indexed (zip ds rs))"
proof -
  let ?task = "node_task fr cfg opts False (sc_replies sch w)"
  let ?ts = "map (\<lambda>ne. (fst ne, ?task ne)) (sc_shuffle sch nm)"
  let ?X = "\<lambda>n. filter (\<lambda>(d, r). command_server route d = primary n) (zip ds rs)"
  have task: "\<exists>k. ?task (n, e) = (map told (?X n), Inr (k, map indexed (?X n)))" if "(n, e) \<in> set nm" for n e
  proof (rule node_task_direct [OF cluster client(1-3) variants _ rs])
    have "be_commands e = filter (\<lambda>d. command_primary fr w d = Some (primary n)) ds"
      using nm(1) that by (auto simp: grouped_def)
    also have "\<dots> = filter (\<lambda>d. command_server route d = primary n) ds"
      using nm(2) by (intro filter_cong) auto
    finally show "be_commands e = filter (\<lambda>d. command_server route d = primary n) ds" .
  qed
  have shuffle: "mset (sc_shuffle sch nm) = mset nm" "mset (sc_order sch ?ts) = mset ?ts"
    using client(4) by (simp_all add: sched_ok_def)
  have ok: "\<exists>p. snd (snd t) = Inr p" if "t \<in> set (sc_order sch ?ts)" for t
  proof -
    have "t \<in> set ?ts" using that by (simp only: mset_eq_setD [OF shuffle(2)])
    then obtain n e where "(n, e) \<in> set nm" "t = (n, ?task (n, e))"
      using mset_eq_setD [OF shuffle(1)] by auto
    with task show ?thesis by fastforce
  qed
  define sent where "sent = concat (map (\<lambda>t. fst (snd t)) (sc_order sch ?ts))"
  define idx where "idx = concat (map (\<lambda>t. snd (projr (snd (snd t)))) (sc_order sch ?ts))"
  have run: "\<exists>k. run_tasks fr cfg opts sch False w (sc_shuffle sch nm) = (sent, Inr (k, idx))"
    unfolding run_tasks_def sent_def idx_def using join_all_ok [OF ok] by simp
  have parts: "mset (concat (map (\<lambda>t. g (snd t)) (sc_order sch ?ts))) = mset (map f (zip ds rs))"
    if g: "\<And>n e. (n, e) \<in> set nm \<Longrightarrow> g (?task (n, e)) = map f (?X n)" for f :: "_ \<Rightarrow> 'z" and g
  proof -
    have "mset (concat (map (\<lambda>t. g (snd t)) (sc_order sch ?ts))) = mset (concat (map (\<lambda>ne. g (?task ne)) nm))"
      using mset_concat_map_perm [OF shuffle(2), of "\<lambda>t. g (snd t)"]
        mset_concat_map_perm [OF shuffle(1), of "\<lambda>ne. g (?task ne)"]
      by (simp only: map_map comp_def snd_conv)
    also have "map (\<lambda>ne. g (?task ne)) nm = map (\<lambda>j. map f (filter (\<lambda>x. command_server route (fst x) = j) (zip ds rs)))
        (map (\<lambda>(n, e). primary n) nm)"
      using g by (auto simp: case_prod_unfold)
    also have "mset (concat \<dots>) = image_mset f (mset (concat (map
        (\<lambda>j. filter (\<lambda>x. command_server route (fst x) = j) (zip ds rs)) (map (\<lambda>(n, e). primary n) nm))))"
      by (simp only: map_concat map_map comp_def mset_map [symmetric])
    also have "\<dots> = image_mset f (mset (zip ds rs))"
    proof (subst mset_split_by)
      show "distinct (map (\<lambda>(n, e). primary n) nm)" using nm(1) by (simp add: grouped_def)
      have covered: "command_server route d \<in> (\<lambda>(n, e). primary n) ` set nm" if "d \<in> set ds" for d
      proof -
        have "Some (command_server route d) \<in> command_primary fr w ` set ds"
          using nm(2) that by (metis imageI)
        then show ?thesis using nm(1) by (auto simp: grouped_def)
      qed
      show "\<forall>x \<in> set (zip ds rs). command_server route (fst x) \<in> set (map (\<lambda>(n, e). primary n) nm)"
      proof
        fix x assume "x \<in> set (zip ds rs)"
        then have "fst x \<in> set ds" by (metis prod.collapse set_zip_leftD)
        from covered [OF this] show "command_server route (fst x) \<in> set (map (\<lambda>(n, e). primary n) nm)"
          by simp
      qed
    qed simp
    finally show ?thesis by simp
  qed
  have "mset sent = mset (map told (zip ds rs))" unfolding sent_def
    by (rule parts) (use task in fastforce)
  moreover have "mset idx = mset (map indexed (zip ds rs))" unfolding idx_def
    using parts [of "\<lambda>t. snd (projr (snd t))" indexed] task by fastforce
  ultimately show ?thesis using run by blast
qed

text \<open>The state and the result after the tasks, whatever the order of what they return.\<close>

lemma told_zip:
  assumes "length rs = length ds" and "distinct (map bc_tx ds)"
    and "mset sent = mset (map told (zip ds rs))" and "bs_promises sv1 = bs_promises sv2"
  shows "map (\<lambda>d. await_reply (bc_tx d) (settle sent sv1)) ds = map (Some \<circ> Inr) (map value_or_null rs)"
proof -
  let ?T = "map told (zip ds rs)"
  have fsts: "map fst ?T = map bc_tx ds"
    using assms(1) by (induction ds rs rule: list_induct2') (simp_all add: told_def)
  have "mset (map fst sent) = mset (map bc_tx ds)" using assms(3) fsts by (metis mset_map)
  then have dist: "distinct (map fst sent)" using assms(2) mset_eq_imp_distinct_iff by blast
  have "await_reply (bc_tx d) (settle sent sv1) = Some (Inr (value_or_null r))" if "(d, r) \<in> set (zip ds rs)" for d r
  proof -
    have "told (d, r) \<in> set sent" using that mset_eq_setD [OF assms(3)] by auto
    then have "map_of sent (bc_tx d) = Some (Resolved (Inr (value_or_null r)))"
      using map_of_is_SomeI [OF dist] by (simp add: told_def)
    then show ?thesis by (simp add: await_reply_def settle_promises [OF dist] map_add_Some_iff)
  qed
  then have "await_reply (bc_tx (ds ! i)) (settle sent sv1) = Some (Inr (value_or_null (rs ! i)))"
    if "i < length ds" for i
    using that assms(1) by (metis in_set_zip fst_conv snd_conv)
  with assms(1) show ?thesis by (intro nth_equalityI) simp_all
qed

lemma indexed_zip:
  assumes "length rs = length ds" and "distinct (map bc_index ds)"
    and "mset idx = mset (map indexed (zip ds rs))"
  shows "sort_key fst idx = sort_key fst (zip (map bc_index ds) (map value_or_null rs))"
proof -
  have z: "map indexed (zip ds rs) = zip (map bc_index ds) (map value_or_null rs)"
    by (simp add: indexed_def zip_map1 zip_map2 case_prod_unfold comp_def)
  have "distinct (map fst (zip (map bc_index ds) (map value_or_null rs)))"
    using assms(1,2) by simp
  from sort_key_perm [OF assms(3) [unfolded z, symmetric] this] show ?thesis by simp
qed

lemma load_nodes_plain:
  assumes "\<forall>(n, e) \<in> set nm. \<forall>d \<in> set (be_commands e). script_of (bc_cmd d) = None"
  shows "load_nodes fr nm s = (Inr nm, s)"
proof -
  have "scripts_to_load fr srv ds acc s = (acc, s) \<and> use_digests fr ds s = (ds, s)"
    if "\<forall>d \<in> set ds. script_of (bc_cmd d) = None" for srv ds acc
    using that
  proof (induction ds)
    case (Cons d ds)
    then have "script_of (bc_cmd d) = None" by simp
    with Cons show ?case by (cases "bc_cmd d") simp_all
  qed simp
  then have "load_node fr n e s = (Inr e, s)" if "(n, e) \<in> set nm" for n e
    using assms that by (fastforce simp: load_node_def)
  then show ?thesis by (induction nm) (auto simp: prog_simps pbind_def)
qed

lemma grouped_commands:
  assumes "grouped fr w ds nm" and "(n, e) \<in> set nm" and "d \<in> set (be_commands e)"
  shows "d \<in> set ds"
  using assms by (fastforce simp: grouped_def)

lemma load_scripts_plain:
  assumes "grouped fr w ds nm" and "mset nm' = mset nm"
    and "cf_use_script_cache cfg \<longrightarrow> eval_scripts ds = []"
  shows "load_scripts fr cfg nm' s = (Inr nm', s)"
proof (cases "cf_use_script_cache cfg")
  case True
  then have "\<forall>d \<in> set ds. script_of (bc_cmd d) = None"
    using assms(3) by (auto simp: eval_scripts_def List.map_filter_def filter_empty_conv)
  then have "\<forall>(n, e) \<in> set nm'. \<forall>d \<in> set (be_commands e). script_of (bc_cmd d) = None"
    unfolding mset_eq_setD [OF assms(2)] using grouped_commands [OF assms(1)] by blast
  from load_nodes_plain [OF this] True show ?thesis by (simp add: load_scripts_def)
qed (simp add: load_scripts_def)

text \<open>
  C2: A batch is its commands, later. In a cluster whose routing table names the server of every
  command and whose servers answer every request and serve in
  order what they are sent, an in-memory batch that keeps its results answers each of its
  callers what the command
  would have been answered had the queue been issued command by command on the plain service
  (an error becomes null), whatever the order of the nodes and of their tasks; and its
  responses are these answers in the order of the indexes. Where the read mode sends pipelines
  of reads to replicas, these answer like their primary; a command with a read-only
  variant is served alike in both forms; and with the script cache on, the batch has no
  \<open>EVAL\<close> (a batch with the cache is compared with one without elsewhere).
\<close>

theorem batch_as_direct_calls:
  assumes "batch_reach fr cfg opts (ps, sv, s)" and "\<not> bs_executed sv"
    and "bo_execution_mode (bs_options sv) = InMemory" and "\<not> bo_skip_result (bs_options sv)"
    and "accepts_all fr" and "sched_ok sch"
    and "cf_use_script_cache cfg \<longrightarrow> eval_scripts ds = []"
    and "cf_read_mode cfg = Master \<or> replicas_mirror sch"
    and "served_cluster fr sch route serve data"
    and "bs_state sv = BInMemory ds"
    and "\<forall>d \<in> set ds. served_variant route serve (bc_cmd d) \<and>
      command_primary fr (remote s) d = Some (command_server route d)"
    and "remote (as_globals st) = remote s"
  shows "\<exists>r sv' s'. execute_async fr cfg sch (sv, s) = (Inr r, sv', s') \<and>
    (let vs = map value_or_null (issue_all fr (map bc_cmd ds) st) in
       map (\<lambda>d. await_reply (bc_tx d) sv') ds = map (Some \<circ> Inr) vs \<and>
       responses r = map snd (sort_key fst (zip (map bc_index ds) vs)))"
proof -
  let ?sv = "sv\<lparr>bs_executed := True\<rparr>" and ?co = "call_options (as_inner st)"
  define rs where "rs = issue_all fr (map bc_cmd ds) st"
  have variants: "\<forall>d \<in> set ds. served_variant route serve (bc_cmd d)" using assms(11) by blast
  then have rs: "rs = call_all fr ?co (map (direct_request (as_globals st)) (map bc_cmd ds)) (remote s)"
    unfolding rs_def assms(12) [symmetric] by (intro issue_all_calls [OF assms(9)]) simp
  have len: "length rs = length ds" by (simp add: rs)
  have q: "queue_pairs (bs_state sv) = pairs ds" using assms(10) by (simp add: queue_pairs_def)
  have dist: "distinct (map bc_tx ds)" "distinct (map bc_index ds)"
    using inv_queue_distinct [OF batch_reach_inv [OF assms(1)]] by (simp_all only: fst_conv snd_conv q pairs_proj)
  have mode: "execute_async fr cfg sch (sv, s) = execute_in_memory fr cfg sch False (?sv, s)"
    using assms(2,3) by (simp add: execute_async_def Let_def)
  show ?thesis
  proof (cases "ds = []")
    case True
    then show ?thesis unfolding mode using assms(10)
      by (simp add: execute_in_memory_def batch_result_new_def)
  next
    case False
    have known: "\<forall>d \<in> set ds. command_primary fr (remote s) d \<noteq> None" using assms(11) by simp
    have "grouped fr (remote s) [] []" by (simp add: grouped_def)
    from group_grouped [OF this, of ds] known obtain nm where
      nm: "group_by_node fr (bs_retry_attempts sv) (bs_retry_delay sv) ds [] (remote s) = (Inr nm, remote s)"
        "grouped fr (remote s) ds nm"
      unfolding append_Nil by blast
    have "\<forall>d \<in> set ds. command_primary fr (remote s) d = Some (command_server route d)" using assms(11) by blast
    from run_tasks_direct [OF assms(9) _ assms(5) _ assms(8,6) variants nm(2) this rs, of "bs_options sv"]
    obtain sent k idx where run:
      "run_tasks fr cfg (bs_options sv) sch False (remote s) (sc_shuffle sch nm) = (sent, Inr (k, idx))"
      "mset sent = mset (map told (zip ds rs))" "mset idx = mset (map indexed (zip ds rs))"
      using assms(4) by (auto simp: call_options_def)
    let ?sv1 = "?sv\<lparr>bs_state := BInMemory []\<rparr>"
    have load: "load_scripts fr cfg (sc_shuffle sch nm) s = (Inr (sc_shuffle sch nm), s)"
      by (rule load_scripts_plain [OF nm(2) _ assms(7)]) (use assms(6) in \<open>simp add: sched_ok_def\<close>)
    have exec: "execute_in_memory fr cfg sch False (?sv, s) =
        (Inr (batch_result_new (map snd (sort_key fst idx)) k), settle sent ?sv1,
         s\<lparr>remote := sc_effect sch (remote s)\<rparr>)"
      using assms(10) False nm(1) run(1) load
      by (simp add: execute_in_memory_def on_remote_apply Let_def)
    have "responses (batch_result_new (map snd (sort_key fst idx)) k) =
        map snd (sort_key fst (zip (map bc_index ds) (map value_or_null rs)))"
      unfolding indexed_zip [OF len dist(2) run(3)] by (simp add: batch_result_new_def)
    with told_zip [OF len dist(1) run(2) refl, of ?sv1] exec show ?thesis
      unfolding mode rs_def [symmetric] Let_def by blast
  qed
qed

end
