(* ===== verification/DirectExample.thy ===== *)
theory DirectExample
  imports BatchDirect BatchExamples
begin

text \<open>
  A concrete cluster for the comparison of a batch with direct calls: two servers that count
  the requests they answered, and refuse \<open>HGET\<close>.
\<close>

section \<open>Batches by their commands\<close>

text \<open>A batch on which some calls were made, one after the other.\<close>

definition queue_of :: "command list \<Rightarrow> batch_command_data list" where
  "queue_of cs = map (\<lambda>(i, c). \<lparr>bc_cmd = c, bc_tx = i, bc_index = i\<rparr>) (enumerate 0 cs)"

definition batch_of :: "redisson_config \<Rightarrow> batch_options \<Rightarrow> command list \<Rightarrow> batch_service" where
  "batch_of cfg opts cs =
     (batch_new cfg opts)\<lparr>bs_channels := length cs, bs_next_index := length cs,
        bs_state := BInMemory (queue_of cs)\<rparr>"

lemma batch_of_reach:
  assumes "\<not> is_redis_based_queue opts"
  shows "batch_reach fr cfg opts ([], batch_of cfg opts cs, s)"
proof (induction cs rule: rev_induct)
  case Nil
  have "batch_of cfg opts [] = batch_new cfg opts"
    using assms by (simp add: batch_of_def queue_of_def batch_new_def Let_def)
  then show ?case by (simp add: reach_new)
next
  case (snoc c cs)
  have st: "bs_state (batch_of cfg opts cs) = BInMemory (queue_of cs)" by (simp add: batch_of_def)
  have "async0_batch fr c (batch_of cfg opts cs, s) = (Inr (length cs), batch_of cfg opts (cs @ [c]), s)"
    using async0_in_memory [OF st, of fr c s] by (simp add: batch_of_def queue_of_def enumerate_append_eq)
  with snoc st show ?case by (rule reach_async0)
qed

section \<open>The cluster\<close>

definition count_route :: "request \<Rightarrow> server" where
  "count_route q =
     (case q of
        QHIncrBy k f d \<Rightarrow> (if length k = 1 then node_a else node_b)
      | QHGet k f \<Rightarrow> (if length k = 1 then node_a else node_b)
      | _ \<Rightarrow> node_b)"

definition count_serve :: "server \<Rightarrow> request \<Rightarrow> nat \<Rightarrow> (err + rvalue) \<times> nat" where
  "count_serve srv q n =
     (case q of
        QHGet k f \<Rightarrow> (Inl (Fred ''WRONGTYPE'' ''WRONGTYPE''), n)
      | _ \<Rightarrow> (Inr (Integer (of_nat n)), n + 1))"

definition count_call :: "request \<Rightarrow> ((server \<Rightarrow> nat), rvalue) prog" where
  "count_call q w =
     (case count_serve (count_route q) q (w (count_route q)) of (r, n) \<Rightarrow> (r, w(count_route q := n)))"

definition count_fred :: "(server \<Rightarrow> nat) fred" where
  "count_fred =
     \<lparr>fr_call = (\<lambda>opts. count_call), fr_pool = count_call,
      fr_pick = (\<lambda>w. (0, w)), fr_client = (\<lambda>i. count_call),
      fr_pick_replicas = (\<lambda>w. (0, w)), fr_replica = (\<lambda>i. count_call),
      fr_push = (\<lambda>q. None), fr_info = (\<lambda>opts w. (Inr [], w)),
      fr_cluster_state = (\<lambda>w. Some demo_routing), fr_hosts = (\<lambda>w. [node_a]),
      fr_sleep = (\<lambda>d w. w), fr_keyslot = (\<lambda>k. of_nat (length k)),
      fr_sha1 = (\<lambda>x. x), fr_debug = (\<lambda>v. ''value'')\<rparr>"

definition count_schedule :: "(server \<Rightarrow> nat) schedule" where
  "count_schedule =
     \<lparr>sc_shuffle = rev, sc_order = rev, sc_finished = (\<lambda>n. False),
      sc_replies = (\<lambda>w n b qs. serve_all (count_serve (get_client n)) qs (w (get_client n))),
      sc_effect = id, sc_cut = Finishes\<rparr>"

lemma count_cluster: "served_cluster count_fred count_schedule count_route count_serve id"
proof -
  have "count_serve srv (pipeline_request c) = count_serve srv (base_request c)" for srv c
    by (cases c) (simp_all add: pipeline_request_def count_serve_def fun_eq_iff)
  then show ?thesis
    by (simp add: served_cluster_def count_fred_def count_schedule_def count_call_def split: prod.split)
qed

lemma count_variants: "served_variant count_route count_serve c"
  by (cases c)
    (simp_all add: served_variant_def count_route_def count_serve_def pipeline_request_def)

lemma count_mirror: "replicas_mirror count_schedule"
  by (simp add: replicas_mirror_def count_schedule_def)

definition count_commands :: "command list" where
  "count_commands = [HIncrBy ''a'' ''f'' 1, HGet ''bb'' ''f'', HIncrBy ''a'' ''f'' 1, SortRo ''bb'']"

definition count_state :: "(server \<Rightarrow> nat, unit) async_state" where
  "count_state =
     \<lparr>as_globals = initial_globals (\<lambda>srv. 7), as_inner = inner_new, as_registry = service_manager_new, as_cleared = []\<rparr>"

lemma count_direct:
  "map value_or_null (issue_all count_fred count_commands count_state) =
     [Integer 7, Null, Integer 8, Integer 7]"
proof -
  have "issue_all count_fred count_commands count_state =
      [Inr (Integer 7), Inl (Fred ''WRONGTYPE'' ''WRONGTYPE''), Inr (Integer 8), Inr (Integer 7)]"
    by (subst issue_all_calls [OF count_cluster])
      (simp_all add: count_variants count_commands_def count_state_def initial_globals_def count_fred_def
        count_call_def count_serve_def count_route_def pipeline_request_def direct_request_def)
  then show ?thesis by (simp add: value_or_null_def)
qed

text \<open>
  With the script cache on and reads from the replicas: two calls are served by the first
  server and two by the second, one of them refused and one in its read-only variant.
\<close>

theorem batch_as_direct_calls_witness:
  "\<exists>r sv' s'. execute_async count_fred (demo_config\<lparr>cf_use_script_cache := True\<rparr>) count_schedule
      (batch_of (demo_config\<lparr>cf_use_script_cache := True\<rparr>) defaults count_commands,
       initial_globals (\<lambda>srv. 7)) = (Inr r, sv', s') \<and>
    await_reply 2 sv' = Some (Inr (Integer 8)) \<and>
    responses r = [Integer 7, Null, Integer 8, Integer 7]"
proof -
  let ?cfg = "demo_config\<lparr>cf_use_script_cache := True\<rparr>" and ?s = "initial_globals (\<lambda>srv. 7 :: nat)"
  let ?sv = "batch_of ?cfg defaults count_commands" and ?ds = "queue_of count_commands"
  have reach: "batch_reach count_fred ?cfg defaults ([], ?sv, ?s)" by (rule batch_of_reach) simp
  have sv: "\<not> bs_executed ?sv" "bs_options ?sv = defaults" "bs_state ?sv = BInMemory ?ds"
    by (simp_all add: batch_of_def batch_new_def Let_def)
  have client: "accepts_all count_fred" "sched_ok count_schedule"
    "cf_use_script_cache ?cfg \<longrightarrow> eval_scripts ?ds = []"
    "cf_read_mode ?cfg = Master \<or> replicas_mirror count_schedule"
    by (simp_all add: accepts_all_def count_fred_def sched_ok_def count_schedule_def queue_of_def
        count_commands_def) (simp_all add: count_mirror [unfolded count_schedule_def])
  have cmds: "\<forall>d \<in> set ?ds. served_variant count_route count_serve (bc_cmd d) \<and>
      command_primary count_fred (remote ?s) d = Some (command_server count_route d)"
    by (simp add: count_variants queue_of_def count_commands_def command_primary_def command_server_def
        get_write_entry_def count_fred_def demo_routing_def slot_of_def from_slot_def count_route_def
        pipeline_request_def)
  have queue: "map bc_cmd ?ds = count_commands" "map bc_index ?ds = [0, 1, 2, 3]" "map bc_tx ?ds = [0, 1, 2, 3]"
    by (simp_all add: queue_of_def count_commands_def)
  note direct = batch_as_direct_calls [OF reach sv(1) _ _ client count_cluster sv(3) cmds, of count_state,
      unfolded queue(1) count_direct Let_def queue(2)]
  obtain r sv' s' where run: "execute_async count_fred ?cfg count_schedule (?sv, ?s) = (Inr r, sv', s')"
    and told: "map (\<lambda>d. await_reply (bc_tx d) sv') ?ds = map (Some \<circ> Inr) [Integer 7, Null, Integer 8, Integer 7]"
    and res: "responses r = [Integer 7, Null, Integer 8, Integer 7]"
    using direct sv(2) by (auto simp: count_state_def)
  have "map (\<lambda>c. await_reply c sv') (map bc_tx ?ds) =
      map (Some \<circ> Inr) [Integer 7, Null, Integer 8, Integer 7]"
    using told by (simp add: comp_def)
  with run res show ?thesis unfolding queue(3) by simp
qed

end
