(* ===== verification/Startup.thy ===== *)
theory Startup
  imports Topics Executor
begin

text \<open>
  How a client comes into being: \<open>FredConnectionManager::create\<close> in
  \<open>src/connection/fred_connection_manager.rs\<close>, \<open>PublishSubscribeService::new\<close> in
  \<open>src/pubsub/publish_subscribe_service.rs\<close> and \<open>Redisson\<close> in \<open>src/redisson.rs\<close>. The
  constructors and connection requests of the client library are arguments; which listeners
  are installed and which background tasks are started is part of the state.
\<close>

section \<open>The client library\<close>

record client_args =
  ca_config :: fred_config
  ca_perf :: perf_config
  ca_connection :: connection_config
  ca_policy :: reconnect_policy

record 'w client_lib =
  cl_perf_default :: perf_config
  cl_connection_default :: connection_config
  cl_pool_new :: "client_args \<Rightarrow> nat \<Rightarrow> err + unit"
  cl_pool_init :: "client_args \<Rightarrow> nat \<Rightarrow> ('w, unit) prog"
  cl_pool_quit :: "('w, unit) prog"
  cl_shardnumsub :: "('w, rvalue) prog"
  cl_subscriber_init :: "client_args \<Rightarrow> ('w, unit) prog"

text \<open>
  The event listeners on the pool's first client, whose event bus all clients share, and the
  tasks of the subscription service. \<open>SubscriptionTask\<close> is the library's own task that
  subscribes again after a reconnect.
\<close>

datatype hook = ClusterChangeHook | ReconnectHook

datatype background = MessageTask | KeyspaceTask | SubscriptionTask | ReconnectTask

record 'w process =
  pr_remote :: 'w
  pr_hooks :: "hook list"
  pr_tasks :: "background list"

definition in_process :: "('w, 'a) prog \<Rightarrow> ('w process, 'a) prog" where
  "in_process m st = (case m (pr_remote st) of (r, w) \<Rightarrow> (r, st\<lparr>pr_remote := w\<rparr>))"

definition install :: "hook \<Rightarrow> ('w process, unit) prog" where
  "install h st = (Inr (), st\<lparr>pr_hooks := pr_hooks st @ [h]\<rparr>)"

definition spawn :: "background \<Rightarrow> ('w process, unit) prog" where
  "spawn t st = (Inr (), st\<lparr>pr_tasks := pr_tasks st @ [t]\<rparr>)"

definition of_result :: "err + 'a \<Rightarrow> ('s, 'a) prog" where
  "of_result r st = (r, st)"

text \<open>\<open>context\<close>: the error is displayed as its context.\<close>

definition with_context :: "string \<Rightarrow> ('s, 'a) prog \<Rightarrow> ('s, 'a) prog" where
  "with_context m p st =
     (case p st of (Inl e, st') \<Rightarrow> (Inl (Msg m), st') | (Inr x, st') \<Rightarrow> (Inr x, st'))"

definition client_args_of :: "'w client_lib \<Rightarrow> redisson_config \<Rightarrow> err + client_args" where
  "client_args_of lib c =
     (case build_fred_config c of
        Inl e \<Rightarrow> Inl e
      | Inr fc \<Rightarrow>
          Inr \<lparr>ca_config = fc, ca_perf = build_perf_config (cl_perf_default lib) c,
               ca_connection = build_connection_config (cl_connection_default lib) c,
               ca_policy = build_reconnect_policy c\<rparr>)"

section \<open>The subscription service\<close>

definition pubsub_service_new ::
  "'w client_lib \<Rightarrow> redisson_config \<Rightarrow> string \<Rightarrow> ('w process, 'h pubsub_service) prog" where
  "pubsub_service_new lib c cmd =
     pbind (of_result (client_args_of lib c)) (\<lambda>a.
     pbind (with_context ''Failed to connect subscriber'' (in_process (cl_subscriber_init lib a))) (\<lambda>u.
     pbind (spawn MessageTask) (\<lambda>u.
     pbind (spawn KeyspaceTask) (\<lambda>u.
     pbind (spawn SubscriptionTask) (\<lambda>u.
     pbind (if is_cluster (cf_mode c) then spawn ReconnectTask else pret ()) (\<lambda>u.
     pret (pubsub_new c cmd)))))))"

section \<open>The connection manager\<close>

record ('i, 'h) connection_manager =
  cm_subscribe_service :: "'h pubsub_service option"
  cm_service_manager :: "'i service_manager"
  cm_config :: redisson_config
  cm_read_mode :: read_mode

definition set_once :: "'h pubsub_service \<Rightarrow> ('i, 'h) connection_manager \<Rightarrow> err + ('i, 'h) connection_manager" where
  "set_once s cm =
     (case cm_subscribe_service cm of
        Some x \<Rightarrow> Inl (Msg ''subscribe_service already set'')
      | None \<Rightarrow> Inr (cm\<lparr>cm_subscribe_service := Some s\<rparr>))"

definition sharding_support :: "'w client_lib \<Rightarrow> redisson_config \<Rightarrow> ('w process, string) prog" where
  "sharding_support lib c st =
     (case check_sharding_support (cl_shardnumsub lib) c (pr_remote st) of
        (cmd, w) \<Rightarrow> (Inr cmd, st\<lparr>pr_remote := w\<rparr>))"

definition create ::
  "'w client_lib \<Rightarrow> redisson_config \<Rightarrow> ('w process, ('i, 'h) connection_manager) prog" where
  "create lib c =
     pbind (of_result (client_args_of lib c)) (\<lambda>a.
     pbind (with_context ''Failed to create Redis pool'' (of_result (cl_pool_new lib a (cf_pool_size c)))) (\<lambda>u.
     pbind (with_context ''Failed to connect to Redis'' (in_process (cl_pool_init lib a (cf_pool_size c)))) (\<lambda>u.
     pbind (install ClusterChangeHook) (\<lambda>u.
     pbind (install ReconnectHook) (\<lambda>u.
     pbind (sharding_support lib c) (\<lambda>cmd.
     pbind (pubsub_service_new lib c cmd) (\<lambda>s.
     of_result (set_once s
       \<lparr>cm_subscribe_service = None, cm_service_manager = service_manager_new, cm_config = c,
        cm_read_mode = cf_read_mode c\<rparr>))))))))"

text \<open>The accessor panics (\<open>None\<close>) as long as the service is not set.\<close>

definition subscribe_service :: "('i, 'h) connection_manager \<Rightarrow> 'h pubsub_service option" where
  "subscribe_service cm = cm_subscribe_service cm"

text \<open>The result of \<open>quit\<close> is ignored.\<close>

definition shutdown :: "'w client_lib \<Rightarrow> 'w process \<Rightarrow> 'w process" where
  "shutdown lib st = snd (in_process (cl_pool_quit lib) st)"

section \<open>The client object\<close>

record ('i, 'h) redisson =
  rd_connection_manager :: "('i, 'h) connection_manager"
  rd_command_executor :: command_async_inner
  rd_config :: redisson_config

definition redisson_create ::
  "'w client_lib \<Rightarrow> redisson_config \<Rightarrow> ('w process, ('i, 'h) redisson) prog" where
  "redisson_create lib c =
     pbind (create lib c) (\<lambda>cm.
     pret \<lparr>rd_connection_manager = cm, rd_command_executor = inner_new, rd_config = c\<rparr>)"

text \<open>A topic, together with the service it works on.\<close>

definition get_pattern_topic ::
  "('i, 'h) redisson \<Rightarrow> string \<Rightarrow> (pattern_topic \<times> 'h pubsub_service) option" where
  "get_pattern_topic rd p =
     map_option (\<lambda>s. (pattern_topic_new p, s)) (subscribe_service (rd_connection_manager rd))"

section \<open>Events of the client library\<close>

datatype client_event = ClusterChanged | Reconnected server

fun run_hook :: "hook \<Rightarrow> client_event \<Rightarrow> 'w globals \<Rightarrow> 'w globals" where
  "run_hook ClusterChangeHook ClusterChanged s = clear_all_slave_info (clear_all_script_caches s)"
| "run_hook ReconnectHook (Reconnected srv) s = on_reconnect srv s"
| "run_hook _ _ s = s"

definition handle_event :: "hook list \<Rightarrow> client_event \<Rightarrow> 'w globals \<Rightarrow> 'w globals" where
  "handle_event hs ev s = fold (\<lambda>h. run_hook h ev) hs s"


section \<open>What a start leaves behind\<close>

lemmas startup_defs = pubsub_service_new_def create_def with_context_def of_result_def
  install_def spawn_def in_process_def sharding_support_def set_once_def

lemma client_args_total: "\<exists>a. client_args_of lib c = Inr a"
  using build_fred_config_total [of c] by (auto simp: client_args_of_def)

lemma sharding_command:
  assumes "check_sharding_support m c w = (cmd, w')"
  shows "cmd \<in> {''publish'', ''spublish''}"
    and "cmd = ''spublish'' \<Longrightarrow> is_cluster (cf_mode c) \<and> cf_sharded_subscription_mode c \<noteq> Off"
    and "is_cluster (cf_mode c) \<Longrightarrow> cf_sharded_subscription_mode c = On \<Longrightarrow> cmd = ''spublish''"
  using assms
  by (auto simp: check_sharding_support_def split: if_splits sharded_subscription_mode.splits
      prod.splits sum.splits)

lemma pubsub_service_new_cases:
  assumes "pubsub_service_new lib c cmd st = (r, st')" and "client_args_of lib c = Inr a"
    and "cl_subscriber_init lib a (pr_remote st) = (x, w)"
  shows "(\<exists>e. x = Inl e) \<and> r = Inl (Msg ''Failed to connect subscriber'') \<and> st' = st\<lparr>pr_remote := w\<rparr> \<or>
    x = Inr () \<and> r = Inr (pubsub_new c cmd) \<and>
       st' = st\<lparr>pr_remote := w, pr_tasks := pr_tasks st @ [MessageTask, KeyspaceTask, SubscriptionTask] @
         (if is_cluster (cf_mode c) then [ReconnectTask] else [])\<rparr>"
  using assms by (cases x) (auto simp: startup_defs pbind_def split: if_splits)

text \<open>A start, with the calls that always succeed done.\<close>

lemma create_run:
  assumes a: "client_args_of lib c = Inr a"
    and init: "cl_pool_init lib a (cf_pool_size c) (pr_remote st) = (x, w)"
    and sharding: "check_sharding_support (cl_shardnumsub lib) c w = (cmd, w1)"
    and service: "pubsub_service_new lib c cmd
        (st\<lparr>pr_remote := w1, pr_hooks := pr_hooks st @ [ClusterChangeHook, ReconnectHook]\<rparr>) = (y, st2)"
  shows "create lib c st =
    (case cl_pool_new lib a (cf_pool_size c) of
       Inl e \<Rightarrow> (Inl (Msg ''Failed to create Redis pool''), st)
     | Inr u \<Rightarrow>
         (case x of
            Inl e \<Rightarrow> (Inl (Msg ''Failed to connect to Redis''), st\<lparr>pr_remote := w\<rparr>)
          | Inr u \<Rightarrow>
              (case y of
                 Inl e \<Rightarrow> (Inl e, st2)
               | Inr s \<Rightarrow>
                   (Inr \<lparr>cm_subscribe_service = Some s, cm_service_manager = service_manager_new,
                       cm_config = c, cm_read_mode = cf_read_mode c\<rparr>, st2))))"
proof -
  have order: "st\<lparr>pr_hooks := h, pr_remote := w1\<rparr> = st\<lparr>pr_remote := w1, pr_hooks := h\<rparr>" for h
    by (cases st) simp
  show ?thesis
    using assms
    by (cases "cl_pool_new lib a (cf_pool_size c)"; cases x; cases y)
      (simp_all add: create_def with_context_def of_result_def in_process_def install_def
         sharding_support_def set_once_def pbind_def order)
qed

text \<open>
  The requests of a start that connected its pool: the pool's, the probe for sharded
  subscriptions, the subscriber's; and the remote state after them.
\<close>

definition connected ::
  "'w client_lib \<Rightarrow> redisson_config \<Rightarrow> 'w \<Rightarrow> string \<Rightarrow> err + unit \<Rightarrow> 'w \<Rightarrow> bool" where
  "connected lib c w cmd r w' \<longleftrightarrow>
     (\<exists>a w1 w2. client_args_of lib c = Inr a \<and> cl_pool_init lib a (cf_pool_size c) w = (Inr (), w1) \<and>
        check_sharding_support (cl_shardnumsub lib) c w1 = (cmd, w2) \<and>
        cl_subscriber_init lib a w2 = (r, w'))"

lemma create_cases:
  fixes r :: "err + ('i, 'h) connection_manager"
  assumes "create lib c st = (r, st')"
  shows "r = Inl (Msg ''Failed to create Redis pool'') \<and> st' = st \<or>
    (\<exists>a e w. r = Inl (Msg ''Failed to connect to Redis'') \<and> client_args_of lib c = Inr a \<and>
       cl_pool_init lib a (cf_pool_size c) (pr_remote st) = (Inl e, w) \<and> st' = st\<lparr>pr_remote := w\<rparr>) \<or>
    (\<exists>e w cmd. r = Inl (Msg ''Failed to connect subscriber'') \<and>
       connected lib c (pr_remote st) cmd (Inl e) w \<and>
       st' = st\<lparr>pr_remote := w, pr_hooks := pr_hooks st @ [ClusterChangeHook, ReconnectHook]\<rparr>) \<or>
    (\<exists>w cmd. connected lib c (pr_remote st) cmd (Inr ()) w \<and>
       r = Inr \<lparr>cm_subscribe_service = Some (pubsub_new c cmd), cm_service_manager = service_manager_new,
          cm_config = c, cm_read_mode = cf_read_mode c\<rparr> \<and>
       st' = st\<lparr>pr_remote := w, pr_hooks := pr_hooks st @ [ClusterChangeHook, ReconnectHook],
          pr_tasks := pr_tasks st @ [MessageTask, KeyspaceTask, SubscriptionTask] @
            (if is_cluster (cf_mode c) then [ReconnectTask] else [])\<rparr>)"
proof -
  obtain a where a: "client_args_of lib c = Inr a" using client_args_total by blast
  obtain x w where i: "cl_pool_init lib a (cf_pool_size c) (pr_remote st) = (x, w)" by fastforce
  obtain cmd w1 where s: "check_sharding_support (cl_shardnumsub lib) c w = (cmd, w1)" by fastforce
  obtain z w2 where z: "cl_subscriber_init lib a w1 = (z, w2)" by fastforce
  let ?st1 = "st\<lparr>pr_remote := w1, pr_hooks := pr_hooks st @ [ClusterChangeHook, ReconnectHook]\<rparr>"
  obtain y :: "err + 'h pubsub_service" and st2 where p: "pubsub_service_new lib c cmd ?st1 = (y, st2)"
    by fastforce
  note run = assms [unfolded create_run [OF a i s p]]
  show ?thesis
  proof (cases "cl_pool_new lib a (cf_pool_size c)"; cases x)
    fix u v assume new: "cl_pool_new lib a (cf_pool_size c) = Inr u" and x: "x = Inr v"
    have conn: "connected lib c (pr_remote st) cmd z w2"
      using a i s z x by (auto simp: connected_def)
    have "cl_subscriber_init lib a (pr_remote ?st1) = (z, w2)" using z by simp
    from pubsub_service_new_cases [OF p a this] show ?thesis
    proof (elim disjE exE conjE)
      fix e assume "z = Inl e" "y = Inl (Msg ''Failed to connect subscriber'')" and "st2 = ?st1\<lparr>pr_remote := w2\<rparr>"
      with run new x conn show ?thesis
        by - (rule disjI2, rule disjI2, rule disjI1, rule exI [where x = e], rule exI [where x = w2],
          rule exI [where x = cmd], cases st, auto)
    next
      assume "z = Inr ()" "y = Inr (pubsub_new c cmd)"
        and "st2 = ?st1\<lparr>pr_remote := w2, pr_tasks := pr_tasks ?st1 @ [MessageTask, KeyspaceTask, SubscriptionTask] @
          (if is_cluster (cf_mode c) then [ReconnectTask] else [])\<rparr>"
      with run new x conn show ?thesis
        by - (rule disjI2, rule disjI2, rule disjI2, rule exI [where x = w2], rule exI [where x = cmd],
          cases st, auto)
    qed
  next
    fix u e assume "cl_pool_new lib a (cf_pool_size c) = Inr u" and "x = Inl e"
    with run a i show ?thesis
      by - (rule disjI2, rule disjI1, rule exI [where x = a], rule exI [where x = e], rule exI [where x = w], simp)
  qed (use run in simp_all)
qed

lemma fresh_service [simp]:
  "entry_of wm (pubsub_new c cmd) d = None" "ps_config (pubsub_new c cmd) = c"
  "publish_command (pubsub_new c cmd) = cmd" "\<not> has_caching_instances service_manager_new"
  by (simp_all add: entry_of_def get_map_new has_caching_instances_def service_manager_new_def)
    (simp_all add: pubsub_new_def)

text \<open>
  C39: What starting a client leaves behind. A failed start reports the step that failed and
  starts no task. When the pool cannot be connected, no event listener is installed. When
  only the subscriber fails, the pool is not disconnected: the requests of the start were
  the pool's connection, the probe for sharded subscriptions and the subscriber's failed
  connection, none follows them, and the pool's event listeners stay. A successful start has
  a subscription service without any listener, whose publish
  command is the sharded one only in a cluster that is not configured against it, an empty
  registry of client-side caches, both event listeners, and the task that subscribes
  keyspace patterns again after a reconnect exactly in cluster mode.
\<close>

theorem create_outcome:
  assumes "create lib c st = (r, st')"
  shows "case r of
      Inl e \<Rightarrow> pr_tasks st' = pr_tasks st \<and>
        (e = Msg ''Failed to create Redis pool'' \<and> st' = st \<or>
         e = Msg ''Failed to connect to Redis'' \<and> pr_hooks st' = pr_hooks st \<and>
           (\<exists>a e'. client_args_of lib c = Inr a \<and>
              cl_pool_init lib a (cf_pool_size c) (pr_remote st) = (Inl e', pr_remote st')) \<or>
         e = Msg ''Failed to connect subscriber'' \<and>
           pr_hooks st' = pr_hooks st @ [ClusterChangeHook, ReconnectHook] \<and>
           (\<exists>cmd e'. connected lib c (pr_remote st) cmd (Inl e') (pr_remote st')))
    | Inr cm \<Rightarrow> cm_config cm = c \<and> cm_read_mode cm = cf_read_mode c \<and>
        \<not> has_caching_instances (cm_service_manager cm) \<and>
        pr_hooks st' = pr_hooks st @ [ClusterChangeHook, ReconnectHook] \<and>
        pr_tasks st' = pr_tasks st @ [MessageTask, KeyspaceTask, SubscriptionTask] @
          (if is_cluster (cf_mode c) then [ReconnectTask] else []) \<and>
        (\<exists>s. subscribe_service cm = Some s \<and> (\<forall>wm d. entry_of wm s d = None) \<and> ps_config s = c \<and>
           connected lib c (pr_remote st) (publish_command s) (Inr ()) (pr_remote st') \<and>
           publish_command s \<in> {''publish'', ''spublish''} \<and>
           (publish_command s = ''spublish'' \<longrightarrow>
              is_cluster (cf_mode c) \<and> cf_sharded_subscription_mode c \<noteq> Off) \<and>
           (is_cluster (cf_mode c) \<and> cf_sharded_subscription_mode c = On \<longrightarrow>
              publish_command s = ''spublish''))"
  using create_cases [OF assms]
proof (elim disjE exE conjE)
  fix w cmd
  assume conn: "connected lib c (pr_remote st) cmd (Inr ()) w"
    and r: "r = Inr \<lparr>cm_subscribe_service = Some (pubsub_new c cmd), cm_service_manager = service_manager_new,
          cm_config = c, cm_read_mode = cf_read_mode c\<rparr>"
    and st: "st' = st\<lparr>pr_remote := w, pr_hooks := pr_hooks st @ [ClusterChangeHook, ReconnectHook],
          pr_tasks := pr_tasks st @ [MessageTask, KeyspaceTask, SubscriptionTask] @
            (if is_cluster (cf_mode c) then [ReconnectTask] else [])\<rparr>"
  obtain w1 w2 where "check_sharding_support (cl_shardnumsub lib) c w1 = (cmd, w2)"
    using conn unfolding connected_def by blast
  from sharding_command [OF this] conn show ?thesis unfolding r st by (auto simp: subscribe_service_def)
qed auto

text \<open>
  With the listeners of a started client in place, a change of the cluster drops the
  script digests and the replication state recorded for every node, and a reconnect drops
  those of the node that reconnected and no others; the digest cache is not affected.
\<close>

theorem events_after_create:
  assumes "create lib c st = (Inr cm, st')" and "pr_hooks st = []"
  shows "(let s' = handle_event (pr_hooks st') ev s;
              hit = (\<lambda>srv. ev = ClusterChanged \<or> ev = Reconnected srv)
          in loaded_shas s' srv = (if hit srv then {} else loaded_shas s srv) \<and>
             get_slave_info s' srv = (if hit srv then None else get_slave_info s srv) \<and>
             sha_cache s' = sha_cache s \<and> remote s' = remote s)"
proof -
  have "pr_hooks st' = [ClusterChangeHook, ReconnectHook]"
    using create_cases [OF assms(1)] assms(2) by auto
  then show ?thesis
    by (cases ev) (auto simp: handle_event_def loaded_shas_def get_slave_info_def on_reconnect_def
        clear_all_script_caches_def clear_all_slave_info_def Let_def)
qed

text \<open>
  C29: From the start of a client to the first message: a handler added to a pattern topic of
  a freshly started client is called exactly once for a message on a channel that the
  pattern matches, with the pattern, the channel and the value, and not at all for any other
  channel. A handler of a keyspace or keyevent pattern is called so for a keyspace event
  whose channel, in the form the pattern asks for, the pattern matches. A handler of one kind is
  never called for what the other kind is sent.
\<close>

theorem fresh_topic_delivers:
  assumes "redisson_create lib c st = (Inr rd, st')"
    and "get_pattern_topic rd p = Some (t, s)"
    and "add_listener sb t addr h (s, w) = (Inr i, s1, w1)"
  shows "dispatch_message s1 \<lparr>msg_kind = PMessage, msg_channel = ch, msg_value = v\<rparr> =
    (if \<not> is_keyspace (ChannelName p) \<and> gmatch (chars p) (chars ch) then [Delivery h p ch v] else []) \<and>
    dispatch_keyspace lossy s1 ev =
    (case keyspace_message lossy ev p of (channel, x) \<Rightarrow>
       if is_keyspace (ChannelName p) \<and> gmatch (chars p) (chars channel) then [Delivery h p channel x] else [])"
proof -
  let ?c = "ChannelName p" and ?l = "pubsub_pattern_listener addr h p"
  obtain cm where cm: "create lib c st = (Inr cm, st')" and rd: "rd_connection_manager rd = cm"
    using assms(1) by (auto simp: redisson_create_def elim!: pbind_InrE)
  obtain cmd where s: "s = pubsub_new c cmd" and t: "t = pattern_topic_new p"
    using create_cases [OF cm] assms(2) rd by (auto simp: get_pattern_topic_def subscribe_service_def)
  have "psubscribe sb ?c (OneListener ?l) (s, w) = (Inr (), s1, w1)"
    using assms(3) unfolding add_listener_Inr t by (simp add: pattern_topic_new_def)
  from psubscribe_state(2) [OF this] have s1: "s1 = snd (psubscribe_begin ?c [?l] s)" by simp
  show ?thesis
  proof (cases "is_keyspace ?c")
    case False
    then have "pattern_listeners s1 = [(?c, [?l])]" "keyspace_pattern_listeners s1 = []"
      by (simp_all add: s1 psubscribe_begin_def psub_map_def extend_entry_def s pubsub_new_def Let_def)
    with False show ?thesis
      by (simp add: dispatch_message_def dispatch_keyspace_def on_pattern_message_def
          pubsub_pattern_listener_def redis_glob_matches_iff Let_def split: prod.split)
  next
    case True
    then have "pattern_listeners s1 = []" "keyspace_pattern_listeners s1 = [(?c, [?l])]"
      by (simp_all add: s1 psubscribe_begin_def psub_map_def extend_entry_def s pubsub_new_def Let_def)
    with True show ?thesis
      by (simp add: dispatch_message_def dispatch_keyspace_def on_pattern_message_def
          pubsub_pattern_listener_def redis_glob_matches_iff Let_def split: prod.split)
  qed
qed

end
