(* ===== verification/ServiceExamples.thy ===== *)
theory ServiceExamples
  imports BatchExamples CoreSpec PubSubSpec Startup Renewal
begin

text \<open>
  Concrete instances of the remaining properties that have hypotheses: the default
  configuration, a subscriber client that accepts or refuses every request, and evaluations
  of scripts on the client of the batch examples.
\<close>

section \<open>Configuration and routing\<close>

lemma default_config_accepted: "\<exists>r. try_from_config default_redis_config = Inr r"
  by (simp add: try_from_config_def parse_mode_def parse_sharded_mode_def parse_read_mode_def
      default_redis_config_def Let_def)

theorem config_reaches_client_witness:
  "\<exists>r fc. try_from_config default_redis_config = Inr r \<and> build_fred_config r = Inr fc \<and>
     config_hosts (fc_server fc) = [Server ''localhost'' 6379] \<and>
     rp_max_delay (build_reconnect_policy r) = 30000"
proof -
  obtain r where r: "try_from_config default_redis_config = Inr r" using default_config_accepted by blast
  from config_reaches_client [OF r] r show ?thesis
    by (auto simp: configured_hosts_def default_redis_config_def Let_def)
qed

theorem config_ignored_fields_witness:
  "\<exists>r. try_from_config (default_redis_config\<lparr>rc_command_timeout_secs := 60\<rparr>) = Inr r \<and>
     default_command_timeout (build_perf_config \<lparr>default_command_timeout = 0\<rparr> r) = from_millis 3000"
proof -
  obtain r where r: "try_from_config default_redis_config = Inr r" using default_config_accepted by blast
  have "default_redis_config\<lparr>rc_command_timeout_secs := 60, rc_retry_delay_max_ms := 2000\<rparr> =
      default_redis_config\<lparr>rc_command_timeout_secs := 60\<rparr>"
    by (simp add: default_redis_config_def)
  with config_ignored_fields [OF r, where x = 60 and y = 2000 and dflt = "\<lparr>default_command_timeout = 0\<rparr>"] show ?thesis
    by (auto simp: default_redis_config_def)
qed

theorem broadcast_reaches_owner_witness:
  "node_b \<in> primary ` set (get_entry_set demo_fred (False, 0))"
proof -
  have ok: "routing_consistent demo_fred (False, 0)"
    by (simp add: routing_consistent_def demo_fred_def demo_routing_def)
  have "get_write_entry demo_fred (False, 0) 7 = Some (from_slot 7 node_b)" by simp
  from broadcast_reaches_owner [OF ok this] show ?thesis by (simp add: from_slot_def)
qed

section \<open>Publish and subscribe\<close>

definition demo_subscriber :: "bool \<Rightarrow> unit subscriber" where
  "demo_subscriber accepts =
     \<lparr>sb_request = (\<lambda>q w. (if accepts then Inr () else Inl (Msg ''refused''), w)),
      sb_join = (\<lambda>ts w. (rev (map (\<lambda>(srv, q). (srv, Answered
         (if accepts \<or> srv = node_a then Inr () else Inl (Msg ''refused'')))) ts), w)),
      sb_manager_alive = (\<lambda>w. True),
      sb_entry_set = (\<lambda>w. [from_server node_a, from_server node_b]),
      sb_show_server = (\<lambda>srv. if srv = node_a then ''a'' else ''b'')\<rparr>"

definition demo_service :: "string pubsub_service" where
  "demo_service = pubsub_new demo_config ''PUBLISH''"

definition news :: channel_name where "news = ChannelName ''news.*''"
definition events :: channel_name where "events = ChannelName ''__keyevent@0__:*''"

definition reader :: "string listener" where
  "reader = \<lparr>l_addr = 1, l_listener = ''reader'', l_name = ''news.*''\<rparr>"
definition watcher :: "string listener" where
  "watcher = \<lparr>l_addr = 2, l_listener = ''watcher'', l_name = ''__keyevent@0__:*''\<rparr>"

lemma demo_channels [simp]:
  "\<not> is_keyspace news" "is_keyspace events" "psub_map news = PatternMap" "psub_map events = KeyspaceMap"
  "news \<noteq> events" "events \<noteq> news" "cn_str news = ''news.*''" "cn_str events = ''__keyevent@0__:*''"
  by (simp_all add: news_def events_def is_keyspace_def starts_with_def psub_map_def)

lemma demo_service_simps [simp]:
  "entry_of wm demo_service c = None" "is_cluster (cf_mode (ps_config demo_service))"
  "get_map wm demo_service = []" "pattern_listeners demo_service = []" "keyspace_pattern_listeners demo_service = []"
  "channel_listeners demo_service = []" "shard_channel_listeners demo_service = []"
  by (simp_all add: demo_service_def entry_of_def get_map_new demo_config_def)
    (simp_all add: pubsub_new_def)

lemma refused_psubscribe:
  "\<exists>e s1. psubscribe (demo_subscriber False) news (OneListener reader) (demo_service, ()) = (Inl e, s1, ())"
  by (simp add: psubscribe_def psubscribe_begin_def demo_subscriber_def Let_def)

lemma accepted_psubscribe:
  "\<exists>s1. psubscribe (demo_subscriber True) news (OneListener reader) (demo_service, ()) = (Inr (), s1, ())"
  by (simp add: psubscribe_def psubscribe_begin_def demo_subscriber_def psubscribe_finish_def Let_def)

theorem psubscribe_outcome_witness:
  "\<exists>s1. psubscribe (demo_subscriber True) news (OneListener reader) (demo_service, ()) = (Inr (), s1, ()) \<and>
     pattern_entry s1 news = Some [reader]"
proof -
  obtain s1 where s1: "psubscribe (demo_subscriber True) news (OneListener reader) (demo_service, ())
      = (Inr (), s1, ())" using accepted_psubscribe by blast
  from psubscribe_outcome [OF s1] s1 show ?thesis by (simp add: listeners_of_def)
qed

theorem failed_psubscribe_blocks_witness:
  "\<exists>e s1 s2 s3. psubscribe (demo_subscriber False) news (OneListener reader) (demo_service, ()) = (Inl e, s1, ()) \<and>
     run_service_calls (demo_subscriber True)
       [CallPsubscribe events (OneListener watcher), CallRemove Punsubscribe (OneChannel events) (OneId (ListenerId 2))]
       (s1, ()) = (s2, ()) \<and>
     psubscribe (demo_subscriber True) news (OneListener reader) (s2, ()) = (Inr (), s3, ())"
proof -
  let ?xs = "[CallPsubscribe events (OneListener watcher),
      CallRemove Punsubscribe (OneChannel events) (OneId (ListenerId 2))]"
  obtain e s1 where s1: "psubscribe (demo_subscriber False) news (OneListener reader) (demo_service, ())
      = (Inl e, s1, ())" using refused_psubscribe by blast
  obtain s2 where s2: "run_service_calls (demo_subscriber True) ?xs (s1, ()) = (s2, ())"
    using prod.collapse [of "run_service_calls (demo_subscriber True) ?xs (s1, ())"] by (metis old.unit.exhaust)
  have "\<forall>x \<in> set ?xs. \<not> removes_from news x" by simp
  from failed_psubscribe_blocks [OF s1 s2 this, of "OneListener reader" "()"] s1 s2 show ?thesis by blast
qed

definition reading :: "string pubsub_service" where
  "reading = snd (psubscribe_begin news [reader] demo_service)"

lemma reading_simps [simp]:
  "entry_of wm reading c = (if wm = PatternMap \<and> c = news then Some [reader] else None)"
  "ps_config reading = ps_config demo_service"
proof -
  have b: "psubscribe_begin news [reader] demo_service =
      (False, set_map_of PatternMap (extend_entry news [reader] []) demo_service)"
    by (simp add: psubscribe_begin_def Let_def)
  show "entry_of wm reading c = (if wm = PatternMap \<and> c = news then Some [reader] else None)"
    using b by (cases wm) (auto simp: reading_def entry_of_def extend_entry_def)
  show "ps_config reading = ps_config demo_service" using b by (simp add: reading_def)
qed

theorem remove_listener_outcome_witness:
  "\<exists>r s' w'. remove_listener (demo_subscriber True) Punsubscribe (OneChannel news)
      (OneId (ListenerId 1)) (reading, ()) = (r, s', w') \<and> entry_of PatternMap s' news = None"
proof -
  obtain r s' w' where r: "remove_listener (demo_subscriber True) Punsubscribe (OneChannel news)
      (OneId (ListenerId 1)) (reading, ()) = (r, s', w')" by (rule prod_cases3)
  from remove_listener_outcome [OF r, of PatternMap news] r show ?thesis
    by (auto simp: reader_def Let_def)
qed

theorem unsubscribes_emptied_witness:
  "\<exists>r s'. remove_listener (recorded (demo_subscriber True)) Punsubscribe (ManyChannels [news, news])
      (OneId (ListenerId 1)) (reading, (), []) = (r, s', (), [ReqPunsubscribe [news]])"
proof -
  obtain r s' w' l' where r: "remove_listener (recorded (demo_subscriber True)) Punsubscribe
      (ManyChannels [news, news]) (OneId (ListenerId 1)) (reading, (), []) = (r, s', w', l')"
    by (metis prod_cases4)
  have "entry_of PatternMap s' news = None"
    using remove_listener_outcome [OF r, of PatternMap news] by (auto simp: reader_def Let_def)
  then have gone: "{c \<in> set (into_vec (ManyChannels [news, news])).
      entry_of (unsub_map Punsubscribe c) reading c \<noteq> None \<and> entry_of (unsub_map Punsubscribe c) s' c = None} =
    {news}" by auto
  obtain n k where nk: "distinct (n @ k)" "set (n @ k) = {news}" 
      "set k = {c \<in> set (n @ k). Punsubscribe = Punsubscribe \<and> is_cluster (cf_mode (ps_config reading)) \<and> is_keyspace c}"
    and l': "let (a, w1) = (if n = [] then (Inr (), ()) else
        sb_request (demo_subscriber True) (unsubscribe_request Punsubscribe n) ())
      in l' = [] @ (if n = [] then [] else [unsubscribe_request Punsubscribe n]) @
        (if k \<noteq> [] \<and> a = Inr () \<and> sb_manager_alive (demo_subscriber True) w1
         then map (\<lambda>e. NodePunsubscribe (primary e) k) (sb_entry_set (demo_subscriber True) w1) else [])"
    using unsubscribes_emptied [OF r] unfolding gone
    by (elim exE conjE) (rule that)
  have "set k \<subseteq> {}" using nk(3) unfolding nk(2) by auto
  then have "k = []" by simp
  with nk(1,2) have "n = [news]" by (cases n; cases "tl n") auto
  with \<open>k = []\<close> l' r show ?thesis by (auto simp: demo_subscriber_def)
qed

definition demo_run_state :: "string run_state" where
  "demo_run_state = (run_init demo_config ''PUBLISH'')\<lparr>rs_service := reading, rs_flight := [Psubscribing news]\<rparr>"

lemma demo_run_step:
  "run_step False (run_init demo_config ''PUBLISH'') demo_run_state"
proof -
  have "psubscribe_begin news [reader] (rs_service (run_init demo_config ''PUBLISH'')) = (False, reading)"
    using begin_unknown [of demo_service news "[reader]"]
    by (simp add: run_init_def demo_service_def [symmetric] reading_def pattern_entry_def)
  from start_new [OF this] show ?thesis by (simp add: demo_run_state_def run_init_def)
qed

lemma demo_reachable: "reachable demo_config ''PUBLISH'' False demo_run_state"
  by (rule reach_ok [OF reach_init demo_run_step])

lemma demo_reachable_by: "reachable_by demo_config ''PUBLISH'' {} demo_run_state"
  by (rule by_step [OF by_init demo_run_step]) (simp add: demo_run_state_def)

theorem pattern_maps_separate_witness:
  "entry_of PatternMap (rs_service demo_run_state) news = Some [reader] \<and>
   entry_of KeyspaceMap (rs_service demo_run_state) news = None"
  using pattern_maps_separate [OF demo_reachable, where c = news] by (simp add: demo_run_state_def)

theorem registered_served_or_pending_witness:
  "news \<in> rs_serving demo_run_state \<or> Psubscribing news \<in> set (rs_flight demo_run_state)"
  by (rule registered_served_or_pending [OF demo_reachable_by])
    (simp_all add: demo_run_state_def pattern_entry_def)

theorem pmessage_deliveries_witness:
  "mset (dispatch_message (rs_service demo_run_state)
     \<lparr>msg_kind = PMessage, msg_channel = ''news.today'', msg_value = Str ''hello''\<rparr>) =
   {#Delivery ''reader'' ''news.*'' ''news.today'' (Str ''hello'')#}"
proof -
  have g: "gmatch (chars ''news.*'') (chars ''news.today'')"
    unfolding redis_glob_matches_iff [symmetric] by code_simp
  have "{c. entry_of PatternMap (rs_service demo_run_state) c \<noteq> None \<and>
      gmatch (chars (cn_str c)) (chars ''news.today'')} = {news}"
    using g by (auto simp: demo_run_state_def split: if_splits)
  with pmessage_deliveries [OF demo_reachable,
      of "\<lparr>msg_kind = PMessage, msg_channel = ''news.today'', msg_value = Str ''hello''\<rparr>"]
  show ?thesis by (simp add: demo_run_state_def listeners_of_def reader_def)
qed


definition watching :: "string pubsub_service" where
  "watching = snd (psubscribe_begin events [watcher] demo_service)"

lemma watching_simps [simp]:
  "entry_of wm watching c = (if wm = KeyspaceMap \<and> c = events then Some [watcher] else None)"
proof -
  have "psubscribe_begin events [watcher] demo_service =
      (False, set_map_of KeyspaceMap (extend_entry events [watcher] []) demo_service)"
    by (simp add: psubscribe_begin_def Let_def)
  then show ?thesis by (cases wm) (auto simp: watching_def entry_of_def extend_entry_def)
qed

definition watching_state :: "string run_state" where
  "watching_state =
     (run_init demo_config ''PUBLISH'')\<lparr>rs_service := watching, rs_flight := [Psubscribing events]\<rparr>"

lemma watching_reachable: "reachable demo_config ''PUBLISH'' False watching_state"
proof -
  have "psubscribe_begin events [watcher] (rs_service (run_init demo_config ''PUBLISH'')) = (False, watching)"
    using begin_unknown [of demo_service events "[watcher]"]
    by (simp add: run_init_def demo_service_def [symmetric] watching_def pattern_entry_def)
  from start_new [OF this]
  have "run_step False (run_init demo_config ''PUBLISH'') watching_state"
    by (simp add: watching_state_def run_init_def)
  then show ?thesis by (rule reach_ok [OF reach_init])
qed

theorem keyspace_deliveries_witness:
  "mset (dispatch_keyspace id (rs_service watching_state)
     \<lparr>ke_db = 0, ke_operation = ''del'', ke_key = ''user:1''\<rparr>) =
   {#Delivery ''watcher'' ''__keyevent@0__:*'' ''__keyevent@0__:del'' (Str ''user:1'')#}"
proof -
  have g: "gmatch (chars ''__keyevent@0__:*'') (chars ''__keyevent@0__:del'')"
    unfolding redis_glob_matches_iff [symmetric] by code_simp
  have "{c. entry_of KeyspaceMap (rs_service watching_state) c \<noteq> None} = {events}"
    by (auto simp: watching_state_def split: if_splits)
  moreover have "show_nat 0 = ''0''" by code_simp
  ultimately show ?thesis
    using keyspace_deliveries [OF watching_reachable, of id "\<lparr>ke_db = 0, ke_operation = ''del'', ke_key = ''user:1''\<rparr>"] g
    by (simp add: watching_state_def listeners_of_def watcher_def starts_with_def)
qed

theorem topic_add_remove_witness:
  "\<exists>s1 r s2 w3. add_listener (demo_subscriber True) (pattern_topic_new ''news.*'') 9 ''late'' (reading, ()) =
       (Inr (ListenerId 9), s1, ()) \<and>
     topic_remove_listener (demo_subscriber False) (pattern_topic_new ''news.*'') (OneId (ListenerId 9)) (s1, ()) =
       (r, s2, w3) \<and> listeners_of PatternMap s2 news = [reader]"
proof -
  let ?t = "pattern_topic_new ''news.*''"
  have t: "pt_channel_name ?t = news" by (simp add: pattern_topic_new_def news_def)
  have "pattern_entry reading news \<noteq> None" by (simp add: pattern_entry_def)
  from psubscribe_known [OF this, of "demo_subscriber True" _ "()"] t
  have "\<exists>s1. add_listener (demo_subscriber True) ?t 9 ''late'' (reading, ()) = (Inr (ListenerId 9), s1, ())"
    by (simp add: add_listener_Inr)
  then obtain s1 where a: "add_listener (demo_subscriber True) ?t 9 ''late'' (reading, ()) =
      (Inr (ListenerId 9), s1, ())" by blast
  obtain r s2 w3 where d: "topic_remove_listener (demo_subscriber False) ?t (OneId (ListenerId 9)) (s1, ()) = (r, s2, w3)"
    by (rule prod_cases3)
  have "listeners_of (psub_map news) s2 news = listeners_of (psub_map news) reading news"
    by (rule topic_add_remove [OF a d]) (simp add: t listeners_of_def reader_def)
  then have "listeners_of PatternMap s2 news = [reader]" by (simp add: listeners_of_def)
  with a d show ?thesis by blast
qed

theorem keyspace_psubscribe_broadcasts_witness:
  "\<exists>s'. psubscribe (demo_subscriber False) events (OneListener watcher) (demo_service, ()) =
     (Inl (Msg ''psubscribe to __keyevent@0__:* on b failed: refused''), s', ())"
proof -
  obtain rs where j: "sb_join (demo_subscriber False) (map (\<lambda>e. (primary e, NodePsubscribe (primary e) [events]))
      (sb_entry_set (demo_subscriber False) ())) () = (rs, ())"
    and rs: "rs = [(node_b, Answered (Inl (Msg ''refused''))), (node_a, Answered (Inr ()))]"
    by (simp add: demo_subscriber_def from_server_def)
  from keyspace_psubscribe_broadcasts [OF _ _ _ _ j, of demo_service "OneListener watcher"]
  show ?thesis by (simp add: rs pattern_entry_def demo_subscriber_def List.map_filter_simps)
qed


section \<open>Evaluations\<close>

lemma demo_digest_server:
  "digest_server demo_fred read_only opts ''return 1'' [''a''] [] fst"
  by (auto simp: digest_server_def Let_def demo_fred_def demo_call_def demo_answer_def plain_error_def
      no_script_def unknown_command_def starts_with_def)

theorem eval_pinned_as_eval_witness:
  "\<not> fst (remote demo_globals) \<and>
   fst (eval_pinned demo_fred True (call_options inner_new) ''return 1'' [''a''] [] demo_globals) =
   Inr (Str ''done'')"
proof -
  have "fst (eval_pinned demo_fred True (call_options inner_new) ''return 1'' [''a''] [] demo_globals) =
      fst (fr_call demo_fred (call_options inner_new) (QEval ''return 1'' [''a''] []) (remote demo_globals))"
    by (rule eval_pinned_as_eval [OF demo_digest_server demo_sha_ok])
  then show ?thesis by (simp add: demo_fred_def demo_call_def demo_answer_def initial_globals_def)
qed

definition demo_async :: "(demo_world, nat) async_state" where
  "demo_async =
     \<lparr>as_globals = demo_globals, as_inner = inner_new, as_registry = service_manager_new, as_cleared = []\<rparr>"

definition demo_logged :: "(demo_world logged, nat) async_state" where
  "demo_logged =
     \<lparr>as_globals = with_log [] demo_globals, as_inner = inner_new, as_registry = service_manager_new,
      as_cleared = []\<rparr>"

text \<open>The script is not loaded: its text is sent once, after the attempt by digest, to the node of the key.\<close>

theorem eval_pinned_one_node_witness:
  "\<exists>qs opts. snd (remote (as_globals (snd (eval_async (logged demo_fred)
        (demo_config\<lparr>cf_use_script_cache := True\<rparr>) PlainService False False ''return 1'' [''a''] [] demo_logged)))) =
      map (\<lambda>q. (WithOptions opts, Some q)) qs \<and>
    cluster_node opts = Some node_a \<and>
    hd qs \<noteq> QCustom ''SCRIPT'' FirstKey [Str ''LOAD'', Str ''return 1''] \<and>
    filter (\<lambda>q. q = QCustom ''SCRIPT'' FirstKey [Str ''LOAD'', Str ''return 1'']) qs =
      [QCustom ''SCRIPT'' FirstKey [Str ''LOAD'', Str ''return 1'']]"
proof -
  let ?cfg = "demo_config\<lparr>cf_use_script_cache := True\<rparr>"
  let ?load = "QCustom ''SCRIPT'' FirstKey [Str ''LOAD'', Str ''return 1'']"
  let ?opts = "(eval_options (as_inner demo_logged) False)\<lparr>cluster_node := map_option primary
      (get_write_entry demo_fred (fst (remote (as_globals demo_logged))) (keys_slot demo_fred [''a'']))\<rparr>"
  obtain sha s1 where sha: "calc_sha (logged demo_fred) ''return 1'' (as_globals demo_logged) = (sha, s1)" by fastforce
  have "remote s1 = remote (as_globals demo_logged)"
    using calc_sha_frame(3) [of "logged demo_fred" "''return 1''" "as_globals demo_logged"]
    unfolding sha by simp
  then have s1: "remote s1 = ((False, 0), [])" by (simp add: demo_logged_def initial_globals_def)
  let ?attempt = "execute (logged demo_fred) ?opts (eval_command False sha [''a''] [] s1) s1"
  have asked: "answered_noscript (fst ?attempt)"
    using s1 by (simp add: eval_command_def on_remote_apply logged_call_apply answered_noscript_def demo_fred_def
        demo_call_def demo_answer_def starts_with_def)
  have node: "cluster_node ?opts = Some node_a"
    by (simp add: demo_logged_def initial_globals_def keys_slot_def demo_fred_def demo_routing_def
        get_write_entry_def from_slot_def)
  have "cf_use_script_cache ?cfg" by simp
  from eval_pinned_one_node [where no_retry = False and ks = "[''a'']" and read_only = False and vs = "[]",
      OF this sha refl refl refl]
  obtain qs where "snd (remote (as_globals (snd (eval_async (logged demo_fred) ?cfg PlainService False False
        ''return 1'' [''a''] [] demo_logged)))) = map (\<lambda>q. (WithOptions ?opts, Some q)) qs"
    "hd qs \<noteq> ?load" "filter (\<lambda>q. q = ?load) qs = [?load]"
    using asked by (auto simp: demo_logged_def)
  with node show ?thesis by blast
qed

theorem synced_eval_returns_witness:
  "fst (synced_eval demo_fred demo_config PlainService (\<lambda>b. demo_schedule) (\<lambda>b. False) SyncAuto True
     ''return 1'' [''a''] [] demo_async) \<noteq> None"
  by (rule synced_eval_returns) (simp_all add: demo_schedule_ok)

theorem synced_eval_late_witness:
  "synced_loop demo_fred (demo_config\<lparr>cf_check_lock_synced_slaves := False\<rparr>) (\<lambda>b. demo_schedule)
     (\<lambda>b. True) False 1 (Some node_a) ''return 1'' [''a''] [] False demo_globals =
   (None, invalidate_slave_info node_a demo_globals)"
  using synced_eval_late [of "\<lambda>b. True" demo_fred "demo_config\<lparr>cf_check_lock_synced_slaves := False\<rparr>"
      "\<lambda>b. demo_schedule" False 1 "Some node_a" "''return 1''" "[''a'']" "[]" demo_globals]
  by (simp add: invalidate_node_def)

definition demo_failing ::
  "demo_world \<Rightarrow> master_slave_entry \<Rightarrow> bool \<Rightarrow> request list \<Rightarrow> (err + rvalue) list" where
  "demo_failing w n b qs =
     map (\<lambda>q. case q of
        QCustom name h vs \<Rightarrow> if name = ''EVAL'' then Inl (Msg ''NOSCRIPT'') else Inr (Integer 1)
      | _ \<Rightarrow> Inr (Integer 1)) qs"

text \<open>The script fails on the server, one replica is in sync: the caller is told null.\<close>

theorem synced_eval_result_witness:
  "synced_loop demo_fred demo_config
     (\<lambda>b. demo_schedule\<lparr>sc_replies := demo_failing\<rparr>) (\<lambda>b. False)
     False 1 (Some node_a) ''return 1'' [''a''] [] False demo_globals =
   (Some (Inr Null), after_run demo_globals)"
proof -
  let ?sch = "demo_schedule\<lparr>sc_replies := demo_failing\<rparr>"
  have ok: "sched_ok ?sch" using demo_schedule_ok by (simp add: sched_ok_def demo_failing_def)
  have entry: "get_write_entry demo_fred (remote demo_globals) (keys_slot demo_fred [''a'']) =
      Some (from_slot 1 node_a)"
    by (simp add: keys_slot_def)
  have load: "load_scripts demo_fred demo_config [(from_slot 1 node_a, script_entry (Eval ''return 1'' [''a''] []))]
      demo_globals = (Inr [(from_slot 1 node_a, script_entry (Eval ''return 1'' [''a''] []))], demo_globals)"
    by (simp add: load_scripts_def demo_config_def)
  have "synced_loop demo_fred demo_config (\<lambda>b. ?sch) (\<lambda>b. False) False 1 (Some node_a) ''return 1'' [''a''] []
      False demo_globals =
    (if cf_check_lock_synced_slaves demo_config \<and> 0 < sint (1 :: i64) \<and>
       extract_synced_slaves (Some (Inr (Integer 1))) = 0
     then Some (Inl not_synced) else Some (Inr (value_or_null (Inl (Msg ''NOSCRIPT'')))),
     (if extract_synced_slaves (Some (Inr (Integer 1))) \<noteq> 1 then invalidate_node (Some node_a) else id)
       (demo_globals\<lparr>remote := sc_effect ?sch (remote demo_globals)\<rparr>))"
    by (rule synced_eval_result [OF _ _ demo_accepts demo_sha_ok entry load refl,
          where r = "Inl (Msg ''NOSCRIPT'')" and w = "Inr (Integer 1)"])
      (simp_all add: ok demo_config_def demo_failing_def script_request_def wait_request_def make_wait_cmd_def Let_def)
  then show ?thesis by (simp add: extract_synced_slaves_def value_or_null_def after_run_def)
qed

section \<open>Starting a client\<close>

definition demo_lib :: "unit client_lib" where
  "demo_lib =
     \<lparr>cl_perf_default = \<lparr>default_command_timeout = 0\<rparr>,
      cl_connection_default = \<lparr>connection_timeout = 10, cc_max_command_attempts = 3, cc_max_redirections = 5\<rparr>,
      cl_pool_new = (\<lambda>a n. if n = 0 then Inl (Msg ''empty pool'') else Inr ()),
      cl_pool_init = (\<lambda>a n w. (Inr (), w)), cl_pool_quit = (\<lambda>w. (Inr (), w)),
      cl_shardnumsub = (\<lambda>w. (Inr (Array []), w)), cl_subscriber_init = (\<lambda>a w. (Inr (), w))\<rparr>"

definition demo_process :: "unit process" where
  "demo_process = \<lparr>pr_remote = (), pr_hooks = [], pr_tasks = []\<rparr>"

lemma demo_create:
  "create demo_lib demo_config demo_process =
     (Inr \<lparr>cm_subscribe_service = Some (pubsub_new demo_config ''spublish''),
        cm_service_manager = service_manager_new, cm_config = demo_config, cm_read_mode = Slave\<rparr>,
      \<lparr>pr_remote = (), pr_hooks = [ClusterChangeHook, ReconnectHook],
       pr_tasks = [MessageTask, KeyspaceTask, SubscriptionTask, ReconnectTask]\<rparr>)"
proof -
  obtain a where "client_args_of demo_lib demo_config = Inr a" using client_args_total by blast
  moreover have "is_cluster (cf_mode demo_config)" "cf_sharded_subscription_mode demo_config = Auto"
    "cf_pool_size demo_config = 2" "cf_read_mode demo_config = Slave"
    by (simp_all add: demo_config_def)
  moreover have "cl_pool_new demo_lib a 2 = Inr ()" "cl_pool_init demo_lib a 2 w = (Inr (), w)"
    "cl_shardnumsub demo_lib w = (Inr (Array []), w)" "cl_subscriber_init demo_lib a w = (Inr (), w)" for a w
    by (simp_all add: demo_lib_def)
  ultimately show ?thesis
    by (simp add: startup_defs pbind_apply demo_process_def check_sharding_support_def)
qed

theorem create_outcome_witness:
  "\<exists>cm st'. create demo_lib demo_config demo_process = (Inr (cm :: (nat, string) connection_manager), st') \<and>
     ReconnectTask \<in> set (pr_tasks st') \<and> (\<exists>s. subscribe_service cm = Some s \<and> ps_config s = demo_config)"
proof -
  obtain cm :: "(nat, string) connection_manager" and st' where
    c: "create demo_lib demo_config demo_process = (Inr cm, st')"
    using demo_create by blast
  have "is_cluster (cf_mode demo_config)" by (simp add: demo_config_def)
  with create_outcome [OF c] have "ReconnectTask \<in> set (pr_tasks st')"
    and "\<exists>s. subscribe_service cm = Some s \<and> ps_config s = demo_config" by auto
  with c show ?thesis by blast
qed

theorem events_after_create_witness:
  "loaded_shas (handle_event [ClusterChangeHook, ReconnectHook] (Reconnected node_a)
     (cache_scripts demo_fred node_b [''return 1''] demo_globals)) node_b =
   loaded_shas (cache_scripts demo_fred node_b [''return 1''] demo_globals) node_b"
  using events_after_create [OF demo_create, of "Reconnected node_a"
      "cache_scripts demo_fred node_b [''return 1''] demo_globals" node_b]
  by (simp add: demo_process_def Let_def)

theorem fresh_topic_delivers_witness:
  "\<exists>i s1 w1. add_listener (demo_subscriber True) (pattern_topic_new ''news.*'') 1 ''reader''
      (pubsub_new demo_config ''spublish'', ()) = (Inr i, s1, w1) \<and>
     dispatch_message s1 \<lparr>msg_kind = PMessage, msg_channel = ''news.today'', msg_value = Str ''hello''\<rparr> =
       [Delivery ''reader'' ''news.*'' ''news.today'' (Str ''hello'')]"
proof -
  let ?s = "pubsub_new demo_config ''spublish'' :: string pubsub_service"
  obtain rd :: "(nat, string) redisson" and st' where
    rd: "redisson_create demo_lib demo_config demo_process = (Inr rd, st')"
    and t: "get_pattern_topic rd ''news.*'' = Some (pattern_topic_new ''news.*'', ?s)"
    by (simp add: redisson_create_def pbind_apply demo_create get_pattern_topic_def subscribe_service_def)
  have c: "pt_channel_name (pattern_topic_new ''news.*'') = news"
    by (simp add: pattern_topic_new_def news_def)
  have "\<exists>s1. add_listener (demo_subscriber True) (pattern_topic_new ''news.*'') 1 ''reader'' (?s, ()) =
      (Inr (ListenerId 1), s1, ())"
    unfolding add_listener_Inr c
    by (simp add: psubscribe_def psubscribe_begin_def demo_subscriber_def psubscribe_finish_def get_map_new Let_def)
  then obtain s1 where a: "add_listener (demo_subscriber True) (pattern_topic_new ''news.*'') 1 ''reader''
      (?s, ()) = (Inr (ListenerId 1), s1, ())" by blast
  have k: "\<not> is_keyspace (ChannelName ''news.*'')" using demo_channels(1) by (simp add: news_def)
  have g: "gmatch (chars ''news.*'') (chars ''news.today'')"
    unfolding redis_glob_matches_iff [symmetric] by code_simp
  show ?thesis using conjunct1 [OF fresh_topic_delivers [OF rd t a, of "''news.today''"]] k g a by auto
qed

end
