(* ===== verification/ScriptCoherence.thy ===== *)
theory ScriptCoherence
  imports BatchNodes Startup
begin

text \<open>
  The script caches of the client against the scripts that the servers hold. A batch sends
  \<open>EVALSHA\<close> without a fallback when its cache says that the node has the script, so the cache
  must not claim more than the servers hold. Here the batch service (which fills the caches),
  the digest cache and the event listeners (which empty them) are put together: in every
  history of loads, events and restarts, a node that has not restarted since its last
  reconnection event holds every digest that a pipeline for it uses.
\<close>

section \<open>What the servers do\<close>

text \<open>
  \<open>has w srv\<close> are the digests of the scripts that \<open>srv\<close> holds. Handing out a client changes
  nothing; \<open>SCRIPT LOAD\<close> removes no script, and a successful one leaves the script on the
  server that is routed for the slot, by the digest that SHA-1 gives it; the routing table
  does not change during the call.
\<close>

definition script_server :: "'w fred \<Rightarrow> ('w \<Rightarrow> server \<Rightarrow> string set) \<Rightarrow> bool" where
  "script_server fr has \<longleftrightarrow>
     (\<forall>w. has (snd (fr_pick fr w)) = has w \<and>
          get_write_entry fr (snd (fr_pick fr w)) = get_write_entry fr w) \<and>
     (\<forall>w i sl x r w'.
        fr_client fr i (QCustom ''SCRIPT'' (Custom sl) [Str ''LOAD'', Str x]) w = (r, w') \<longrightarrow>
        get_write_entry fr w' = get_write_entry fr w \<and> (\<forall>srv. has w srv \<subseteq> has w' srv) \<and>
        (\<forall>v n. r = Inr v \<longrightarrow> get_write_entry fr w sl = Some n \<longrightarrow>
           fr_sha1 fr x \<in> has w' (get_client n)))"

lemma script_server_pick:
  "script_server fr has \<Longrightarrow> fr_pick fr w = (i, w') \<Longrightarrow>
   has w' = has w \<and> get_write_entry fr w' = get_write_entry fr w"
  unfolding script_server_def by (metis snd_conv)

lemma script_server_load:
  assumes "script_server fr has"
    and "fr_client fr i (QCustom ''SCRIPT'' (Custom sl) [Str ''LOAD'', Str x]) w = (r, w')"
  shows "get_write_entry fr w' = get_write_entry fr w" and "has w srv \<subseteq> has w' srv"
    and "r = Inr v \<Longrightarrow> get_write_entry fr w sl = Some n \<Longrightarrow> fr_sha1 fr x \<in> has w' (get_client n)"
  using assms unfolding script_server_def by blast+

lemma load_each_servers:
  assumes "script_server fr has" and "load_each fr i sl xs w = (r, w')"
  shows "get_write_entry fr w' = get_write_entry fr w \<and> (\<forall>srv. has w srv \<subseteq> has w' srv) \<and>
    (r = Inr () \<longrightarrow> (\<forall>n. get_write_entry fr w sl = Some n \<longrightarrow> fr_sha1 fr ` set xs \<subseteq> has w' (get_client n)))"
  using assms(2)
proof (induction xs arbitrary: w)
  case (Cons x xs)
  obtain q w1 where q: "fr_client fr i (QCustom ''SCRIPT'' (Custom sl) [Str ''LOAD'', Str x]) w = (q, w1)"
    by fastforce
  note one = script_server_load [OF assms(1) q]
  show ?case
  proof (cases q)
    case (Inl e)
    with Cons.prems q one(1,2) show ?thesis by auto
  next
    case (Inr v)
    with Cons.prems q have "load_each fr i sl xs w1 = (r, w')" by simp
    note rest = Cons.IH [OF this]
    have "fr_sha1 fr ` set (x # xs) \<subseteq> has w' (get_client n)"
      if "r = Inr ()" and n: "get_write_entry fr w sl = Some n" for n
    proof -
      have "fr_sha1 fr x \<in> has w1 (get_client n)" using one(3) Inr n by blast
      moreover have "get_write_entry fr w1 sl = Some n" using one(1) n by simp
      ultimately show ?thesis using rest that(1) by auto
    qed
    with rest one(1,2) show ?thesis by (metis subset_trans)
  qed
qed simp

section \<open>Coherent caches\<close>

text \<open>The nodes in \<open>stale\<close> restarted and the client has not been told.\<close>

definition coherent ::
  "'w fred \<Rightarrow> ('w \<Rightarrow> server \<Rightarrow> string set) \<Rightarrow> server set \<Rightarrow> 'w globals \<Rightarrow> bool" where
  "coherent fr has stale s \<longleftrightarrow>
     sha_cache_ok fr s \<and> (\<forall>srv. srv \<notin> stale \<longrightarrow> loaded_shas s srv \<subseteq> has (remote s) srv)"

text \<open>A node of a batch is routed: the slot it carries leads to it.\<close>

definition routed :: "'w fred \<Rightarrow> 'w \<Rightarrow> master_slave_entry \<Rightarrow> bool" where
  "routed fr w n \<longleftrightarrow>
     (\<exists>m. get_write_entry fr w (slot_or_0 (mse_slot n)) = Some m \<and> get_client m = get_client n)"

lemma use_digests_remote: "use_digests fr ds s = (ds', t) \<Longrightarrow> remote t = remote s"
proof (induction ds arbitrary: s ds' t)
  case (Cons d ds)
  show ?case
  proof (cases "script_of (bc_cmd d)")
    case None
    obtain ds1 u where u: "use_digests fr ds s = (ds1, u)" by fastforce
    with Cons.prems None have "t = u" by (cases "bc_cmd d") simp_all
    with Cons.IH [OF u] show ?thesis by simp
  next
    case (Some x)
    then obtain ks vs where x: "bc_cmd d = Eval x ks vs" by (cases "bc_cmd d") auto
    obtain v s1 where v: "calc_sha fr x s = (v, s1)" by fastforce
    obtain ds1 u where u: "use_digests fr ds s1 = (ds1, u)" by fastforce
    with Cons.prems x v have "t = u" by simp
    with Cons.IH [OF u] calc_sha_frame(3) [of fr x s] v show ?thesis by simp
  qed
qed simp

text \<open>Sending the missing scripts of a node, if any.\<close>

lemma load_missing_servers:
  assumes servers: "script_server fr has" and routed: "routed fr (remote s) n"
    and load: "(if todo = [] then (Inr (), s)
         else on_remote (pbind (pick (fr_pick fr)) (\<lambda>i. load_each fr i (slot_or_0 (mse_slot n)) todo)) s)
       = (q, t)"
  shows "get_write_entry fr (remote t) = get_write_entry fr (remote s)"
    and "has (remote s) srv \<subseteq> has (remote t) srv"
    and "q = Inr () \<Longrightarrow> fr_sha1 fr ` set todo \<subseteq> has (remote t) (get_client n)"
    and "sha_cache_ok fr t = sha_cache_ok fr s" and "loaded_shas t = loaded_shas s"
proof -
  show "sha_cache_ok fr t = sha_cache_ok fr s" and "loaded_shas t = loaded_shas s"
    using load by (auto simp: on_remote_apply sha_cache_ok_def loaded_shas_def fun_eq_iff split: if_splits)
  have "get_write_entry fr (remote t) = get_write_entry fr (remote s) \<and>
      (\<forall>srv. has (remote s) srv \<subseteq> has (remote t) srv) \<and>
      (q = Inr () \<longrightarrow> fr_sha1 fr ` set todo \<subseteq> has (remote t) (get_client n))"
  proof (cases "todo = []")
    case False
    obtain i w1 where p: "fr_pick fr (remote s) = (i, w1)" by fastforce
    obtain q' w2 where l: "load_each fr i (slot_or_0 (mse_slot n)) todo w1 = (q', w2)" by fastforce
    have "q = q'" "remote t = w2"
      using load False p l by (auto simp: on_remote_apply pbind_apply pick_def)
    moreover obtain m where "get_write_entry fr (remote s) (slot_or_0 (mse_slot n)) = Some m"
      and "get_client m = get_client n"
      using routed by (auto simp: routed_def)
    moreover note script_server_pick [OF servers p]
    ultimately show ?thesis using load_each_servers [OF servers l] by fastforce
  qed (use load in auto)
  then show "get_write_entry fr (remote t) = get_write_entry fr (remote s)"
    and "has (remote s) srv \<subseteq> has (remote t) srv"
    and "q = Inr () \<Longrightarrow> fr_sha1 fr ` set todo \<subseteq> has (remote t) (get_client n)" by blast+
qed

lemma load_node_coherent:
  assumes servers: "script_server fr has" and coh: "coherent fr has stale s"
    and routed: "routed fr (remote s) n" and load: "load_node fr n e s = (r, t)"
  shows "coherent fr has stale t \<and> get_write_entry fr (remote t) = get_write_entry fr (remote s)"
proof -
  let ?srv = "get_client n"
  have ok: "sha_cache_ok fr s" using coh by (simp add: coherent_def)
  obtain todo s1 where todo: "scripts_to_load fr ?srv (be_commands e) [] s = (todo, s1)" by fastforce
  note sc = scripts_to_load_eq [OF ok distinct.simps(1) [THEN iffD2, OF TrueI] todo]
  have s1: "sha_cache_ok fr s1" "loaded_shas s1 = loaded_shas s" "remote s1 = remote s" using sc by blast+
  obtain q s2 where q: "(if todo = [] then (Inr (), s1)
      else on_remote (pbind (pick (fr_pick fr)) (\<lambda>i. load_each fr i (slot_or_0 (mse_slot n)) todo)) s1)
      = (q, s2)" by fastforce
  note s2 = load_missing_servers [OF servers routed [folded s1(3)] q]
  have same: "coherent fr has stale s2"
    using coh s1 s2(2,4,5) by (auto simp: coherent_def)
  show ?thesis
  proof (cases q)
    case (Inl er)
    with load todo q have "t = s2" by (simp add: load_node_def)
    with same s2(1) s1(3) show ?thesis by simp
  next
    case (Inr u)
    let ?s3 = "if todo = [] then s2 else cache_scripts fr ?srv todo s2"
    obtain ds s4 where ds: "use_digests fr (be_commands e) ?s3 = (ds, s4)" by fastforce
    have t: "t = s4" using load todo q Inr ds by (simp add: load_node_def)
    have ok2: "sha_cache_ok fr s2" using s1 s2(4) by simp
    have s3: "sha_cache_ok fr ?s3" "remote ?s3 = remote s2"
      "loaded_shas ?s3 = (loaded_shas s2)(?srv := loaded_shas s2 ?srv \<union> fr_sha1 fr ` set todo)"
      using cache_scripts_props(1-3) [OF ok2, of ?srv todo] ok2
      by (cases "todo = []", simp_all add: fun_upd_idem)+
    have s4: "sha_cache_ok fr s4" "loaded_shas s4 = loaded_shas ?s3" "remote s4 = remote ?s3"
      using use_digests_eq [OF s3(1) ds] use_digests_remote [OF ds] by blast+
    have "coherent fr has stale s4"
      using same s3 s4 s2(3) Inr by (auto simp: coherent_def)
    with t s3(2) s4(3) s2(1) s1(3) show ?thesis by simp
  qed
qed

lemma load_nodes_coherent:
  assumes "script_server fr has" and "coherent fr has stale s"
    and "\<forall>(n, e) \<in> set nm. routed fr (remote s) n" and "load_nodes fr nm s = (r, t)"
  shows "coherent fr has stale t"
  using assms(2-4)
proof (induction nm arbitrary: s r)
  case (Cons ne nm)
  obtain n e where ne: "ne = (n, e)" by (cases ne)
  obtain q s1 where q: "load_node fr n e s = (q, s1)" by fastforce
  have "routed fr (remote s) n" using Cons.prems(2) ne by simp
  note one = load_node_coherent [OF assms(1) Cons.prems(1) this q]
  show ?case
  proof (cases q)
    case (Inl er)
    with Cons.prems(3) q ne one show ?thesis by (simp add: pbind_apply)
  next
    case (Inr e')
    obtain r1 where rest: "load_nodes fr nm s1 = (r1, t)"
      using Cons.prems(3) q ne Inr by (cases "load_nodes fr nm s1"; cases "fst (load_nodes fr nm s1)")
        (simp_all add: pbind_apply)
    have "\<forall>(n, e) \<in> set nm. routed fr (remote s1) n"
      using Cons.prems(2) one by (auto simp: routed_def)
    with Cons.IH [OF _ _ rest] one show ?thesis by blast
  qed
qed simp

lemma load_scripts_coherent:
  assumes "script_server fr has" and "coherent fr has stale s"
    and "\<forall>(n, e) \<in> set nm. routed fr (remote s) n" and "load_scripts fr cfg nm s = (r, t)"
  shows "coherent fr has stale t"
  using assms load_nodes_coherent [OF assms(1-3)]
  by (simp add: load_scripts_def split: if_splits)

section \<open>Histories\<close>

text \<open>
  What can happen between a client and its servers as far as scripts go: the scripts of a
  batch are loaded (with any outcome), a digest is taken, other traffic runs that removes no
  script, a server restarts and loses its scripts, and the listeners that a start installs
  hear an event of the client library.
\<close>

inductive script_history ::
  "'w fred \<Rightarrow> ('w \<Rightarrow> server \<Rightarrow> string set) \<Rightarrow> redisson_config \<Rightarrow> server set \<Rightarrow> 'w globals \<Rightarrow> bool"
  for fr has cfg where
  history_start: "script_history fr has cfg {} (initial_globals w)"
| history_load:
    "script_history fr has cfg stale s \<Longrightarrow> \<forall>(n, e) \<in> set nm. routed fr (remote s) n \<Longrightarrow>
     load_scripts fr cfg nm s = (r, t) \<Longrightarrow> script_history fr has cfg stale t"
| history_digest:
    "script_history fr has cfg stale s \<Longrightarrow> calc_sha fr x s = (sha, t) \<Longrightarrow>
     script_history fr has cfg stale t"
| history_traffic:
    "script_history fr has cfg stale s \<Longrightarrow> \<forall>srv. has (remote s) srv \<subseteq> has w srv \<Longrightarrow>
     script_history fr has cfg stale (s\<lparr>remote := w\<rparr>)"
| history_restart:
    "script_history fr has cfg stale s \<Longrightarrow> \<forall>srv'. srv' \<noteq> srv \<longrightarrow> has (remote s) srv' \<subseteq> has w srv' \<Longrightarrow>
     script_history fr has cfg (insert srv stale) (s\<lparr>remote := w\<rparr>)"
| history_reconnected:
    "script_history fr has cfg stale s \<Longrightarrow>
     script_history fr has cfg (stale - {srv})
       (handle_event [ClusterChangeHook, ReconnectHook] (Reconnected srv) s)"
| history_changed:
    "script_history fr has cfg stale s \<Longrightarrow>
     script_history fr has cfg {} (handle_event [ClusterChangeHook, ReconnectHook] ClusterChanged s)"

lemma script_history_coherent:
  assumes "script_server fr has" and "script_history fr has cfg stale s"
  shows "coherent fr has stale s"
  using assms(2)
proof induction
  case (history_start w)
  show ?case
    by (auto simp: coherent_def initial_globals_def loaded_shas_def sha_cache_ok_def)
next
  case (history_load stale s nm r t)
  then show ?case using load_scripts_coherent [OF assms(1)] by blast
next
  case (history_digest stale s x sha t)
  then have "sha_cache_ok fr s" by (simp add: coherent_def)
  from calc_sha_eq [OF this history_digest.hyps(2)] history_digest.IH
  show ?case by (simp add: coherent_def)
next
  case (history_traffic stale s w)
  then show ?case by (auto simp: coherent_def sha_cache_ok_def loaded_shas_def) blast
next
  case (history_restart stale s srv w)
  then show ?case by (auto simp: coherent_def sha_cache_ok_def loaded_shas_def) blast
next
  case (history_reconnected stale s srv)
  then show ?case
    by (auto simp: coherent_def handle_event_def on_reconnect_def sha_cache_ok_def loaded_shas_def)
next
  case (history_changed stale s)
  then show ?case
    by (auto simp: coherent_def handle_event_def clear_all_slave_info_def
        clear_all_script_caches_def sha_cache_ok_def loaded_shas_def)
qed

section \<open>Digests that servers know\<close>

lemma load_scripts_spec_nodes:
  assumes "cf_use_script_cache cfg" and "sha_cache_ok fr s" and "load_scripts fr cfg nm s = (Inr nm', t)"
    and "(n, e) \<in> set nm"
  shows "fr_sha1 fr ` set (eval_scripts (be_commands e)) \<subseteq> loaded_shas t (get_client n)"
proof -
  have "load_nodes fr nm s = (Inr nm', t)" using assms(1,3) by (simp add: load_scripts_def)
  from load_nodes_spec [OF assms(2) this]
  have "\<forall>(n, e) \<in> set nm. fr_sha1 fr ` set (eval_scripts (be_commands e)) \<subseteq> loaded_shas t (get_client n)"
    by (elim conjE)
  from bspec [OF this assms(4)] show ?thesis by (simp only: prod.case)
qed

text \<open>The nodes that grouping makes are routed.\<close>

lemma node_insert_nodes: "fst ` set (node_insert n d nm) \<subseteq> insert n (fst ` set nm)"
  by (induction n d nm rule: node_insert.induct) auto

lemma write_entry_routed: "get_write_entry fr w sl = Some n \<Longrightarrow> routed fr w n"
  by (auto simp: routed_def get_write_entry_def from_slot_def slot_or_0_def split: option.splits)

lemma group_routed:
  assumes "\<forall>d \<in> set ds. get_write_entry fr w (slot_of fr (bc_cmd d)) \<noteq> None"
    and "group_by_node fr retries dl ds nm w = (Inr nm', w')"
    and "\<forall>n \<in> fst ` set nm. routed fr w n"
  shows "w' = w \<and> (\<forall>n \<in> fst ` set nm'. routed fr w n)"
  using assms
proof (induction ds arbitrary: nm)
  case (Cons d ds)
  obtain n where n: "get_write_entry fr w (slot_of fr (bc_cmd d)) = Some n" using Cons.prems(1) by auto
  then have rest: "group_by_node fr retries dl ds (node_insert n d nm) w = (Inr nm', w')"
    using Cons.prems(2) resolve_entry_known [OF n] by simp
  have nodes: "\<forall>m \<in> fst ` set (node_insert n d nm). routed fr w m"
    using node_insert_nodes [of n d nm] Cons.prems(3) write_entry_routed [OF n] by blast
  have "\<forall>d \<in> set ds. get_write_entry fr w (slot_of fr (bc_cmd d)) \<noteq> None" using Cons.prems(1) by simp
  from Cons.IH [OF this rest nodes] show ?case .
qed simp

text \<open>
  C23: In every history of loads, digests, other traffic, restarts and events since the start of
  a client: when the commands of a batch, whose slots the routing table knows, were grouped
  by node and their scripts loaded, every node that has not restarted since its last
  reconnection event holds every script of its pipeline under the digest that the pipeline
  uses, also the scripts that were not sent because the caches named them. (The routing table
  is taken not to change while scripts are being loaded.)
\<close>

theorem digests_known_to_servers:
  assumes "script_server fr has" and "script_history fr has cfg stale s"
    and "cf_use_script_cache cfg"
    and "\<forall>d \<in> set ds. get_write_entry fr (remote s) (slot_of fr (bc_cmd d)) \<noteq> None"
    and "group_by_node fr retries dl ds [] (remote s) = (Inr nm, w)"
    and "load_scripts fr cfg nm (s\<lparr>remote := w\<rparr>) = (Inr nm', t)"
    and "(n, e) \<in> set nm" and "get_client n \<notin> stale"
  shows "fr_sha1 fr ` set (eval_scripts (be_commands e)) \<subseteq> has (remote t) (get_client n)"
proof -
  have w: "w = remote s" and nodes: "\<forall>n \<in> fst ` set nm. routed fr (remote s) n"
    using group_routed [OF assms(4,5)] by simp_all
  have load: "load_scripts fr cfg nm s = (Inr nm', t)" using assms(6) w by simp
  have "script_history fr has cfg stale t"
    by (rule history_load [OF assms(2) _ load]) (use nodes in auto)
  then have "loaded_shas t (get_client n) \<subseteq> has (remote t) (get_client n)"
    using script_history_coherent [OF assms(1)] assms(8) by (auto simp: coherent_def)
  moreover have "sha_cache_ok fr s"
    using script_history_coherent [OF assms(1,2)] by (simp add: coherent_def)
  then have "fr_sha1 fr ` set (eval_scripts (be_commands e)) \<subseteq> loaded_shas t (get_client n)"
    using load_scripts_spec_nodes [OF assms(3) _ load assms(7)] by blast
  ultimately show ?thesis by blast
qed

end
