(* ===== verification/ScriptTransparency.thy ===== *)
theory ScriptTransparency
  imports ScriptCoherence
begin

text \<open>
  What the script cache changes for the callers of a batch: nothing. With the cache in use a
  batch loads its scripts and sends digests, without it the pipelines hold the script texts.
  The two runs are related through what a client can observe of the servers, a function
  \<open>data\<close> of the remote state that loading a script and picking a connection do not change.
\<close>

section \<open>Digests in place of scripts\<close>

fun digest_request :: "'w fred \<Rightarrow> request \<Rightarrow> request" where
  "digest_request fr (QCustom name h (Str x # vs)) =
     (if name = ''EVAL'' then QCustom ''EVALSHA'' h (Str (fr_sha1 fr x) # vs)
      else QCustom name h (Str x # vs))"
| "digest_request fr q = q"

text \<open>The script texts in a list of requests.\<close>

definition script_texts :: "request list \<Rightarrow> string set" where
  "script_texts qs = {x. \<exists>h vs. QCustom ''EVAL'' h (Str x # vs) \<in> set qs}"

lemma pipeline_request_digest:
  "pipeline_request (digest_command fr c) = digest_request fr (pipeline_request c)"
  by (cases c) (simp_all add: pipeline_request_def script_args_def)

lemma digest_wait_request [simp]: "digest_request fr (wait_request opts slot) = wait_request opts slot"
  by (simp add: wait_request_def make_wait_cmd_def)

lemma pipeline_requests_digest:
  "pipeline_requests opts atomic slot (map (digest_command fr) cs) =
     map (digest_request fr) (pipeline_requests opts atomic slot cs)"
  by (simp add: pipeline_requests_def pipeline_request_digest)

lemma pipeline_request_script:
  "pipeline_request c = QCustom ''EVAL'' h (Str x # vs) \<Longrightarrow> script_of c = Some x"
  by (cases c) (simp_all add: pipeline_request_def script_args_def)

lemma script_texts_pipeline:
  "script_texts (pipeline_requests opts atomic slot (map bc_cmd ds)) \<subseteq> set (eval_scripts ds)"
proof
  fix x assume "x \<in> script_texts (pipeline_requests opts atomic slot (map bc_cmd ds))"
  then obtain h vs where "QCustom ''EVAL'' h (Str x # vs) \<in> set (pipeline_requests opts atomic slot (map bc_cmd ds))"
    by (auto simp: script_texts_def)
  then obtain d where "d \<in> set ds" and "pipeline_request (bc_cmd d) = QCustom ''EVAL'' h (Str x # vs)"
    by (auto simp: pipeline_requests_def wait_request_def make_wait_cmd_def split: if_splits)
  then show "x \<in> set (eval_scripts ds)"
    using pipeline_request_script by (force simp: eval_scripts_def List.map_filter_def)
qed

text \<open>The commands that name a digest themselves: what they answer depends on the loaded scripts.\<close>

fun names_digest :: "command \<Rightarrow> bool" where
  "names_digest (EvalSha sha ks vs) = True"
| "names_digest (EvalShaRo sha ks vs) = True"
| "names_digest c = False"

definition digest_free :: "request list \<Rightarrow> bool" where
  "digest_free qs \<longleftrightarrow> (\<forall>h vs. QCustom ''EVALSHA'' h vs \<notin> set qs)"

lemma pipeline_request_names_digest:
  "pipeline_request c = QCustom ''EVALSHA'' h vs \<Longrightarrow> names_digest c"
  by (cases c) (simp_all add: pipeline_request_def script_args_def)

lemma digest_free_pipeline:
  "\<forall>c \<in> set cs. \<not> names_digest c \<Longrightarrow> digest_free (pipeline_requests opts atomic slot cs)"
  by (auto simp: digest_free_def pipeline_requests_def wait_request_def make_wait_cmd_def
      dest!: pipeline_request_names_digest [OF sym] split: if_splits)

lemma read_only_no_script: "is_read_only c \<Longrightarrow> script_of c = None"
  by (cases c) simp_all

section \<open>Servers that answer a digest as its script\<close>

text \<open>
  Picking a connection and \<open>SCRIPT LOAD\<close> change no data. With the same data a server answers
  a pipeline of digests that it holds as it answers the pipeline of the scripts, and the
  pipelines do the same to the data. A pipeline for a replica holds no script, and of one
  that names digests to begin with nothing is assumed.
\<close>

definition transparent_server ::
  "'w fred \<Rightarrow> ('w \<Rightarrow> server \<Rightarrow> string set) \<Rightarrow> ('w \<Rightarrow> 'd) \<Rightarrow> 'w schedule \<Rightarrow> bool" where
  "transparent_server fr has data sch \<longleftrightarrow>
     (\<forall>w. data (snd (fr_pick fr w)) = data w) \<and>
     (\<forall>w i sl x. data (snd (fr_client fr i (QCustom ''SCRIPT'' (Custom sl) [Str ''LOAD'', Str x]) w)) = data w) \<and>
     (\<forall>w w' n b qs. data w = data w' \<longrightarrow> digest_free qs \<longrightarrow> (b \<longrightarrow> script_texts qs = {}) \<longrightarrow>
        fr_sha1 fr ` script_texts qs \<subseteq> has w (get_client n) \<longrightarrow>
        sc_replies sch w n b (map (digest_request fr) qs) = sc_replies sch w' n b qs) \<and>
     (\<forall>w w'. data w = data w' \<longrightarrow> data (sc_effect sch w) = data (sc_effect sch w'))"

lemma transparent_replies:
  "transparent_server fr has data sch \<Longrightarrow> data w = data w' \<Longrightarrow> digest_free qs \<Longrightarrow> (b \<Longrightarrow> script_texts qs = {}) \<Longrightarrow>
   fr_sha1 fr ` script_texts qs \<subseteq> has w (get_client n) \<Longrightarrow>
   sc_replies sch w n b (map (digest_request fr) qs) = sc_replies sch w' n b qs"
  unfolding transparent_server_def by blast

lemma load_each_data:
  assumes "transparent_server fr has data sch"
  shows "data (snd (load_each fr i sl xs w)) = data w"
proof (induction xs arbitrary: w)
  case (Cons x xs)
  obtain r w1 where r: "fr_client fr i (QCustom ''SCRIPT'' (Custom sl) [Str ''LOAD'', Str x]) w = (r, w1)"
    by fastforce
  have "data (snd (fr_client fr i (QCustom ''SCRIPT'' (Custom sl) [Str ''LOAD'', Str x]) w)) = data w"
    using assms unfolding transparent_server_def by blast
  with r Cons.IH [of w1] show ?case by (cases r) simp_all
qed simp

lemma scripts_to_load_remote:
  "scripts_to_load fr srv ds acc s = (todo, t) \<Longrightarrow> remote t = remote s"
proof (induction ds arbitrary: acc s)
  case (Cons d ds)
  show ?case
  proof (cases "script_of (bc_cmd d)")
    case None
    with Cons.prems have "scripts_to_load fr srv ds acc s = (todo, t)" by (cases "bc_cmd d") simp_all
    then show ?thesis by (rule Cons.IH)
  next
    case (Some x)
    then obtain ks vs where x: "bc_cmd d = Eval x ks vs" by (cases "bc_cmd d") auto
    obtain b u where b: "is_cached fr srv x s = (b, u)" by fastforce
    then have "u = snd (calc_sha fr x s)" by (simp add: is_cached_def split_beta)
    then have "remote u = remote s" by simp
    with Cons.prems x b Cons.IH show ?thesis by auto
  qed
qed simp

lemma cache_scripts_remote [simp]: "remote (cache_scripts fr srv xs s) = remote s"
  using calc_shas_frame by (fastforce simp: cache_scripts_def split: prod.split)

lemma load_node_data:
  assumes "transparent_server fr has data sch" and "load_node fr n e s = (r, t)"
  shows "data (remote t) = data (remote s)"
proof -
  obtain todo s1 where todo: "scripts_to_load fr (get_client n) (be_commands e) [] s = (todo, s1)"
    by fastforce
  obtain q s2 where q: "(if todo = [] then (Inr (), s1)
      else on_remote (pbind (pick (fr_pick fr)) (\<lambda>i. load_each fr i (slot_or_0 (mse_slot n)) todo)) s1)
      = (q, s2)" by fastforce
  obtain i w where p: "fr_pick fr (remote s1) = (i, w)" by fastforce
  then have "data w = data (remote s1)" using assms(1) unfolding transparent_server_def by (metis snd_conv)
  then have s2: "data (remote s2) = data (remote s)"
    using q p scripts_to_load_remote [OF todo] load_each_data [OF assms(1), of i "slot_or_0 (mse_slot n)" todo w]
    by (auto simp: on_remote_apply pbind_apply pick_def split: if_splits)
  show ?thesis
  proof (cases q)
    case (Inl er)
    with assms(2) todo q s2 show ?thesis by (simp add: load_node_def)
  next
    case (Inr u)
    obtain ds s4 where ds: "use_digests fr (be_commands e)
        (if todo = [] then s2 else cache_scripts fr (get_client n) todo s2) = (ds, s4)" by fastforce
    then have "t = s4" using assms(2) todo q Inr by (simp add: load_node_def)
    with use_digests_remote [OF ds] s2 show ?thesis by (simp split: if_splits)
  qed
qed

lemma load_nodes_data:
  assumes "transparent_server fr has data sch"
  shows "preserves (\<lambda>s t. data (remote t) = data (remote s)) (load_nodes fr nm)"
proof (induction nm)
  case Nil
  show ?case unfolding load_nodes.simps by (rule preserves_pret) (simp add: reflp_def)
next
  case (Cons ne nm)
  obtain n e where ne: "ne = (n, e)" by (cases ne)
  have "preserves (\<lambda>s t. data (remote t) = data (remote s)) (load_node fr n e)"
    by (rule preservesI) (metis load_node_data [OF assms] prod.collapse)
  then show ?case unfolding ne load_nodes.simps
    by (intro preserves_pbind preserves_pret Cons.IH) (simp_all add: transp_def reflp_def)
qed

text \<open>Loading fails only with the error of a failed \<open>SCRIPT LOAD\<close>.\<close>

lemma load_each_error: "load_each fr i sl xs w = (Inl e, w') \<Longrightarrow> \<exists>m. e = Msg (''SCRIPT LOAD failed: '' @ m)"
proof (induction xs arbitrary: w)
  case (Cons x xs)
  obtain r w1 where r: "fr_client fr i (QCustom ''SCRIPT'' (Custom sl) [Str ''LOAD'', Str x]) w = (r, w1)"
    by fastforce
  with Cons show ?case by (cases r) auto
qed simp

lemma load_node_error:
  assumes "load_node fr n e s = (Inl er, t)"
  shows "\<exists>m. er = Msg (''SCRIPT LOAD failed: '' @ m)"
proof -
  obtain todo s1 where todo: "scripts_to_load fr (get_client n) (be_commands e) [] s = (todo, s1)"
    by fastforce
  obtain i w where p: "fr_pick fr (remote s1) = (i, w)" by fastforce
  obtain q w' where l: "load_each fr i (slot_or_0 (mse_slot n)) todo w = (q, w')" by fastforce
  have missing: "on_remote (pbind (pick (fr_pick fr)) (\<lambda>i. load_each fr i (slot_or_0 (mse_slot n)) todo)) s1
      = (q, s1\<lparr>remote := w'\<rparr>)"
    by (simp add: on_remote_apply pbind_apply pick_def p l)
  obtain ds t' where ds: "use_digests fr (be_commands e)
      (if todo = [] then s1 else cache_scripts fr (get_client n) todo (s1\<lparr>remote := w'\<rparr>)) = (ds, t')"
    by fastforce
  have "todo \<noteq> []" using assms todo ds by (auto simp: load_node_def)
  with assms todo missing ds have "q = Inl er" by (cases q) (simp_all add: load_node_def)
  with l have "load_each fr i (slot_or_0 (mse_slot n)) todo w = (Inl er, w')" by simp
  then show ?thesis by (rule load_each_error)
qed

lemma load_nodes_error: "load_nodes fr nm s = (Inl e, t) \<Longrightarrow> \<exists>m. e = Msg (''SCRIPT LOAD failed: '' @ m)"
proof (induction nm arbitrary: s t)
  case (Cons ne nm)
  obtain n b where ne: "ne = (n, b)" by (cases ne)
  obtain q s1 where q: "load_node fr n b s = (q, s1)" by fastforce
  show ?case
  proof (cases q)
    case (Inl er)
    with Cons.prems q ne load_node_error show ?thesis by (auto simp: pbind_apply)
  next
    case (Inr b')
    with Cons.prems q ne have "load_nodes fr nm s1 = (Inl e, t)"
      by (cases "load_nodes fr nm s1"; cases "fst (load_nodes fr nm s1)") (simp_all add: pbind_apply)
    then show ?thesis by (rule Cons.IH)
  qed
qed simp

section \<open>Runs with and without the cache\<close>

lemma handle_replies_digests [simp]:
  "handle_replies fr opts atomic (map (use_digest fr) ds) = handle_replies fr opts atomic ds"
  by (simp add: handle_replies_def use_digest_def comp_def fun_eq_iff)

text \<open>What the tasks rely on: the scripts of the node are held, and replicas get none.\<close>

definition loaded_node ::
  "'w fred \<Rightarrow> (server \<Rightarrow> string set) \<Rightarrow> master_slave_entry \<Rightarrow> batch_entry \<Rightarrow> bool" where
  "loaded_node fr held n e \<longleftrightarrow>
     fr_sha1 fr ` set (eval_scripts (be_commands e)) \<subseteq> held (get_client n) \<and>
     (be_read_only e \<longrightarrow> (\<forall>d \<in> set (be_commands e). is_read_only (bc_cmd d))) \<and>
     (\<forall>d \<in> set (be_commands e). \<not> names_digest (bc_cmd d))"

text \<open>The same task for the scripts of a node and for their digests.\<close>

lemma node_task_digests:
  assumes server: "transparent_server fr has data sch" and "accepts_all fr"
    and "data w = data w'"
    and "loaded_node fr (has w) n e"
  shows "node_task fr cfg opts atomic (sc_replies sch w)
      (n, e\<lparr>be_commands := map (use_digest fr) (be_commands e)\<rparr>) =
    node_task fr (cfg\<lparr>cf_use_script_cache := False\<rparr>) opts atomic (sc_replies sch w') (n, e)"
proof -
  let ?qs = "pipeline_requests opts atomic (slot_or_0 (mse_slot n)) (map bc_cmd (be_commands e))"
  have cmds: "map bc_cmd (map (use_digest fr) (be_commands e)) =
      map (digest_command fr) (map bc_cmd (be_commands e))"
    by (simp add: use_digest_def)
  have texts: "script_texts ?qs \<subseteq> set (eval_scripts (be_commands e))" by (rule script_texts_pipeline)
  have "eval_scripts (be_commands e) = []" if "use_replica cfg atomic e"
    using that assms(4) read_only_no_script
    by (auto simp: loaded_node_def use_replica_def eval_scripts_def List.map_filter_def filter_empty_conv)
  then have "script_texts ?qs = {}" if "use_replica cfg atomic e" using texts that by simp
  moreover have "fr_sha1 fr ` script_texts ?qs \<subseteq> has w (get_client n)" using texts assms(4) unfolding loaded_node_def by blast
  moreover have "digest_free ?qs" using assms(4) by (intro digest_free_pipeline) (auto simp: loaded_node_def)
  ultimately have "sc_replies sch w n (use_replica cfg atomic e) (map (digest_request fr) ?qs) =
      sc_replies sch w' n (use_replica cfg atomic e) ?qs"
    using transparent_replies [OF server assms(3)] by blast
  moreover have "use_replica cfg atomic (e\<lparr>be_commands := ds\<rparr>) = use_replica cfg atomic e"
    "use_replica (cfg\<lparr>cf_use_script_cache := False\<rparr>) atomic e = use_replica cfg atomic e" for ds
    by (simp_all add: use_replica_def)
  ultimately show ?thesis
    using assms(2)
    by (simp add: node_task_def build_pipeline_requests pipeline_requests_digest cmds del: map_map)
qed

lemma run_tasks_digests:
  assumes "transparent_server fr has data sch" and "accepts_all fr" and "data w = data w'"
    and "\<forall>(n, e) \<in> set nm. loaded_node fr (has w) n e"
  shows "run_tasks fr cfg opts sch atomic w
      (map (\<lambda>(n, e). (n, e\<lparr>be_commands := map (use_digest fr) (be_commands e)\<rparr>)) nm) =
    run_tasks fr (cfg\<lparr>cf_use_script_cache := False\<rparr>) opts sch atomic w' nm"
proof -
  have "node_task fr cfg opts atomic (sc_replies sch w)
      (n, e\<lparr>be_commands := map (use_digest fr) (be_commands e)\<rparr>) =
    node_task fr (cfg\<lparr>cf_use_script_cache := False\<rparr>) opts atomic (sc_replies sch w') (n, e)"
    if "(n, e) \<in> set nm" for n e
    by (rule node_task_digests [OF assms(1-3)]) (use bspec [OF assms(4) that] in simp_all)
  then have "map (\<lambda>ne. (fst ne, node_task fr cfg opts atomic (sc_replies sch w) ne))
      (map (\<lambda>(n, e). (n, e\<lparr>be_commands := map (use_digest fr) (be_commands e)\<rparr>)) nm) =
    map (\<lambda>ne. (fst ne, node_task fr (cfg\<lparr>cf_use_script_cache := False\<rparr>) opts atomic (sc_replies sch w') ne)) nm"
    by auto
  then show ?thesis by (simp only: run_tasks_def)
qed

text \<open>Grouping and loading, as far as the tasks depend on them.\<close>

lemma loaded_digests:
  assumes servers: "script_server fr has" and hist: "script_history fr has cfg stale s"
    and cache: "cf_use_script_cache cfg"
    and nm: "grouped fr (remote s) ds nm" "\<forall>n \<in> fst ` set nm. routed fr (remote s) n"
    and live: "\<forall>d \<in> set ds. \<exists>e. get_write_entry fr (remote s) (slot_of fr (bc_cmd d)) = Some e \<and>
      get_client e \<notin> stale"
    and plain: "\<forall>d \<in> set ds. \<not> names_digest (bc_cmd d)"
    and perm: "mset nm1 = mset nm"
    and load: "load_scripts fr cfg nm1 s = (Inr nm', t)"
  shows "nm' = map (\<lambda>(n, e). (n, e\<lparr>be_commands := map (use_digest fr) (be_commands e)\<rparr>)) nm1"
    and "\<forall>(n, e) \<in> set nm1. loaded_node fr (has (remote t)) n e"
proof -
  have ok: "sha_cache_ok fr s"
    using script_history_coherent [OF servers hist] by (simp add: coherent_def)
  have loads: "load_nodes fr nm1 s = (Inr nm', t)" using load cache by (simp add: load_scripts_def)
  note spec = load_nodes_spec [OF ok loads]
  show "nm' = map (\<lambda>(n, e). (n, e\<lparr>be_commands := map (use_digest fr) (be_commands e)\<rparr>)) nm1"
    using spec by (elim conjE)
  have set: "set nm1 = set nm" by (rule mset_eq_setD [OF perm])
  have "script_history fr has cfg stale t"
    by (rule history_load [OF hist _ load]) (use nm(2) set in auto)
  from script_history_coherent [OF servers this]
  have coh: "srv \<notin> stale \<Longrightarrow> loaded_shas t srv \<subseteq> has (remote t) srv" for srv
    by (simp add: coherent_def)
  show "\<forall>(n, e) \<in> set nm1. loaded_node fr (has (remote t)) n e"
  proof (intro ballI, clarify, unfold loaded_node_def, intro conjI)
    fix n e assume ne: "(n, e) \<in> set nm1"
    then have "Some (primary n) \<in> command_primary fr (remote s) ` set ds"
      using nm(1) set by (force simp: grouped_def)
    then have "get_client n \<notin> stale"
      using live by (auto simp: command_primary_def get_client_def)
    with coh load_scripts_spec_nodes [OF cache ok load ne]
    show "fr_sha1 fr ` set (eval_scripts (be_commands e)) \<subseteq> has (remote t) (get_client n)" by blast
    show "be_read_only e \<longrightarrow> (\<forall>d \<in> set (be_commands e). is_read_only (bc_cmd d))"
      using nm(1) ne set by (auto simp: grouped_def)
    show "\<forall>d \<in> set (be_commands e). \<not> names_digest (bc_cmd d)"
      using nm(1) ne set plain by (fastforce simp: grouped_def)
  qed
qed

lemma execute_in_memory_digests:
  assumes servers: "script_server fr has" and hist: "script_history fr has cfg stale s"
    and server: "transparent_server fr has data sch"
    and client: "accepts_all fr" "sched_ok sch" "cf_use_script_cache cfg"
    and queue: "bs_state sv = BInMemory ds"
    and live: "\<forall>d \<in> set ds. \<exists>e. get_write_entry fr (remote s) (slot_of fr (bc_cmd d)) = Some e \<and>
      get_client e \<notin> stale"
    and plain: "\<forall>d \<in> set ds. \<not> names_digest (bc_cmd d)"
    and exec: "execute_in_memory fr cfg sch atomic (sv, s) = (r, sv', s')"
    and loads: "\<forall>m. r \<noteq> Inl (Msg (''SCRIPT LOAD failed: '' @ m))"
  shows "\<exists>s''. execute_in_memory fr (cfg\<lparr>cf_use_script_cache := False\<rparr>) sch atomic (sv, s) = (r, sv', s'') \<and>
    data (remote s'') = data (remote s')"
proof (cases "ds = []")
  case True
  with exec queue show ?thesis by (auto simp: execute_in_memory_def)
next
  case False
  let ?group = "group_by_node fr (bs_retry_attempts sv) (bs_retry_delay sv) ds []"
  have known: "\<forall>d \<in> set ds. get_write_entry fr (remote s) (slot_of fr (bc_cmd d)) \<noteq> None"
    using live by fastforce
  have "grouped fr (remote s) [] []" by (simp add: grouped_def)
  from group_grouped [OF this, of ds] known obtain nm where
    nm: "?group (remote s) = (Inr nm, remote s)" "grouped fr (remote s) ds nm"
    unfolding append_Nil command_primary_def by blast
  have routed: "\<forall>n \<in> fst ` set nm. routed fr (remote s) n" using group_routed [OF known nm(1)] by simp
  have perm: "mset (sc_shuffle sch nm) = mset nm" using client(2) by (simp add: sched_ok_def)
  obtain l t where l: "load_scripts fr cfg (sc_shuffle sch nm) s = (l, t)" by fastforce
  have s: "s\<lparr>remote := remote s\<rparr> = s" by simp
  show ?thesis
  proof (cases l)
    case (Inl e)
    with l client(3) have "load_nodes fr (sc_shuffle sch nm) s = (Inl e, t)"
      by (simp add: load_scripts_def)
    from load_nodes_error [OF this] exec loads queue False nm(1) l Inl show ?thesis
      by (auto simp: execute_in_memory_def on_remote_apply Let_def)
  next
    case (Inr nm')
    note digests = loaded_digests [OF servers hist client(3) nm(2) routed live plain perm l [unfolded Inr]]
    have "load_nodes fr (sc_shuffle sch nm) s = (Inr nm', t)"
      using l Inr client(3) by (simp add: load_scripts_def)
    then have data: "data (remote t) = data (remote s)"
      using preservesD [OF load_nodes_data [OF server]] by blast
    have same: "run_tasks fr cfg (bs_options sv) sch atomic (remote t) nm' =
        run_tasks fr (cfg\<lparr>cf_use_script_cache := False\<rparr>) (bs_options sv) sch atomic (remote s) (sc_shuffle sch nm)"
      unfolding digests(1) by (rule run_tasks_digests [OF server client(1) data digests(2)])
    have "data (sc_effect sch (remote s)) = data (sc_effect sch (remote t))"
      using server data unfolding transparent_server_def by metis
    then show ?thesis
      using exec queue False nm(1) l Inr same
      by (auto simp: execute_in_memory_def on_remote_apply Let_def load_scripts_def
          split: prod.splits sum.splits)
  qed
qed

text \<open>
  C6: The script cache does not show. Take a client after any history of loads, traffic, restarts
  and events, and an in-memory batch that names no digest itself and whose slots are routed to
  nodes that have not restarted since their last reconnection event, on servers that answer a
  digest they hold as they answer its script. Unless a script cannot be loaded, the batch ends with the cache as it
  ends without it: the same result, the same answer to every caller, and the same data on
  the servers.
\<close>

theorem script_cache_transparent:
  assumes "script_server fr has" and "script_history fr has cfg stale s"
    and "transparent_server fr has data sch"
    and "accepts_all fr" and "sched_ok sch" and "cf_use_script_cache cfg"
    and "\<not> is_redis_based_queue (bs_options sv)" and "bs_state sv = BInMemory ds"
    and "\<forall>d \<in> set ds. \<exists>e. get_write_entry fr (remote s) (slot_of fr (bc_cmd d)) = Some e \<and>
      get_client e \<notin> stale"
    and "\<forall>d \<in> set ds. \<not> names_digest (bc_cmd d)"
    and "execute_async fr cfg sch (sv, s) = (r, sv', s')"
    and "\<forall>m. r \<noteq> Inl (Msg (''SCRIPT LOAD failed: '' @ m))"
  shows "\<exists>s''. execute_async fr (cfg\<lparr>cf_use_script_cache := False\<rparr>) sch (sv, s) = (r, sv', s'') \<and>
    data (remote s'') = data (remote s')"
proof (cases "bs_executed sv")
  case True
  with assms(11) show ?thesis by (simp add: execute_async_def)
next
  case False
  let ?sv = "sv\<lparr>bs_executed := True\<rparr>" and ?atomic = "bo_execution_mode (bs_options sv) = InMemoryAtomic"
  have mode: "execute_async fr c sch (sv, s) = execute_in_memory fr c sch ?atomic (?sv, s)" for c
    using False assms(7)
    by (cases "bo_execution_mode (bs_options sv)")
      (simp_all add: execute_async_def is_redis_based_queue_def Let_def)
  have "bs_state ?sv = BInMemory ds" using assms(8) by simp
  from execute_in_memory_digests [OF assms(1-6) this assms(9,10) assms(11) [unfolded mode] assms(12)]
  show ?thesis unfolding mode .
qed

end
