(* ===== verification/ScriptExamples.thy ===== *)
theory ScriptExamples
  imports BatchExamples ScriptTransparency
begin

text \<open>
  Concrete instances of the properties of the script caches: the small client of the other
  examples, whose servers hold either every script or none.
\<close>

section \<open>Scripts on servers\<close>

definition demo_has :: "demo_world \<Rightarrow> server \<Rightarrow> string set" where
  "demo_has w srv = (if fst w then UNIV else {})"

lemma demo_script_server: "script_server demo_fred demo_has"
  by (auto simp: script_server_def demo_has_def demo_fred_def demo_call_def demo_answer_def
      get_write_entry_def)

text \<open>A client whose server at \<open>node_b\<close> restarted; a script is loaded at \<open>node_a\<close>.\<close>

theorem digests_known_to_servers_witness:
  "\<exists>nm t. load_scripts demo_fred (demo_config\<lparr>cf_use_script_cache := True\<rparr>) demo_scripts demo_globals =
      (Inr nm, t) \<and> ''sha of return 1'' \<in> demo_has (remote t) node_a"
proof -
  let ?cfg = "demo_config\<lparr>cf_use_script_cache := True\<rparr>"
  let ?ds = "[\<lparr>bc_cmd = Eval ''return 1'' [''a''] [], bc_tx = 0, bc_index = 0\<rparr>]"
  have "script_history demo_fred demo_has ?cfg {node_b} (demo_globals\<lparr>remote := remote demo_globals\<rparr>)"
    by (rule history_restart [OF history_start]) simp
  then have h: "script_history demo_fred demo_has ?cfg {node_b} demo_globals" by simp
  obtain e t where l: "load_scripts demo_fred ?cfg demo_scripts demo_globals =
      (Inr [(fst (hd demo_scripts), e)], t)"
    using demo_load_scripts by blast
  have g: "group_by_node demo_fred 0 0 ?ds [] (remote demo_globals) = (Inr demo_scripts, remote demo_globals)"
    by (simp add: resolve_entry_known pbind_apply demo_scripts_def slot_of_def add_command_def
        batch_entry_new_def)
  have "fr_sha1 demo_fred ` set (eval_scripts (be_commands (snd (hd demo_scripts)))) \<subseteq>
      demo_has (remote t) (get_client (from_slot 1 node_a))"
    by (rule digests_known_to_servers [OF demo_script_server h _ _ g])
      (use l in \<open>simp_all add: demo_scripts_def get_client_def from_slot_def\<close>)
  with l show ?thesis
    by (auto simp: demo_scripts_def eval_scripts_def List.map_filter_simps demo_fred_def
        get_client_def from_slot_def)
qed

section \<open>A batch with and without the cache\<close>

text \<open>A server that runs scripts, and digests only of the scripts that it holds.\<close>

definition demo_script_reply :: "demo_world \<Rightarrow> request \<Rightarrow> err + rvalue" where
  "demo_script_reply w q =
     (case q of
        QCustom name h vs \<Rightarrow>
          if name = ''EVAL'' then Inr (Str ''done'')
          else if name = ''EVALSHA'' \<and> fst w then Inr (Str ''done'')
          else if name = ''EVALSHA'' then Inl (Msg ''NOSCRIPT'')
          else Inr Null
      | _ \<Rightarrow> Inr Null)"

definition demo_script_schedule :: "demo_world schedule" where
  "demo_script_schedule = demo_schedule\<lparr>sc_replies := \<lambda>w n b qs. map (demo_script_reply w) qs\<rparr>"

lemma demo_script_schedule_ok: "sched_ok demo_script_schedule"
  using demo_schedule_ok by (simp add: sched_ok_def demo_script_schedule_def)

lemma demo_transparent: "transparent_server demo_fred demo_has (\<lambda>w. ()) demo_script_schedule"
proof -
  have "demo_script_reply w (digest_request demo_fred q) = demo_script_reply w' q"
    if "fr_sha1 demo_fred ` script_texts qs \<subseteq> demo_has w srv" "digest_free qs" "q \<in> set qs" for w w' q qs srv
  proof (cases "(demo_fred, q)" rule: digest_request.cases)
    case (1 fr name h x vs)
    with that have "name = ''EVAL'' \<longrightarrow> fst w" "name \<noteq> ''EVALSHA''"
      by (auto simp: script_texts_def demo_has_def digest_free_def split: if_splits)
    with 1 show ?thesis by (simp add: demo_script_reply_def)
  qed (use that in \<open>auto simp: demo_script_reply_def digest_free_def\<close>)
  then show ?thesis
    by (simp add: transparent_server_def demo_script_schedule_def)
qed

definition demo_script_batch :: batch_service where
  "demo_script_batch =
     (batch_new demo_config defaults)
       \<lparr>bs_channels := 1, bs_next_index := 1, bs_state := BInMemory (be_commands (snd (hd demo_scripts)))\<rparr>"

lemma demo_script_batch_simps [simp]:
  "bs_options demo_script_batch = defaults" "\<not> bs_executed demo_script_batch"
  "bs_state demo_script_batch = BInMemory [\<lparr>bc_cmd = Eval ''return 1'' [''a''] [], bc_tx = 0, bc_index = 0\<rparr>]"
  by (simp_all add: demo_script_batch_def demo_scripts_def batch_new_def Let_def)

lemma demo_group_scripts:
  "group_by_node demo_fred retries dl [\<lparr>bc_cmd = Eval ''return 1'' [''a''] [], bc_tx = 0, bc_index = 0\<rparr>] [] w =
     (Inr demo_scripts, w)"
  by (simp add: resolve_entry_known pbind_apply demo_scripts_def slot_of_def add_command_def
      batch_entry_new_def)

text \<open>With the cache: the script is loaded and its digest is sent.\<close>

lemma demo_digests_loaded:
  "\<exists>t. fst (remote t) \<and> load_scripts demo_fred (demo_config\<lparr>cf_use_script_cache := True\<rparr>) demo_scripts
       demo_globals =
     (Inr [(from_slot 1 node_a,
        \<lparr>be_commands = [\<lparr>bc_cmd = EvalSha ''sha of return 1'' [''a''] [], bc_tx = 0, bc_index = 0\<rparr>],
         be_read_only = False\<rparr>)], t)"
  by (simp add: load_scripts_def demo_config_def demo_scripts_def load_node_def is_cached_def calc_sha_def
      lru_get_def lru_put_def sha_capacity_def Let_def demo_fred_def on_remote_def pick_def pbind_def
      pret_def demo_call_def demo_answer_def cache_scripts_def initial_globals_def get_client_def
      from_slot_def split_beta)

lemma demo_script_run:
  "\<exists>sv' s'. execute_async demo_fred (demo_config\<lparr>cf_use_script_cache := True\<rparr>) demo_script_schedule
      (demo_script_batch, demo_globals) = (Inr (batch_result_new [Str ''done''] 0), sv', s') \<and>
    await_reply 0 sv' = Some (Inr (Str ''done''))"
proof -
  obtain t where "fst (remote t)" and "load_scripts demo_fred (demo_config\<lparr>cf_use_script_cache := True\<rparr>)
      (rev demo_scripts) demo_globals =
     (Inr [(from_slot 1 node_a,
        \<lparr>be_commands = [\<lparr>bc_cmd = EvalSha ''sha of return 1'' [''a''] [], bc_tx = 0, bc_index = 0\<rparr>],
         be_read_only = False\<rparr>)], t)"
    using demo_digests_loaded by (auto simp: demo_scripts_def)
  moreover have "s\<lparr>remote := remote s\<rparr> = s" for s :: "demo_world globals" by simp
  ultimately show ?thesis
    by (simp add: execute_async_def execute_in_memory_def Let_def on_remote_apply demo_group_scripts
        demo_script_schedule_def demo_schedule_def run_tasks_def node_task_def build_pipeline_requests
        demo_accepts pipeline_requests_def pipeline_request_def script_args_def demo_script_reply_def
        handle_replies_def use_replica_def value_or_null_def await_reply_def settle_def
        del: group_by_node.simps)
qed

theorem script_cache_transparent_witness:
  "\<exists>sv' s'. execute_async demo_fred (demo_config\<lparr>cf_use_script_cache := False\<rparr>) demo_script_schedule
      (demo_script_batch, demo_globals) = (Inr (batch_result_new [Str ''done''] 0), sv', s') \<and>
    await_reply 0 sv' = Some (Inr (Str ''done''))"
proof -
  let ?cfg = "demo_config\<lparr>cf_use_script_cache := True\<rparr>"
  have "script_history demo_fred demo_has ?cfg {node_b} (demo_globals\<lparr>remote := remote demo_globals\<rparr>)"
    by (rule history_restart [OF history_start]) simp
  then have h: "script_history demo_fred demo_has ?cfg {node_b} demo_globals" by simp
  obtain sv' s' where run: "execute_async demo_fred ?cfg demo_script_schedule (demo_script_batch, demo_globals) =
      (Inr (batch_result_new [Str ''done''] 0), sv', s')"
    and reply: "await_reply 0 sv' = Some (Inr (Str ''done''))" using demo_script_run by blast
  have "\<exists>s''. execute_async demo_fred (?cfg\<lparr>cf_use_script_cache := False\<rparr>) demo_script_schedule
      (demo_script_batch, demo_globals) = (Inr (batch_result_new [Str ''done''] 0), sv', s'') \<and> () = ()"
    by (rule script_cache_transparent [where ds = "be_commands (snd (hd demo_scripts))",
          OF demo_script_server h demo_transparent demo_accepts
          demo_script_schedule_ok _ _ _ _ _ run])
      (simp_all add: demo_scripts_def slot_of_def get_client_def from_slot_def)
  with reply show ?thesis by auto
qed
end
