(* ===== verification/TopicUse.thy ===== *)
theory TopicUse
  imports PubSubSpec Utf8
begin

text \<open>
  Pattern topics used one call after the other, on servers that answer every request: against a
  specification that keeps a list of subscriptions, and up to the messages that a publication
  delivers. A client that is subscribed to several patterns that match a channel receives a
  publication once per pattern, and the service hands each of these messages to the
  listeners of every matching pattern.
\<close>

section \<open>Servers that answer\<close>






section \<open>Calls on pattern topics\<close>

















section \<open>What a publication delivers\<close>










section \<open>Overlapping patterns\<close>


end
