(* ===== verification/LockHierarchy.thy ===== *)
theory LockHierarchy
  imports Prelude
begin

text \<open>
  The lock hierarchy of \<open>examples/inheritance_demo.rs\<close>: a base lock with an exclusive flag, a
  simple lock, a reentrant lock and a fair reentrant lock, each built around the one before it.
  The traits \<open>Lock\<close>, \<open>AbstractLock\<close> and \<open>AbstractReentrantLock\<close> are tables of methods;
  their provided methods are definitions that take the methods they call as arguments. A
  method runs on the object it is called on and on the lines printed so far. The fields behind
  a \<open>Mutex\<close> are plain fields, since no method of the file takes a mutex that it already holds.

  The specification of the reentrant locks is an integer that counts the calls, and that of
  the base lock a flag that excludes.
\<close>

section \<open>Methods\<close>

type_synonym ('o, 'a) meth = "('o \<times> string list, 'a) prog"

definition println :: "string \<Rightarrow> ('o, unit) meth" where
  "println s = (\<lambda>(self, out). (Inr (), (self, out @ [s])))"

definition read_self :: "('o \<Rightarrow> 'a) \<Rightarrow> ('o, 'a) meth" where
  "read_self f = (\<lambda>(self, out). (Inr (f self), (self, out)))"

definition update_self :: "('o \<Rightarrow> 'o) \<Rightarrow> ('o, unit) meth" where
  "update_self f = (\<lambda>(self, out). (Inr (), (f self, out)))"

text \<open>A method called on a part of the object, as \<open>self.base.m()\<close>.\<close>

definition on_part :: "('o \<Rightarrow> 'p) \<Rightarrow> ('p \<Rightarrow> 'o \<Rightarrow> 'o) \<Rightarrow> ('p, 'a) meth \<Rightarrow> ('o, 'a) meth" where
  "on_part get put m =
     (\<lambda>(self, out). case m (get self, out) of (r, (p, out')) \<Rightarrow> (r, (put p self, out')))"

lemma println_apply [simp, prog_simps]:
  "println s (self, out) = (Inr (), (self, out @ [s]))"
  by (simp add: println_def)

lemma read_self_apply [simp, prog_simps]: "read_self f (self, out) = (Inr (f self), (self, out))"
  by (simp add: read_self_def)

lemma update_self_apply [simp, prog_simps]:
  "update_self f (self, out) = (Inr (), (f self, out))"
  by (simp add: update_self_def)

lemma on_part_apply [simp, prog_simps]:
  "on_part get put m (self, out) =
     (case m (get self, out) of (r, (p, out')) \<Rightarrow> (r, (put p self, out')))"
  by (simp add: on_part_def)

section \<open>Signed counters\<close>

text \<open>
  \<open>*count += 1\<close> on an \<open>i32\<close> panics at the largest value in a build with overflow checks and
  wraps in one without; \<open>saturating_sub\<close> stops at the smallest value.
\<close>

definition i32_max :: int where
  "i32_max = 2 ^ 31 - 1"

definition i32_min :: int where
  "i32_min = - (2 ^ 31)"

definition add_overflow :: err where
  "add_overflow = Msg ''attempt to add with overflow''"

definition i32_incr :: "bool \<Rightarrow> i32 \<Rightarrow> ('o, i32) meth" where
  "i32_incr checks n =
     (if checks \<and> sint n = i32_max then pfail add_overflow
      else pret (n + 1))"

definition i32_saturating_sub :: "i32 \<Rightarrow> i32 \<Rightarrow> i32" where
  "i32_saturating_sub a b = word_of_int (max i32_min (min i32_max (sint a - sint b)))"

lemma sint_word_of_int_i32:
  "i32_min \<le> k \<Longrightarrow> k \<le> i32_max \<Longrightarrow> sint (word_of_int k :: i32) = k"
  unfolding i32_min_def i32_max_def
  by (simp add: sint_sbintrunc' signed_take_bit_int_eq_self)

lemma sint_i32_range: "i32_min \<le> sint n" "sint n \<le> i32_max" for n :: i32
  using sint_range_size [of n] by (simp_all add: i32_min_def i32_max_def word_size)

lemma sint_incr: "sint n \<noteq> i32_max \<Longrightarrow> sint (n + 1) = sint n + 1" for n :: i32
proof -
  assume "sint n \<noteq> i32_max"
  with sint_i32_range [of n] have "sint (word_of_int (sint n + 1) :: i32) = sint n + 1"
    by (intro sint_word_of_int_i32) auto
  then show ?thesis by simp
qed

lemma sint_saturating_sub: "sint (i32_saturating_sub n 1) = max i32_min (sint n - 1)"
proof -
  from sint_i32_range [of n] have "min i32_max (sint n - 1) = sint n - 1" by simp
  moreover from sint_i32_range [of n] have "max i32_min (sint n - 1) \<le> i32_max"
    by (simp add: i32_min_def i32_max_def)
  ultimately show ?thesis by (simp add: i32_saturating_sub_def sint_word_of_int_i32)
qed

section \<open>The provided methods of the traits\<close>

text \<open>\<open>AbstractLock::on_acquired\<close> and \<open>wait_and_retry\<close>.\<close>

definition on_acquired :: "('o \<Rightarrow> string) \<Rightarrow> ('o, unit) meth" where
  "on_acquired name =
     pbind (read_self name) (\<lambda>n. println (''[AbstractLock] default onAcquired: '' @ n))"

definition wait_and_retry :: "('o \<Rightarrow> string) \<Rightarrow> ('o, unit) meth" where
  "wait_and_retry name =
     pbind (read_self name) (\<lambda>n. println (''[AbstractLock] default waitAndRetry: '' @ n))"

text \<open>The template \<open>AbstractLock::do_lock\<close> over the methods of the implementing type.\<close>

definition do_lock ::
  "('o \<Rightarrow> string) \<Rightarrow> ('o, bool) meth \<Rightarrow> ('o, unit) meth \<Rightarrow> ('o, unit) meth \<Rightarrow> ('o, unit) meth"
where
  "do_lock name try_acquire acquired wait =
     pbind (read_self name) (\<lambda>n.
     pbind (println (''[AbstractLock] lock() for '' @ quoted n)) (\<lambda>_.
     pbind try_acquire (\<lambda>ok. if ok then acquired else wait)))"

text \<open>\<open>AbstractReentrantLock::try_acquire_reentrant\<close> and \<open>on_acquired_reentrant\<close>.\<close>

definition try_acquire_reentrant :: "('o \<Rightarrow> i32) \<Rightarrow> ('o, bool) meth" where
  "try_acquire_reentrant hold_count =
     pbind (read_self hold_count) (\<lambda>c.
     pbind (println (''[AbstractReentrantLock] default tryAcquire, holdCount=''
                       @ show_int (sint c))) (\<lambda>_.
     pret True))"

definition on_acquired_reentrant :: "('o \<Rightarrow> i32) \<Rightarrow> ('o, unit) meth" where
  "on_acquired_reentrant hold_count =
     pbind (read_self hold_count) (\<lambda>c.
     println (''[AbstractReentrantLock] default onAcquired, holdCount='' @ show_int (sint c)))"

section \<open>The base lock\<close>

record lock_fields =
  lock_name :: string
  timeout_ms :: u64
  locked :: bool

definition lock_fields_new :: "string \<Rightarrow> lock_fields" where
  "lock_fields_new name = \<lparr>lock_name = name, timeout_ms = 30000, locked = False\<rparr>"

definition base_try_acquire :: "(lock_fields, bool) meth" where
  "base_try_acquire =
     pbind (read_self locked) (\<lambda>l.
       if l then pret False
       else pbind (update_self (locked_update (\<lambda>_. True))) (\<lambda>_.
            pbind (read_self lock_name) (\<lambda>n.
            pbind (println (''[AbstractLockFields] tryAcquire: '' @ n)) (\<lambda>_.
            pret True))))"

definition base_lock :: "(lock_fields, unit) meth" where
  "base_lock =
     do_lock lock_name base_try_acquire (on_acquired lock_name) (wait_and_retry lock_name)"

definition base_unlock :: "(lock_fields, unit) meth" where
  "base_unlock =
     pbind (update_self (locked_update (\<lambda>_. False))) (\<lambda>_.
     pbind (read_self lock_name) (\<lambda>n. println (''[AbstractLockFields] unlock: '' @ n)))"

definition lock_and_log :: "(lock_fields, unit) meth" where
  "lock_and_log =
     pbind (read_self lock_name) (\<lambda>n.
     pbind (println (''[AbstractLockFields] lock_and_log: '' @ n)) (\<lambda>_. base_lock))"

definition try_lock_with_timeout :: "u64 \<Rightarrow> (lock_fields, bool) meth" where
  "try_lock_with_timeout t =
     pbind (println (''[AbstractLockFields] tryLock with timeout: '' @ show_nat (unat t) @ ''ms''))
       (\<lambda>_. base_try_acquire)"

section \<open>The simple lock\<close>

record simple_fields =
  simple_base :: lock_fields
  owner_id :: string

definition simple_new :: "string \<Rightarrow> simple_fields" where
  "simple_new name = \<lparr>simple_base = lock_fields_new name, owner_id = []\<rparr>"

definition simple_name :: "simple_fields \<Rightarrow> string" where
  "simple_name s = lock_name (simple_base s)"

definition simple_try_acquire :: "(simple_fields, bool) meth" where
  "simple_try_acquire =
     pbind (read_self simple_name) (\<lambda>n.
     pbind (println (''[SimpleLock] tryAcquire: '' @ n)) (\<lambda>_. pret True))"

definition simple_on_acquired :: "(simple_fields, unit) meth" where
  "simple_on_acquired =
     pbind (read_self simple_name) (\<lambda>n.
     pbind (update_self (owner_id_update (\<lambda>_. ''owner-'' @ n))) (\<lambda>_.
     pbind (read_self owner_id) (\<lambda>w.
     println (''[SimpleLock] onAcquired: ownerId set to '' @ quoted w))))"

definition simple_lock :: "(simple_fields, unit) meth" where
  "simple_lock =
     do_lock simple_name simple_try_acquire simple_on_acquired (wait_and_retry simple_name)"

definition simple_unlock :: "(simple_fields, unit) meth" where
  "simple_unlock =
     pbind (read_self simple_name) (\<lambda>n.
     pbind (println (''[SimpleLock] unlock: '' @ n)) (\<lambda>_.
     update_self (owner_id_update (\<lambda>_. []))))"

section \<open>The reentrant lock\<close>

record reentrant_fields =
  reentrant_base :: simple_fields
  holds :: i32

definition reentrant_new :: "string \<Rightarrow> reentrant_fields" where
  "reentrant_new name = \<lparr>reentrant_base = simple_new name, holds = 0\<rparr>"

definition reentrant_name :: "reentrant_fields \<Rightarrow> string" where
  "reentrant_name r = simple_name (reentrant_base r)"

definition reentrant_hold_count :: "reentrant_fields \<Rightarrow> i32" where
  "reentrant_hold_count r = holds r"

text \<open>The overrides of the provided methods, and the methods that call them.\<close>

definition reentrant_try_acquire_reentrant :: "bool \<Rightarrow> (reentrant_fields, bool) meth" where
  "reentrant_try_acquire_reentrant checks =
     pbind (read_self holds) (\<lambda>c.
     pbind (i32_incr checks c) (\<lambda>c'.
     pbind (update_self (holds_update (\<lambda>_. c'))) (\<lambda>_.
     pbind (println (''[ReentrantLock] tryAcquire: holdCount='' @ show_int (sint c'))) (\<lambda>_.
     pret True))))"

definition reentrant_on_acquired_reentrant :: "(reentrant_fields, unit) meth" where
  "reentrant_on_acquired_reentrant =
     pbind (read_self reentrant_hold_count) (\<lambda>c.
     println (''[ReentrantLock] onAcquired: holdCount='' @ show_int (sint c)))"

definition reentrant_try_acquire :: "bool \<Rightarrow> (reentrant_fields, bool) meth" where
  "reentrant_try_acquire checks = reentrant_try_acquire_reentrant checks"

definition reentrant_on_acquired :: "(reentrant_fields, unit) meth" where
  "reentrant_on_acquired = reentrant_on_acquired_reentrant"

definition reentrant_lock :: "bool \<Rightarrow> (reentrant_fields, unit) meth" where
  "reentrant_lock checks =
     do_lock reentrant_name (reentrant_try_acquire checks) reentrant_on_acquired
       (wait_and_retry reentrant_name)"

definition reentrant_unlock :: "(reentrant_fields, unit) meth" where
  "reentrant_unlock =
     pbind (read_self holds) (\<lambda>c.
     let c' = i32_saturating_sub c 1 in
     pbind (update_self (holds_update (\<lambda>_. c'))) (\<lambda>_.
     println (''[ReentrantLock] unlock: holdCount='' @ show_int (sint c'))))"

definition reentrant_fair_wait :: "(reentrant_fields, unit) meth" where
  "reentrant_fair_wait =
     pbind (read_self reentrant_name) (\<lambda>n. println (''[ReentrantLock] fairWait: '' @ n))"

section \<open>The fair reentrant lock\<close>

record fair_fields =
  fair_base :: reentrant_fields

definition fair_new :: "string \<Rightarrow> fair_fields" where
  "fair_new name = \<lparr>fair_base = reentrant_new name\<rparr>"

definition on_reentrant :: "(reentrant_fields, 'a) meth \<Rightarrow> (fair_fields, 'a) meth" where
  "on_reentrant m = on_part fair_base (\<lambda>b. fair_base_update (\<lambda>_. b)) m"

definition fair_name :: "fair_fields \<Rightarrow> string" where
  "fair_name f = reentrant_name (fair_base f)"

definition fair_try_acquire :: "bool \<Rightarrow> (fair_fields, bool) meth" where
  "fair_try_acquire checks = on_reentrant (reentrant_try_acquire checks)"

definition fair_on_acquired :: "(fair_fields, unit) meth" where
  "fair_on_acquired = on_reentrant reentrant_on_acquired"

definition fair_lock :: "bool \<Rightarrow> (fair_fields, unit) meth" where
  "fair_lock checks =
     do_lock fair_name (fair_try_acquire checks) fair_on_acquired (wait_and_retry fair_name)"

definition fair_unlock :: "(fair_fields, unit) meth" where
  "fair_unlock = on_reentrant reentrant_unlock"

definition fair_hold_count :: "fair_fields \<Rightarrow> i32" where
  "fair_hold_count f = reentrant_hold_count (fair_base f)"

definition fair_fair_wait :: "(fair_fields, unit) meth" where
  "fair_fair_wait =
     pbind (read_self fair_name) (\<lambda>n.
     println (''[FairReentrantLock] FAIR queue wait for: '' @ n))"

section \<open>Objects behind \<open>dyn Lock\<close>\<close>

datatype dyn_object =
    DynSimple simple_fields
  | DynReentrant reentrant_fields
  | DynFair fair_fields

definition as_dyn :: "('o \<Rightarrow> dyn_object) \<Rightarrow> ('o, 'a) meth \<Rightarrow> 'o \<times> string list \<Rightarrow>
    (err + 'a) \<times> dyn_object \<times> string list" where
  "as_dyn wrap m st = (case m st of (r, (self, out)) \<Rightarrow> (r, (wrap self, out)))"

fun dyn_lock :: "bool \<Rightarrow> (dyn_object, unit) meth" where
  "dyn_lock checks (DynSimple s, out) = as_dyn DynSimple simple_lock (s, out)"
| "dyn_lock checks (DynReentrant r, out) = as_dyn DynReentrant (reentrant_lock checks) (r, out)"
| "dyn_lock checks (DynFair f, out) = as_dyn DynFair (fair_lock checks) (f, out)"

fun dyn_unlock :: "(dyn_object, unit) meth" where
  "dyn_unlock (DynSimple s, out) = as_dyn DynSimple simple_unlock (s, out)"
| "dyn_unlock (DynReentrant r, out) = as_dyn DynReentrant reentrant_unlock (r, out)"
| "dyn_unlock (DynFair f, out) = as_dyn DynFair fair_unlock (f, out)"

definition use_as_lock :: "bool \<Rightarrow> (dyn_object, unit) meth" where
  "use_as_lock checks =
     pbind (println ''  --- Using as &dyn Lock ---'') (\<lambda>_.
     pbind (dyn_lock checks) (\<lambda>_. dyn_unlock))"

section \<open>Sequences of calls and the counter they keep\<close>

datatype lock_call = CallLock | CallUnlock

fun run_calls ::
  "('o, unit) meth \<Rightarrow> ('o, unit) meth \<Rightarrow> lock_call list \<Rightarrow> ('o, unit) meth" where
  "run_calls l u [] = pret ()"
| "run_calls l u (CallLock # cs) = pbind l (\<lambda>_. run_calls l u cs)"
| "run_calls l u (CallUnlock # cs) = pbind u (\<lambda>_. run_calls l u cs)"

text \<open>The integer a sequence of calls leaves, \<open>None\<close> when a lock call finds no room above it.\<close>

fun counter :: "lock_call list \<Rightarrow> int \<Rightarrow> int option" where
  "counter [] c = Some c"
| "counter (CallLock # cs) c = (if c = i32_max then None else counter cs (c + 1))"
| "counter (CallUnlock # cs) c = counter cs (max i32_min (c - 1))"

text \<open>Calls in which each unlock closes a lock, and the depth of the open ones.\<close>

fun nested :: "lock_call list \<Rightarrow> nat \<Rightarrow> bool" where
  "nested [] d \<longleftrightarrow> True"
| "nested (CallLock # cs) d \<longleftrightarrow> nested cs (d + 1)"
| "nested (CallUnlock # cs) d \<longleftrightarrow> 0 < d \<and> nested cs (d - 1)"

fun depth :: "lock_call list \<Rightarrow> nat \<Rightarrow> nat" where
  "depth [] d = d"
| "depth (CallLock # cs) d = depth cs (d + 1)"
| "depth (CallUnlock # cs) d = depth cs (d - 1)"

text \<open>The largest number of locks that are open at once.\<close>

fun peak :: "lock_call list \<Rightarrow> nat \<Rightarrow> nat" where
  "peak [] d = d"
| "peak (CallLock # cs) d = max d (peak cs (d + 1))"
| "peak (CallUnlock # cs) d = max d (peak cs (d - 1))"

lemma peak_start: "d \<le> peak cs d"
  by (cases "(cs, d)" rule: peak.cases) simp_all

lemma counter_nested:
  "nested cs d \<Longrightarrow> int d \<le> i32_max \<Longrightarrow>
   counter cs (int d) = (if int (peak cs d) \<le> i32_max then Some (int (depth cs d)) else None)"
proof (induction cs d rule: nested.induct)
  case (2 cs d)
  show ?case
  proof (cases "int d = i32_max")
    case True
    with peak_start [of "d + 1" cs] show ?thesis by simp
  next
    case False
    with 2 have "counter cs (int (d + 1)) =
        (if int (peak cs (d + 1)) \<le> i32_max then Some (int (depth cs (d + 1))) else None)" by simp
    with False 2 show ?thesis by (auto simp: add.commute max_def)
  qed
next
  case (3 cs d)
  then have "max i32_min (int d - 1) = int (d - 1)" by (simp add: i32_min_def of_nat_diff)
  with 3 show ?case by (auto simp: max_def)
qed simp

text \<open>
  The contract of a counting lock: a lock call adds one to its level or panics at the top, an
  unlock call subtracts one and stops at the bottom.
\<close>

locale counting_lock =
  fixes acquire_call release_call :: "('o, unit) meth"
    and level :: "'o \<Rightarrow> i32"
  assumes lock_adds:
      "sint (level s) \<noteq> i32_max \<Longrightarrow>
       \<exists>s' out'. acquire_call (s, out) = (Inr (), (s', out')) \<and> level s' = level s + 1"
    and lock_panics:
      "sint (level s) = i32_max \<Longrightarrow> \<exists>t. acquire_call (s, out) = (Inl add_overflow, t)"
    and unlock_subtracts:
      "\<exists>s' out'. release_call (s, out) = (Inr (), (s', out')) \<and>
                 level s' = i32_saturating_sub (level s) 1"
begin

lemma calls_count:
  "case counter cs (sint (level s)) of
     Some k \<Rightarrow> \<exists>s' out'. run_calls acquire_call release_call cs (s, out) = (Inr (), (s', out'))
                        \<and> sint (level s') = k
   | None \<Rightarrow> \<exists>t. run_calls acquire_call release_call cs (s, out) = (Inl add_overflow, t)"
proof (induction cs arbitrary: s out)
  case (Cons c cs)
  show ?case
  proof (cases c)
    case CallLock
    show ?thesis
    proof (cases "sint (level s) = i32_max")
      case True
      with lock_panics [of s out] CallLock show ?thesis by auto
    next
      case False
      then obtain s' out' where "acquire_call (s, out) = (Inr (), (s', out'))"
        and "level s' = level s + 1"
        using lock_adds by blast
      with Cons.IH [of s' out'] False CallLock show ?thesis
        by (simp add: sint_incr split: option.splits)
    qed
  next
    case CallUnlock
    obtain s' out' where "release_call (s, out) = (Inr (), (s', out'))"
      and "level s' = i32_saturating_sub (level s) 1"
      using unlock_subtracts by blast
    with Cons.IH [of s' out'] CallUnlock show ?thesis
      by (simp add: sint_saturating_sub split: option.splits)
  qed
qed simp

lemma nested_calls_count:
  assumes "nested cs 0" and "level s = 0"
  shows "if int (peak cs 0) \<le> i32_max
    then \<exists>s' out'. run_calls acquire_call release_call cs (s, out) = (Inr (), (s', out'))
           \<and> sint (level s') = int (depth cs 0)
    else \<exists>t. run_calls acquire_call release_call cs (s, out) = (Inl add_overflow, t)"
proof -
  from assms have "counter cs (sint (level s)) =
      (if int (peak cs 0) \<le> i32_max then Some (int (depth cs 0)) else None)"
    using counter_nested [of cs 0] by (simp add: i32_max_def)
  with calls_count [of cs s out] show ?thesis by (simp split: if_splits)
qed

end

lemmas reentrant_defs = reentrant_try_acquire_def reentrant_try_acquire_reentrant_def
  reentrant_on_acquired_def reentrant_on_acquired_reentrant_def reentrant_hold_count_def
  i32_incr_def do_lock_def

lemma reentrant_lock_apply:
  "reentrant_lock checks (s, out) =
     (if checks \<and> sint (holds s) = i32_max
      then (Inl add_overflow,
            (s, out @ [''[AbstractLock] lock() for '' @ quoted (reentrant_name s)]))
      else (Inr (), (s\<lparr>holds := holds s + 1\<rparr>,
             out @ [''[AbstractLock] lock() for '' @ quoted (reentrant_name s),
                    ''[ReentrantLock] tryAcquire: holdCount='' @ show_int (sint (holds s + 1)),
                    ''[ReentrantLock] onAcquired: holdCount='' @ show_int (sint (holds s + 1))])))"
  by (simp add: reentrant_lock_def reentrant_defs prog_simps)

lemma reentrant_unlock_apply:
  "reentrant_unlock (s, out) =
     (let c = i32_saturating_sub (holds s) 1 in
      (Inr (), (s\<lparr>holds := c\<rparr>, out @ [''[ReentrantLock] unlock: holdCount='' @ show_int (sint c)])))"
  by (simp add: reentrant_unlock_def Let_def prog_simps)

lemma fair_lock_on_reentrant: "fair_lock checks = on_reentrant (reentrant_lock checks)"
proof
  fix st :: "fair_fields \<times> string list"
  obtain f out where st: "st = (f, out)" by (cases st)
  show "fair_lock checks st = on_reentrant (reentrant_lock checks) st"
    unfolding st
    by (simp add: fair_lock_def fair_try_acquire_def fair_on_acquired_def on_reentrant_def
          reentrant_lock_apply fair_name_def reentrant_defs prog_simps)
qed

lemma on_reentrant_pret: "on_reentrant (pret x) = pret x"
  by (simp add: fun_eq_iff on_reentrant_def)

lemma on_reentrant_pbind:
  "on_reentrant (pbind m k) = pbind (on_reentrant m) (\<lambda>x. on_reentrant (k x))"
  by (auto simp: fun_eq_iff on_reentrant_def pbind_def split: prod.splits sum.splits)

interpretation reentrant: counting_lock "reentrant_lock True" reentrant_unlock holds
  by unfold_locales (simp_all add: reentrant_lock_apply reentrant_unlock_apply Let_def)

interpretation fair: counting_lock "fair_lock True" fair_unlock fair_hold_count
  by unfold_locales
    (simp_all add: fair_lock_on_reentrant fair_unlock_def on_reentrant_def fair_hold_count_def
       reentrant_hold_count_def
       reentrant_lock_apply reentrant_unlock_apply Let_def)

section \<open>What the locks do\<close>

text \<open>The fair lock inherits every call of the reentrant lock inside it, line by line.\<close>

lemma fair_inherits:
  "run_calls (fair_lock checks) fair_unlock cs =
     on_reentrant (run_calls (reentrant_lock checks) reentrant_unlock cs)"
proof (induction cs)
  case Nil
  show ?case by (simp only: run_calls.simps on_reentrant_pret)
next
  case (Cons c cs)
  then show ?case
    by (cases c) (simp_all add: on_reentrant_pbind fair_lock_on_reentrant fair_unlock_def)
qed

text \<open>
  C40: A fair lock that is used with each unlock closing a lock counts the locks that are open,
  as long as at most 2147483647 are open at once: no call panics, none saturates, and the hold
  count is the number of open locks. With one more open at once, the call that opens it panics
  (in a build with overflow checks).
\<close>

theorem fair_nesting:
  assumes "nested cs 0"
  shows "if int (peak cs 0) \<le> i32_max
    then \<exists>f out. run_calls (fair_lock True) fair_unlock cs (fair_new name, []) = (Inr (), (f, out))
           \<and> sint (fair_hold_count f) = int (depth cs 0)
    else \<exists>t. run_calls (fair_lock True) fair_unlock cs (fair_new name, []) = (Inl add_overflow, t)"
  by (rule fair.nested_calls_count [OF assms])
    (simp add: fair_hold_count_def reentrant_hold_count_def fair_new_def reentrant_new_def)

theorem fair_nesting_witness:
  "\<exists>f out. run_calls (fair_lock True) fair_unlock [CallLock, CallLock, CallUnlock]
             (fair_new ''l'', []) = (Inr (), (f, out)) \<and> sint (fair_hold_count f) = 1"
  using fair_nesting [of "[CallLock, CallLock, CallUnlock]" "''l''"]
  by (simp add: i32_max_def numeral_2_eq_2)

text \<open>
  Without that discipline the count leaves the natural numbers: an unlock of a lock that is
  not held makes it negative, since the subtraction saturates at the smallest \<open>i32\<close> and not
  at zero.
\<close>

lemma unheld_unlock_is_negative:
  "reentrant_unlock (reentrant_new name, []) =
     (Inr (), ((reentrant_new name)\<lparr>holds := - 1\<rparr>, [''[ReentrantLock] unlock: holdCount=-1'']))"
proof -
  have "show_int (- 1) = ''-1''" by code_simp
  then show ?thesis
    by (simp add: reentrant_unlock_apply reentrant_new_def i32_saturating_sub_def i32_min_def
          i32_max_def Let_def)
qed

lemma saturating_sub_incr:
  assumes "sint n \<noteq> i32_max"
  shows "i32_saturating_sub (n + 1) 1 = n"
proof -
  from assms sint_i32_range [of n] have "sint (i32_saturating_sub (n + 1) 1) = sint n"
    by (simp add: sint_saturating_sub sint_incr)
  then show ?thesis by (rule signed_word_eqI)
qed

text \<open>Taken as \<open>&dyn Lock\<close>, a lock and an unlock leave the count of a lock as it was.\<close>

lemma use_as_lock_neutral:
  assumes "sint (holds r) \<noteq> i32_max"
  shows "\<exists>out'. use_as_lock checks (DynReentrant r, out) = (Inr (), (DynReentrant r, out'))"
    and "\<exists>out'. use_as_lock checks (DynFair \<lparr>fair_base = r\<rparr>, out) =
                  (Inr (), (DynFair \<lparr>fair_base = r\<rparr>, out'))"
  using assms
  by (simp_all add: use_as_lock_def as_dyn_def reentrant_lock_apply reentrant_unlock_apply
        fair_lock_on_reentrant fair_unlock_def on_reentrant_def saturating_sub_incr prog_simps
        Let_def)

text \<open>A simple lock records its owner while it is held; nothing stops a second lock call.\<close>

lemma simple_lock_apply:
  "simple_lock (s, out) =
     (let n = simple_name s; w = ''owner-'' @ n in
      (Inr (), (s\<lparr>owner_id := w\<rparr>,
         out @ [''[AbstractLock] lock() for '' @ quoted n, ''[SimpleLock] tryAcquire: '' @ n,
                ''[SimpleLock] onAcquired: ownerId set to '' @ quoted w])))"
  by (simp add: simple_lock_def do_lock_def simple_try_acquire_def simple_on_acquired_def
        prog_simps Let_def)

lemma simple_unlock_apply:
  "simple_unlock (s, out) =
     (Inr (), (s\<lparr>owner_id := []\<rparr>, out @ [''[SimpleLock] unlock: '' @ simple_name s]))"
  by (simp add: simple_unlock_def prog_simps)

section \<open>The base lock excludes\<close>

lemma base_try_acquire_apply:
  "base_try_acquire (s, out) =
     (if locked s then (Inr False, (s, out))
      else (Inr True, (s\<lparr>locked := True\<rparr>,
              out @ [''[AbstractLockFields] tryAcquire: '' @ lock_name s])))"
  by (simp add: base_try_acquire_def prog_simps)

text \<open>The template returns in both cases; only its last line tells whether the lock was taken.\<close>

lemma base_lock_apply:
  "base_lock (s, out) =
     (Inr (), (s\<lparr>locked := True\<rparr>, out @ [''[AbstractLock] lock() for '' @ quoted (lock_name s)] @
        (if locked s then [''[AbstractLock] default waitAndRetry: '' @ lock_name s]
         else [''[AbstractLockFields] tryAcquire: '' @ lock_name s,
               ''[AbstractLock] default onAcquired: '' @ lock_name s])))"
  by (simp add: base_lock_def do_lock_def base_try_acquire_apply on_acquired_def
        wait_and_retry_def prog_simps)

datatype base_call = TryFor u64 | Free

fun base_results :: "base_call list \<Rightarrow> (lock_fields, bool list) meth" where
  "base_results [] = pret []"
| "base_results (TryFor t # cs) =
     pbind (try_lock_with_timeout t) (\<lambda>b. pbind (base_results cs) (\<lambda>bs. pret (b # bs)))"
| "base_results (Free # cs) =
     pbind base_unlock (\<lambda>_. pbind (base_results cs) (\<lambda>bs. pret (False # bs)))"

fun grants :: "base_call list \<Rightarrow> bool \<Rightarrow> bool list" where
  "grants [] l = []"
| "grants (TryFor t # cs) l = (\<not> l) # grants cs True"
| "grants (Free # cs) l = False # grants cs False"

lemma length_grants [simp]: "length (grants cs l) = length cs"
  by (induction cs l rule: grants.induct) auto

lemma base_results_grants:
  "\<exists>t. base_results cs (s, out) = (Inr (grants cs (locked s)), t)"
proof (induction cs arbitrary: s out)
  case (Cons c cs)
  show ?case
  proof (cases c)
    case (TryFor t)
    let ?o = "out @ [''[AbstractLockFields] tryLock with timeout: '' @ show_nat (unat t) @ ''ms'']"
    have tried: "try_lock_with_timeout t (s, out) = base_try_acquire (s, ?o)"
      by (simp add: try_lock_with_timeout_def prog_simps)
    obtain u out' where acq: "base_try_acquire (s, ?o) = (Inr (\<not> locked s), (u, out'))"
      and l: "locked u"
      by (cases "locked s") (simp_all add: base_try_acquire_apply)
    from Cons.IH [of u out'] obtain t' where "base_results cs (u, out') = (Inr (grants cs True), t')"
      using l by auto
    with TryFor tried acq show ?thesis by simp
  next
    case Free
    obtain u out' where unl: "base_unlock (s, out) = (Inr (), (u, out'))" and l: "\<not> locked u"
      by (simp add: base_unlock_def prog_simps)
    from Cons.IH [of u out'] obtain t' where "base_results cs (u, out') = (Inr (grants cs False), t')"
      using l by auto
    with Free unl show ?thesis by simp
  qed
qed simp

lemma grants_held:
  "j < length cs \<Longrightarrow> grants cs True ! j \<Longrightarrow> \<exists>k < j. cs ! k = Free"
proof (induction cs arbitrary: j)
  case (Cons c cs)
  show ?case
  proof (cases c)
    case (TryFor t)
    with Cons.prems obtain i where j: "j = Suc i" by (cases j) auto
    with Cons TryFor obtain k where "k < i" and "cs ! k = Free" by auto
    with j show ?thesis by (intro exI [of _ "Suc k"]) simp
  next
    case Free
    with Cons.prems have "0 < j" by (cases j) auto
    with Free show ?thesis by (intro exI [of _ 0]) simp
  qed
qed simp

lemma grants_exclusive:
  "i < j \<Longrightarrow> j < length cs \<Longrightarrow> grants cs l ! i \<Longrightarrow> grants cs l ! j \<Longrightarrow>
   \<exists>k. i < k \<and> k < j \<and> cs ! k = Free"
proof (induction cs arbitrary: i j l)
  case (Cons c cs)
  then obtain j' where j: "j = Suc j'" by (cases j) auto
  show ?case
  proof (cases i)
    case 0
    with Cons.prems obtain t where "c = TryFor t" by (cases c) auto
    with Cons.prems j have "j' < length cs" and "grants cs True ! j'" by auto
    from grants_held [OF this] obtain k where "k < j'" and "cs ! k = Free" by blast
    with 0 j show ?thesis by (intro exI [of _ "Suc k"]) simp
  next
    case (Suc i')
    obtain l' where "i' < j'" and "j' < length cs" and "grants cs l' ! i'" and "grants cs l' ! j'"
      using Cons.prems Suc j by (cases c) auto
    from Cons.IH [OF this] obtain k where "i' < k" and "k < j'" and "cs ! k = Free" by blast
    with Suc j show ?thesis by (intro exI [of _ "Suc k"]) simp
  qed
qed simp

text \<open>Two callers obtain the base lock only with an unlock between them.\<close>

theorem base_lock_excludes:
  assumes "fst (base_results cs (s, out)) = Inr bs" and "i < j" and "j < length bs"
    and "bs ! i" and "bs ! j"
  shows "\<exists>k. i < k \<and> k < j \<and> cs ! k = Free"
  using assms base_results_grants [of cs s out] grants_exclusive [of i j cs "locked s"] by auto

end
