(* ===== verification/LockDemo.thy ===== *)
theory LockDemo
  imports LockHierarchy Utf8
begin

text \<open>
  \<open>main\<close> of \<open>examples/inheritance_demo.rs\<close>, section by section: the four locks it makes, the
  calls on them and the lines around the calls. The locks behind \<open>&dyn Lock\<close> in its last
  section are the locks of the section before, so that what one call leaves the next one
  finds. The theorem says how the program leaves its locks.
\<close>

section \<open>The locks of the program\<close>

record demo_locks =
  the_base :: lock_fields
  the_simple :: simple_fields
  the_reentrant :: reentrant_fields
  the_fair :: fair_fields

definition on_base :: "(lock_fields, 'a) meth \<Rightarrow> (demo_locks, 'a) meth" where
  "on_base = on_part the_base (\<lambda>l. the_base_update (\<lambda>_. l))"

definition on_simple :: "(simple_fields, 'a) meth \<Rightarrow> (demo_locks, 'a) meth" where
  "on_simple = on_part the_simple (\<lambda>l. the_simple_update (\<lambda>_. l))"

definition on_reentrant_lock :: "(reentrant_fields, 'a) meth \<Rightarrow> (demo_locks, 'a) meth" where
  "on_reentrant_lock = on_part the_reentrant (\<lambda>l. the_reentrant_update (\<lambda>_. l))"

definition on_fair :: "(fair_fields, 'a) meth \<Rightarrow> (demo_locks, 'a) meth" where
  "on_fair = on_part the_fair (\<lambda>l. the_fair_update (\<lambda>_. l))"

text \<open>A reference in the vector \<open>locks\<close>, and the lock it leads to.\<close>

datatype lock_ref = RefSimple | RefReentrant | RefFair

fun referred :: "lock_ref \<Rightarrow> demo_locks \<Rightarrow> dyn_object" where
  "referred RefSimple ls = DynSimple (the_simple ls)"
| "referred RefReentrant ls = DynReentrant (the_reentrant ls)"
| "referred RefFair ls = DynFair (the_fair ls)"

fun write_back :: "dyn_object \<Rightarrow> demo_locks \<Rightarrow> demo_locks" where
  "write_back (DynSimple l) ls = ls\<lparr>the_simple := l\<rparr>"
| "write_back (DynReentrant l) ls = ls\<lparr>the_reentrant := l\<rparr>"
| "write_back (DynFair l) ls = ls\<lparr>the_fair := l\<rparr>"

fun use_all :: "bool \<Rightarrow> lock_ref list \<Rightarrow> (demo_locks, unit) meth" where
  "use_all checks [] = pret ()"
| "use_all checks (l # ls) =
     pbind (on_part (referred l) write_back (use_as_lock checks)) (\<lambda>_. use_all checks ls)"

section \<open>The sections of the program\<close>

fun println_all :: "string list \<Rightarrow> ('o, unit) meth" where
  "println_all [] = pret ()"
| "println_all (t # ts) = pbind (println t) (\<lambda>_. println_all ts)"

lemma println_all_apply [simp, prog_simps]:
  "println_all ts (self, out) = (Inr (), (self, out @ ts))"
  by (induction ts arbitrary: out) simp_all

definition print_title :: "(demo_locks, unit) meth" where
  "print_title =
     println_all
       [utf8 [0x2554] @ utf8 (replicate 62 0x2550) @ utf8 [0x2557],
        utf8 [0x2551] @ ''  Rust '' @ utf8 [0x6a21, 0x62df] @ '' Java '' @
          utf8 [0x591a, 0x5c42, 0x7ee7, 0x627f, 0x5b8c, 0x6574, 0x793a, 0x4f8b] @
          ''                              '' @ utf8 [0x2551],
        utf8 [0x255a] @ utf8 (replicate 62 0x2550) @ utf8 [0x255d] @ [CHR 0x0A]]"

definition print_fields :: "(demo_locks, unit) meth" where
  "print_fields =
     (let reentrant = reentrant_new ''test-lock'' in
     pbind (println_all
       [utf8 [0x3010] @ ''1. '' @ utf8 [0x5b57, 0x6bb5, 0x7ee7, 0x627f] @ '' ('' @
         utf8 [0x7ec4, 0x5408] @ '' + Deref)'' @ utf8 [0x3011],
        [],
        ''   AbstractLockFields { name, timeout_ms }'',
        ''       '' @ utf8 [0x2193] @ '' Deref'',
        ''   SimpleLock { base: AbstractLockFields, owner_id }'',
        ''       '' @ utf8 [0x2193] @ '' Deref'',
        ''   ReentrantLock { base: SimpleLock, hold_count }'',
        ''       '' @ utf8 [0x2193] @ '' Deref'',
        ''   FairReentrantLock { base: ReentrantLock }'',
        []]) (\<lambda>_.
     pbind (println (''   reentrant.name = '' @ quoted (reentrant_name reentrant) @
       ''        ('' @ utf8 [0x901a, 0x8fc7] @ '' Deref '' @ utf8 [0x94fe, 0x8bbf, 0x95ee] @
       '')'')) (\<lambda>_.
     pbind (println (''   reentrant.timeout_ms = '' @
       show_nat (unat (timeout_ms (simple_base (reentrant_base reentrant)))) @ ''    ('' @
       utf8 [0x901a, 0x8fc7] @ '' Deref '' @ utf8 [0x94fe, 0x8bbf, 0x95ee] @ '')'')) (\<lambda>_.
     println_all
       [''   reentrant.get_owner_id()     (SimpleLock '' @ utf8 [0x7684, 0x65b9, 0x6cd5] @ '')'',
        ''   reentrant.hold_count         ('' @ utf8 [0x81ea, 0x5df1, 0x7684, 0x5b57, 0x6bb5] @
          '')'',
        []]))))"

definition run_base :: "(demo_locks, unit) meth" where
  "run_base =
     pbind (println_all
       [utf8 [0x3010] @ ''1.5 '' @
         utf8 [0x62bd, 0x8c61, 0x7c7b, 0x81ea, 0x5df1, 0x7684, 0x65b9, 0x6cd5, 0x8c03, 0x7528] @
         '' trait '' @ utf8 [0x65b9, 0x6cd5, 0x3011],
        [],
        ''   impl AbstractLockFields {'',
        ''       fn lock_and_log(&self) where Self: Lock {'',
        ''           self.lock();  // '' @ utf8 [0x8c03, 0x7528] @ '' Lock trait '' @
          utf8 [0x7684, 0x65b9, 0x6cd5],
        ''       }'',
        ''       fn try_lock_with_timeout(&self) where Self: AbstractLock {'',
        ''           self.try_acquire();  // '' @ utf8 [0x8c03, 0x7528] @
          '' AbstractLock trait '' @ utf8 [0x7684, 0x65b9, 0x6cd5],
        ''       }'',
        ''   }'',
        []]) (\<lambda>_.
     pbind (update_self (the_base_update (\<lambda>_. lock_fields_new ''base-lock''))) (\<lambda>_.
     pbind (println (''   base.lock_and_log():'')) (\<lambda>_.
     pbind (on_base lock_and_log) (\<lambda>_.
     pbind (on_base base_unlock) (\<lambda>_.
     pbind (println []) (\<lambda>_.
     pbind (println (''   base.try_lock_with_timeout(1000):'')) (\<lambda>_.
     pbind (on_base (try_lock_with_timeout 1000)) (\<lambda>acquired.
     pbind (println (''   acquired = '' @ show_bool acquired)) (\<lambda>_.
     pbind (on_base base_unlock) (\<lambda>_.
     println []))))))))))"

definition print_template :: "(demo_locks, unit) meth" where
  "print_template =
     println_all
       [utf8 [0x3010] @ ''2. trait '' @ utf8 [0x9ed8, 0x8ba4, 0x5b9e, 0x73b0] @ '' ('' @
         utf8 [0x6a21, 0x677f, 0x65b9, 0x6cd5] @ '')'' @ utf8 [0x3011],
        [],
        ''   trait AbstractLock: Lock {'',
        ''       fn try_acquire(&self) -> bool;  // '' @ utf8 [0x62bd, 0x8c61, 0x65b9, 0x6cd5],
        ''       fn on_acquired(&self) { ... } // '' @ utf8 [0x94a9, 0x5b50, 0x65b9, 0x6cd5],
        ''       fn wait_and_retry(&self) { ... }'',
        ''       fn do_lock(&self) { try_acquire() ? on_acquired() : wait_and_retry(); }'',
        ''   }'',
        [],
        ''   '' @ utf8 [0x5b50, 0x7c7b, 0x53ea, 0x9700, 0x5b9e, 0x73b0] @ '' try_acquire'' @
          utf8 [0xff0c, 0x53ef, 0x9009, 0x8986, 0x76d6] @ '' on_acquired/wait_and_retry'',
        []]"

definition print_chain :: "(demo_locks, unit) meth" where
  "print_chain =
     println_all
       [utf8 [0x3010] @ ''3. '' @ utf8 [0x591a, 0x5c42, 0x62bd, 0x8c61, 0x7c7b] @ '' (trait '' @
         utf8 [0x7ee7, 0x627f, 0x94fe] @ '')'' @ utf8 [0x3011],
        [],
        ''   Lock ('' @ utf8 [0x63a5, 0x53e3] @ '')'',
        ''     '' @ utf8 [0x2191],
        ''   AbstractLock: Lock  ('' @ utf8 [0x62bd, 0x8c61, 0x5c42] @ ''1)'',
        ''     '' @ utf8 [0x2191],
        ''   AbstractReentrantLock: AbstractLock  ('' @ utf8 [0x62bd, 0x8c61, 0x5c42] @ ''2)'',
        ''     '' @ utf8 [0x2191],
        ''   ReentrantLock ('' @ utf8 [0x5177, 0x4f53, 0x7c7b] @ '')'',
        []]"

definition run_locks :: "bool \<Rightarrow> (demo_locks, unit) meth" where
  "run_locks checks =
     pbind (println_all
       [utf8 [0x3010] @ ''4. '' @ utf8 [0x5b9e, 0x9645, 0x8fd0, 0x884c, 0x3011],
        [],
        ''--- SimpleLock ('' @ utf8 [0x53ea, 0x8986, 0x76d6] @
          '' try_acquire, on_acquired) ---'']) (\<lambda>_.
     pbind (update_self (the_simple_update (\<lambda>_. simple_new ''simple-lock''))) (\<lambda>_.
     pbind (on_simple simple_lock) (\<lambda>_.
     pbind (on_simple simple_unlock) (\<lambda>_.
     pbind (println []) (\<lambda>_.
     pbind (println (''--- ReentrantLock ('' @
       utf8 [0x8986, 0x76d6, 0x66f4, 0x591a, 0x65b9, 0x6cd5] @ '') ---'')) (\<lambda>_.
     pbind (update_self (the_reentrant_update (\<lambda>_. reentrant_new ''reentrant-lock''))) (\<lambda>_.
     pbind (on_reentrant_lock (reentrant_lock checks)) (\<lambda>_.
     pbind (on_reentrant_lock (reentrant_lock checks)) (\<lambda>_.
     pbind (on_reentrant_lock reentrant_unlock) (\<lambda>_.
     pbind (println []) (\<lambda>_.
     pbind (println (''--- FairReentrantLock ('' @ utf8 [0x53ea, 0x8986, 0x76d6] @
       '' fair_wait) ---'')) (\<lambda>_.
     pbind (update_self (the_fair_update (\<lambda>_. fair_new ''fair-lock''))) (\<lambda>_.
     pbind (on_fair (fair_lock checks)) (\<lambda>_.
     pbind (on_fair fair_unlock) (\<lambda>_.
     println [])))))))))))))))"

definition run_dyn :: "bool \<Rightarrow> (demo_locks, unit) meth" where
  "run_dyn checks =
     pbind (println_all
       [utf8 [0x3010] @ ''5. '' @ utf8 [0x591a, 0x6001] @ '' ('' @ utf8 [0x4f5c, 0x4e3a] @
         '' &dyn Lock '' @ utf8 [0x4f7f, 0x7528] @ '')'' @ utf8 [0x3011],
        []]) (\<lambda>_.
     use_all checks [RefSimple, RefReentrant, RefFair])"

definition print_summary :: "(demo_locks, unit) meth" where
  "print_summary =
     println_all
       [[CHR 0x0A] @ utf8 [0x2554] @ utf8 (replicate 62 0x2550) @ utf8 [0x2557],
        utf8 [0x2551] @ ''  '' @ utf8 [0x603b, 0x7ed3] @
          ''                                                          '' @ utf8 [0x2551],
        utf8 [0x2560] @ utf8 (replicate 62 0x2550) @ utf8 [0x2563],
        utf8 [0x2551] @ ''  Java                          '' @ utf8 [0x2502] @
          ''  Rust                         '' @ utf8 [0x2551],
        utf8 [0x2560] @ utf8 (replicate 62 0x2550) @ utf8 [0x2563],
        utf8 [0x2551] @ ''  1 '' @ utf8 [0x4e2a, 0x63a5, 0x53e3] @ '' Lock                 '' @
          utf8 [0x2502] @ ''  1 '' @ utf8 [0x4e2a] @ '' trait Lock              '' @ utf8 [0x2551],
        utf8 [0x2551] @ ''  1 '' @ utf8 [0x4e2a, 0x62bd, 0x8c61, 0x7c7b] @
          '' AbstractLock       '' @ utf8 [0x2502] @ ''  1 '' @ utf8 [0x4e2a] @
          '' trait AbstractLock      '' @ utf8 [0x2551],
        utf8 [0x2551] @ ''  1 '' @ utf8 [0x4e2a, 0x62bd, 0x8c61, 0x5b50, 0x7c7b] @
          '' AbstractReentrant'' @ utf8 [0x2502] @ ''  1 '' @ utf8 [0x4e2a] @
          '' trait AbstractReentrant '' @ utf8 [0x2551],
        utf8 [0x2551] @ ''  2 '' @ utf8 [0x4e2a, 0x5177, 0x4f53, 0x7c7b] @
          ''                    '' @ utf8 [0x2502] @ ''  3 '' @ utf8 [0x4e2a] @
          '' struct                  '' @ utf8 [0x2551],
        utf8 [0x2560] @ utf8 (replicate 62 0x2550) @ utf8 [0x2563],
        utf8 [0x2551] @ ''  '' @ utf8 [0x5b57, 0x6bb5, 0x7ee7, 0x627f] @
          ''                      '' @ utf8 [0x2502] @ ''  '' @ utf8 [0x7ec4, 0x5408] @
          '' + Deref                 '' @ utf8 [0x2551],
        utf8 [0x2551] @ ''  '' @ utf8 [0x65b9, 0x6cd5, 0x7ee7, 0x627f] @
          ''                      '' @ utf8 [0x2502] @ ''  trait '' @
          utf8 [0x9ed8, 0x8ba4, 0x5b9e, 0x73b0] @ ''               '' @ utf8 [0x2551],
        utf8 [0x2551] @ ''  super.xxx()                   '' @ utf8 [0x2502] @
          ''  <Parent as Trait>::xxx()     '' @ utf8 [0x2551],
        utf8 [0x2551] @ ''  '' @ utf8 [0x591a, 0x6001, 0x81ea, 0x52a8] @
          ''                      '' @ utf8 [0x2502] @ ''  impl trait ('' @
          utf8 [0x53ea, 0x8986, 0x76d6, 0x9700, 0x8981, 0x7684] @ '')    '' @ utf8 [0x2551],
        utf8 [0x255a] @ utf8 (replicate 62 0x2550) @ utf8 [0x255d]]"

definition hierarchy_main :: "bool \<Rightarrow> (demo_locks, unit) meth" where
  "hierarchy_main checks =
     pbind print_title (\<lambda>_.
     pbind print_fields (\<lambda>_.
     pbind run_base (\<lambda>_.
     pbind print_template (\<lambda>_.
     pbind print_chain (\<lambda>_.
     pbind (run_locks checks) (\<lambda>_.
     pbind (run_dyn checks) (\<lambda>_.
     print_summary)))))))"

section \<open>How the program leaves its locks\<close>

lemma use_reentrant:
  assumes "sint (holds r) \<noteq> i32_max"
  shows "\<exists>out'. use_as_lock checks (DynReentrant r, out) = (Inr (), (DynReentrant r, out'))"
  using assms by (rule use_as_lock_neutral)

lemma use_fair:
  assumes "sint (holds (fair_base f)) \<noteq> i32_max"
  shows "\<exists>out'. use_as_lock checks (DynFair f, out) = (Inr (), (DynFair f, out'))"
  using use_as_lock_neutral(2) [OF assms] by (cases f) simp

lemma use_simple:
  "\<exists>out'. use_as_lock checks (DynSimple l, out) = (Inr (), (DynSimple (l\<lparr>owner_id := []\<rparr>), out'))"
  by (simp add: use_as_lock_def as_dyn_def simple_lock_apply simple_unlock_apply prog_simps Let_def)

lemma run_base_frees:
  "\<exists>out'. run_base (ls, out) = (Inr (), (ls\<lparr>the_base := lock_fields_new ''base-lock''\<rparr>, out'))"
  by (simp add: run_base_def on_base_def lock_and_log_def try_lock_with_timeout_def base_lock_apply
      base_try_acquire_apply base_unlock_def lock_fields_new_def prog_simps)

lemma run_locks_leaves:
  "\<exists>out'. run_locks checks (ls, out) =
     (Inr (), (ls\<lparr>the_simple := simple_new ''simple-lock'',
                the_reentrant := (reentrant_new ''reentrant-lock'')\<lparr>holds := 1\<rparr>,
                the_fair := fair_new ''fair-lock''\<rparr>, out'))"
  by (simp add: run_locks_def on_simple_def on_reentrant_lock_def on_fair_def simple_lock_apply
      simple_unlock_apply reentrant_lock_apply reentrant_unlock_apply fair_lock_on_reentrant
      fair_unlock_def on_reentrant_def reentrant_new_def simple_new_def fair_new_def i32_max_def
      i32_saturating_sub_def i32_min_def prog_simps Let_def)

lemma run_dyn_neutral:
  assumes "sint (holds (the_reentrant ls)) \<noteq> i32_max"
    and "sint (holds (fair_base (the_fair ls))) \<noteq> i32_max"
  shows "\<exists>out'. run_dyn checks (ls, out) =
     (Inr (), (ls\<lparr>the_simple := (the_simple ls)\<lparr>owner_id := []\<rparr>\<rparr>, out'))"
proof -
  obtain t where start: "run_dyn checks (ls, out) =
      use_all checks [RefSimple, RefReentrant, RefFair] (ls, out @ t)"
    by (simp add: run_dyn_def)
  obtain o1 where simple: "use_as_lock checks (DynSimple (the_simple ls), out @ t) =
      (Inr (), (DynSimple ((the_simple ls)\<lparr>owner_id := []\<rparr>), o1))"
    using use_simple by meson
  obtain o2 where reentrant: "use_as_lock checks (DynReentrant (the_reentrant ls), o1) =
      (Inr (), (DynReentrant (the_reentrant ls), o2))"
    using use_reentrant [OF assms(1)] by meson
  obtain o3 where fair: "use_as_lock checks (DynFair (the_fair ls), o2) =
      (Inr (), (DynFair (the_fair ls), o3))"
    using use_fair [OF assms(2)] by meson
  show ?thesis unfolding start by (simp add: simple reentrant fair)
qed

text \<open>
  Whatever the build does on overflow, the program ends: the base lock and the fair lock are
  free, the simple lock has no owner, and the reentrant lock, which is locked twice and
  unlocked once before it is used as \<open>&dyn Lock\<close>, is still held.
\<close>

lemma hierarchy_main_ends:
  "\<exists>ls out. hierarchy_main checks (ls0, []) = (Inr (), (ls, out)) \<and>
     \<not> locked (the_base ls) \<and> owner_id (the_simple ls) = [] \<and>
     holds (the_reentrant ls) = 1 \<and> fair_hold_count (the_fair ls) = 0"
proof -
  define ls1 where "ls1 = ls0\<lparr>the_base := lock_fields_new ''base-lock''\<rparr>"
  define ls2 where "ls2 = ls1\<lparr>the_simple := simple_new ''simple-lock'',
      the_reentrant := (reentrant_new ''reentrant-lock'')\<lparr>holds := 1\<rparr>,
      the_fair := fair_new ''fair-lock''\<rparr>"
  define ls3 where "ls3 = ls2\<lparr>the_simple := (the_simple ls2)\<lparr>owner_id := []\<rparr>\<rparr>"
  have unused: "sint (holds (the_reentrant ls2)) \<noteq> i32_max"
    "sint (holds (fair_base (the_fair ls2))) \<noteq> i32_max"
    by (simp_all add: ls2_def fair_new_def reentrant_new_def i32_max_def)
  obtain t0 where title: "print_title (ls0, []) = (Inr (), (ls0, t0))"
    by (simp add: print_title_def)
  obtain t where fields: "print_fields (ls0, t0) = (Inr (), (ls0, t))"
    by (simp add: print_fields_def Let_def)
  obtain t1 where base: "run_base (ls0, t) = (Inr (), (ls1, t1))"
    unfolding ls1_def using run_base_frees by meson
  obtain u where template: "print_template (ls1, t1) = (Inr (), (ls1, u))"
    by (simp add: print_template_def)
  obtain t2 where chain: "print_chain (ls1, u) = (Inr (), (ls1, t2))"
    by (simp add: print_chain_def)
  obtain t3 where locks: "run_locks checks (ls1, t2) = (Inr (), (ls2, t3))"
    unfolding ls2_def using run_locks_leaves by meson
  obtain t4 where dyn: "run_dyn checks (ls2, t3) = (Inr (), (ls3, t4))"
    unfolding ls3_def using run_dyn_neutral [OF unused] by meson
  obtain t5 where summary: "print_summary (ls3, t4) = (Inr (), (ls3, t5))"
    by (simp add: print_summary_def)
  have "hierarchy_main checks (ls0, []) = (Inr (), (ls3, t5))"
    by (simp add: hierarchy_main_def title fields base template chain locks dyn summary)
  then show ?thesis
    by (simp add: ls1_def ls2_def ls3_def lock_fields_new_def simple_new_def reentrant_new_def
        fair_new_def fair_hold_count_def reentrant_hold_count_def)
qed

end
