(* ===== verification/ExecutorDesign.thy ===== *)
theory ExecutorDesign
  imports Utf8
begin

text \<open>
  The executor design of \<open>examples/command_executor_design.rs\<close>: one trait with a hook
  \<open>dispatch\<close>, two services that implement it (one runs a command, one queues it for a batch)
  and the public operations, written once over the hook. The trait is a table of methods
  (\<open>dispatch_table\<close>), the blanket implementation the definitions that take such a table. A
  printed line is kept as the values it prints. The connection manager, a trait object, is an
  argument; the stub of the example is \<open>stub_manager\<close>.

  The theorem is the point of the design: a batch that is executed sends the service the same
  commands in the same order as direct calls, and answers what they answer. The last section
  is \<open>main\<close> of the example, with its transcript.
\<close>

section \<open>Data\<close>

type_synonym design_value = string
type_synonym design_bytes = string

record design_source =
  source_slot :: u16
  source_read_only :: bool

record design_manager =
  manager_calc_slot :: "string \<Rightarrow> u16"
  manager_script_cache :: bool

record design_codec =
  codec_name :: string

definition string_codec :: design_codec where
  "string_codec = \<lparr>codec_name = ''string''\<rparr>"

datatype design_line =
    ServiceLine bool u16 string "design_value list"
  | BatchLine u16 string
  | InfoLine string bool
  | TextLine string

record design_output =
  printed :: "design_line list"

definition print_line :: "design_line \<Rightarrow> ('e design_output_scheme, unit) prog" where
  "print_line l = (\<lambda>s. (Inr (), s\<lparr>printed := printed s @ [l]\<rparr>))"

lemma print_line_apply [simp, prog_simps]:
  "print_line l s = (Inr (), s\<lparr>printed := printed s @ [l]\<rparr>)"
  by (simp add: print_line_def)

section \<open>The shared state of a service\<close>

record command_inner =
  inner_manager :: design_manager
  inner_retry_attempts :: u32
  inner_track_changes :: bool

definition command_inner_new :: "design_manager \<Rightarrow> command_inner" where
  "command_inner_new m = \<lparr>inner_manager = m, inner_retry_attempts = 3, inner_track_changes = False\<rparr>"

definition node_source_for_key :: "command_inner \<Rightarrow> string \<Rightarrow> design_source" where
  "node_source_for_key i key =
     \<lparr>source_slot = manager_calc_slot (inner_manager i) key, source_read_only = False\<rparr>"

definition inner_encode :: "command_inner \<Rightarrow> design_codec \<Rightarrow> design_value \<Rightarrow> design_bytes" where
  "inner_encode i codec v = v"

section \<open>The hook\<close>

record 's dispatch_table =
  table_inner :: command_inner
  table_dispatch ::
    "design_source \<Rightarrow> design_codec \<Rightarrow> string \<Rightarrow> design_value list \<Rightarrow> ('s, design_value) prog"
  table_eval_cache_active :: bool
  table_is_batch :: bool

text \<open>The provided methods \<open>is_eval_cache_active\<close> and \<open>is_batch\<close>.\<close>

definition default_eval_cache_active :: "command_inner \<Rightarrow> bool" where
  "default_eval_cache_active i = manager_script_cache (inner_manager i)"

definition default_is_batch :: bool where
  "default_is_batch = False"

section \<open>The public operations, written once\<close>

definition design_connection_manager :: "'s dispatch_table \<Rightarrow> design_manager" where
  "design_connection_manager t = inner_manager (table_inner t)"

definition design_is_track_changes :: "'s dispatch_table \<Rightarrow> bool" where
  "design_is_track_changes t = inner_track_changes (table_inner t)"

definition design_encode :: "'s dispatch_table \<Rightarrow> design_codec \<Rightarrow> design_value \<Rightarrow> design_bytes"
where
  "design_encode t codec v = inner_encode (table_inner t) codec v"

definition design_encode_map_key ::
  "'s dispatch_table \<Rightarrow> design_codec \<Rightarrow> design_value \<Rightarrow> design_bytes" where
  "design_encode_map_key t codec v = inner_encode (table_inner t) codec v"

definition design_write_async ::
  "'s dispatch_table \<Rightarrow> string \<Rightarrow> design_codec \<Rightarrow> string \<Rightarrow> design_value list
     \<Rightarrow> ('s, design_value) prog" where
  "design_write_async t key codec cmd args =
     (let source = node_source_for_key (table_inner t) key
      in table_dispatch t source codec cmd args)"

definition design_write_async_no_codec ::
  "'s dispatch_table \<Rightarrow> string \<Rightarrow> string \<Rightarrow> design_value list \<Rightarrow> ('s, design_value) prog" where
  "design_write_async_no_codec t key cmd args = design_write_async t key string_codec cmd args"

definition design_read_async ::
  "'s dispatch_table \<Rightarrow> string \<Rightarrow> design_codec \<Rightarrow> string \<Rightarrow> design_value list
     \<Rightarrow> ('s, design_value) prog" where
  "design_read_async t key codec cmd args =
     (let source = (node_source_for_key (table_inner t) key)\<lparr>source_read_only := True\<rparr>
      in table_dispatch t source codec cmd args)"

definition design_read_async_no_codec ::
  "'s dispatch_table \<Rightarrow> string \<Rightarrow> string \<Rightarrow> design_value list \<Rightarrow> ('s, design_value) prog" where
  "design_read_async_no_codec t key cmd args = design_read_async t key string_codec cmd args"

definition design_eval_write_async ::
  "'s dispatch_table \<Rightarrow> string \<Rightarrow> design_codec \<Rightarrow> string \<Rightarrow> string \<Rightarrow> string list
     \<Rightarrow> design_value list \<Rightarrow> ('s, design_value) prog" where
  "design_eval_write_async t key codec cmd script script_keys args =
     (let source = node_source_for_key (table_inner t) key;
          all_args = [script, show_nat (length script_keys)] @ script_keys @ args
      in table_dispatch t source codec cmd all_args)"

definition design_eval_read_async ::
  "'s dispatch_table \<Rightarrow> string \<Rightarrow> design_codec \<Rightarrow> string \<Rightarrow> string \<Rightarrow> string list
     \<Rightarrow> design_value list \<Rightarrow> ('s, design_value) prog" where
  "design_eval_read_async t key codec cmd script script_keys args =
     (let source = (node_source_for_key (table_inner t) key)\<lparr>source_read_only := True\<rparr>;
          all_args = [script, show_nat (length script_keys)] @ script_keys @ args
      in table_dispatch t source codec cmd all_args)"

section \<open>The direct service\<close>

record design_service =
  service_inner :: command_inner

definition design_service_new :: "design_manager \<Rightarrow> design_service" where
  "design_service_new m = \<lparr>service_inner = command_inner_new m\<rparr>"

definition service_dispatch ::
  "design_source \<Rightarrow> design_codec \<Rightarrow> string \<Rightarrow> design_value list
     \<Rightarrow> ('e design_output_scheme, design_value) prog" where
  "service_dispatch source codec cmd args =
     pbind (print_line (ServiceLine (source_read_only source) (source_slot source) cmd args))
       (\<lambda>_. pret ''OK'')"

definition service_table :: "design_service \<Rightarrow> ('e design_output_scheme) dispatch_table" where
  "service_table sv =
     \<lparr>table_inner = service_inner sv, table_dispatch = service_dispatch,
      table_eval_cache_active = default_eval_cache_active (service_inner sv),
      table_is_batch = default_is_batch\<rparr>"

section \<open>The batch service\<close>

record design_entry =
  entry_source :: design_source
  entry_cmd :: string
  entry_args :: "design_value list"

text \<open>The queue behind the mutex of \<open>CommandBatchService\<close>, beside what is printed.\<close>

record design_state = design_output +
  queue :: "design_entry list"

definition design_batch_new :: "design_line list \<Rightarrow> design_state" where
  "design_batch_new out = \<lparr>printed = out, queue = []\<rparr>"

definition batch_dispatch ::
  "design_source \<Rightarrow> design_codec \<Rightarrow> string \<Rightarrow> design_value list
     \<Rightarrow> (design_state, design_value) prog" where
  "batch_dispatch source codec cmd args =
     pbind (print_line (BatchLine (source_slot source) cmd)) (\<lambda>_ s.
       (Inr ''(queued)'',
        s\<lparr>queue := queue s @ [\<lparr>entry_source = source, entry_cmd = cmd, entry_args = args\<rparr>]\<rparr>))"

definition batch_table :: "design_service \<Rightarrow> design_state dispatch_table" where
  "batch_table base =
     \<lparr>table_inner = service_inner base, table_dispatch = batch_dispatch,
      table_eval_cache_active = False, table_is_batch = True\<rparr>"

fun run_entries ::
  "design_entry list \<Rightarrow> design_value list \<Rightarrow> (design_state, design_value list) prog" where
  "run_entries [] responses = pret responses"
| "run_entries (e # es) responses =
     pbind (service_dispatch (entry_source e) string_codec (entry_cmd e) (entry_args e))
       (\<lambda>v. run_entries es (responses @ [v]))"

definition design_execute_async :: "(design_state, design_value list) prog" where
  "design_execute_async = (\<lambda>s. run_entries (queue s) [] (s\<lparr>queue := []\<rparr>))"

section \<open>The stub and the generic caller of the example\<close>

definition stub_calc_slot :: "string \<Rightarrow> u16" where
  "stub_calc_slot key = foldl (\<lambda>acc c. acc + of_nat (of_char c)) 0 key mod 16384"

definition stub_manager :: design_manager where
  "stub_manager = \<lparr>manager_calc_slot = stub_calc_slot, manager_script_cache = True\<rparr>"

definition show_info ::
  "string \<Rightarrow> ('e design_output_scheme) dispatch_table
     \<Rightarrow> ('e design_output_scheme, unit) prog" where
  "show_info name t =
     pbind (print_line (InfoLine name (design_is_track_changes t))) (\<lambda>_.
     pbind (design_write_async_no_codec t ''poly:key'' ''SET'' [''v'']) (\<lambda>_. pret ()))"

section \<open>The contract of the hook\<close>

text \<open>A call of a public operation, and the command that reaches the hook for it.\<close>

datatype design_call =
    WriteCall string design_codec string "design_value list"
  | WriteNoCodecCall string string "design_value list"
  | ReadCall string design_codec string "design_value list"
  | ReadNoCodecCall string string "design_value list"
  | EvalWriteCall string design_codec string string "string list" "design_value list"
  | EvalReadCall string design_codec string string "string list" "design_value list"

fun run_call :: "'s dispatch_table \<Rightarrow> design_call \<Rightarrow> ('s, design_value) prog" where
  "run_call t (WriteCall key codec cmd args) = design_write_async t key codec cmd args"
| "run_call t (WriteNoCodecCall key cmd args) = design_write_async_no_codec t key cmd args"
| "run_call t (ReadCall key codec cmd args) = design_read_async t key codec cmd args"
| "run_call t (ReadNoCodecCall key cmd args) = design_read_async_no_codec t key cmd args"
| "run_call t (EvalWriteCall key codec cmd script keys args) =
     design_eval_write_async t key codec cmd script keys args"
| "run_call t (EvalReadCall key codec cmd script keys args) =
     design_eval_read_async t key codec cmd script keys args"

fun run_design_calls ::
  "'s dispatch_table \<Rightarrow> design_call list \<Rightarrow> ('s, design_value list) prog" where
  "run_design_calls t [] = pret []"
| "run_design_calls t (c # cs) =
     pbind (run_call t c) (\<lambda>v. pbind (run_design_calls t cs) (\<lambda>vs. pret (v # vs)))"

text \<open>The command of a call, as a queue entry, and the codec it comes with.\<close>

definition keyed_entry ::
  "command_inner \<Rightarrow> bool \<Rightarrow> string \<Rightarrow> string \<Rightarrow> design_value list \<Rightarrow> design_entry" where
  "keyed_entry i ro key cmd args =
     \<lparr>entry_source = \<lparr>source_slot = manager_calc_slot (inner_manager i) key, source_read_only = ro\<rparr>,
      entry_cmd = cmd, entry_args = args\<rparr>"

fun call_entry :: "command_inner \<Rightarrow> design_call \<Rightarrow> design_entry" where
  "call_entry i (WriteCall key codec cmd args) = keyed_entry i False key cmd args"
| "call_entry i (WriteNoCodecCall key cmd args) = keyed_entry i False key cmd args"
| "call_entry i (ReadCall key codec cmd args) = keyed_entry i True key cmd args"
| "call_entry i (ReadNoCodecCall key cmd args) = keyed_entry i True key cmd args"
| "call_entry i (EvalWriteCall key codec cmd script keys args) =
     keyed_entry i False key cmd (script # show_nat (length keys) # keys @ args)"
| "call_entry i (EvalReadCall key codec cmd script keys args) =
     keyed_entry i True key cmd (script # show_nat (length keys) # keys @ args)"

fun call_codec :: "design_call \<Rightarrow> design_codec" where
  "call_codec (WriteCall key codec cmd args) = codec"
| "call_codec (WriteNoCodecCall key cmd args) = string_codec"
| "call_codec (ReadCall key codec cmd args) = codec"
| "call_codec (ReadNoCodecCall key cmd args) = string_codec"
| "call_codec (EvalWriteCall key codec cmd script keys args) = codec"
| "call_codec (EvalReadCall key codec cmd script keys args) = codec"

lemma run_call_dispatches:
  "run_call t c =
     (let e = call_entry (table_inner t) c
      in table_dispatch t (entry_source e) (call_codec c) (entry_cmd e) (entry_args e))"
  by (cases c)
    (simp_all add: design_write_async_def design_write_async_no_codec_def design_read_async_def
       design_read_async_no_codec_def design_eval_write_async_def design_eval_read_async_def
       node_source_for_key_def keyed_entry_def Let_def)

text \<open>
  A hook that always answers with the same value and leaves the state that an effect of the
  command describes: both services have one.
\<close>

locale answering_dispatch =
  fixes hook :: "design_source \<Rightarrow> design_codec \<Rightarrow> string \<Rightarrow> design_value list
                   \<Rightarrow> ('s, design_value) prog"
    and answer :: design_value
    and effect :: "design_entry \<Rightarrow> 's \<Rightarrow> 's"
  assumes hook_answers:
    "hook (entry_source e) codec (entry_cmd e) (entry_args e) s = (Inr answer, effect e s)"
begin

lemma calls_answered:
  assumes "table_dispatch t = hook"
  shows "run_design_calls t cs s =
    (Inr (replicate (length cs) answer), fold effect (map (call_entry (table_inner t)) cs) s)"
  using assms
  by (induction cs arbitrary: s) (simp_all add: run_call_dispatches hook_answers Let_def)

end

definition service_effect :: "design_entry \<Rightarrow> 'e design_output_scheme \<Rightarrow> 'e design_output_scheme"
where
  "service_effect e s = s\<lparr>printed := printed s @
     [ServiceLine (source_read_only (entry_source e)) (source_slot (entry_source e))
        (entry_cmd e) (entry_args e)]\<rparr>"

definition batch_effect :: "design_entry \<Rightarrow> design_state \<Rightarrow> design_state" where
  "batch_effect e s =
     s\<lparr>printed := printed s @ [BatchLine (source_slot (entry_source e)) (entry_cmd e)],
       queue := queue s @ [e]\<rparr>"

interpretation direct: answering_dispatch service_dispatch "''OK''" service_effect
  by unfold_locales (simp add: service_dispatch_def service_effect_def)

interpretation queued: answering_dispatch batch_dispatch "''(queued)''" batch_effect
  by unfold_locales (simp add: batch_dispatch_def batch_effect_def)

lemma run_entries_services:
  "run_entries es rs s =
     (Inr (rs @ replicate (length es) ''OK''), fold service_effect es s)"
  by (induction es arbitrary: rs s)
    (simp_all add: direct.hook_answers replicate_app_Cons_same)

lemma fold_batch_effect:
  "fold batch_effect es s =
     s\<lparr>printed := printed s @ map (\<lambda>e. BatchLine (source_slot (entry_source e)) (entry_cmd e)) es,
       queue := queue s @ es\<rparr>"
  by (induction es arbitrary: s) (simp_all add: batch_effect_def)

fun service_line :: "design_line \<Rightarrow> bool" where
  "service_line (ServiceLine ro sl cmd args) = True"
| "service_line l = False"

definition service_lines :: "'e design_output_scheme \<Rightarrow> design_line list" where
  "service_lines s = filter service_line (printed s)"

lemma service_lines_fold:
  "service_lines (fold service_effect es s) =
     service_lines s @
     map (\<lambda>e. ServiceLine (source_read_only (entry_source e)) (source_slot (entry_source e))
               (entry_cmd e) (entry_args e)) es"
  by (induction es arbitrary: s) (simp_all add: service_lines_def service_effect_def)

lemma queue_fold_service [simp]: "queue (fold service_effect es s) = queue s"
  by (induction es arbitrary: s) (simp_all add: service_effect_def)

section \<open>A batch is direct calls, later\<close>

text \<open>
  Any calls of the public operations, made on the batch service with an empty queue and then
  executed, send the direct service what the same calls made on it directly send, in the same
  order, and execution returns the values that the direct calls return; until then every call
  is answered with the word that it is queued, and afterwards the queue is empty.
\<close>

theorem design_batch_refines:
  assumes "queue s = []"
  shows "\<exists>rs s1 s2.
     run_design_calls (service_table sv) cs s = (Inr rs, s1) \<and>
     pbind (run_design_calls (batch_table sv) cs)
       (\<lambda>qs. pbind design_execute_async (\<lambda>rs. pret (qs, rs))) s =
       (Inr (replicate (length cs) ''(queued)'', rs), s2) \<and>
     service_lines s2 = service_lines s1 \<and> queue s2 = []"
proof -
  let ?es = "map (call_entry (service_inner sv)) cs"
  let ?q = "fold batch_effect ?es s"
  have direct: "run_design_calls (service_table sv) cs s =
      (Inr (replicate (length cs) ''OK''), fold service_effect ?es s)"
    by (subst direct.calls_answered) (simp_all add: service_table_def)
  have queued: "run_design_calls (batch_table sv) cs s =
      (Inr (replicate (length cs) ''(queued)''), ?q)"
    by (subst queued.calls_answered) (simp_all add: batch_table_def)
  have "queue ?q = ?es" using assms by (simp add: fold_batch_effect)
  then have "design_execute_async ?q =
      (Inr (replicate (length cs) ''OK''), fold service_effect ?es (?q\<lparr>queue := []\<rparr>))"
    by (simp add: design_execute_async_def run_entries_services)
  moreover have "service_lines (?q\<lparr>queue := []\<rparr>) = service_lines s"
    by (simp add: fold_batch_effect service_lines_def filter_empty_conv)
  ultimately show ?thesis
    using direct queued by (simp add: service_lines_fold)
qed

theorem design_batch_refines_witness:
  "\<exists>rs s1 s2.
     run_design_calls (service_table (design_service_new stub_manager))
       [WriteNoCodecCall ''a'' ''SET'' [''1''], ReadNoCodecCall ''a'' ''GET'' []]
       (design_batch_new []) = (Inr rs, s1) \<and>
     pbind (run_design_calls (batch_table (design_service_new stub_manager))
              [WriteNoCodecCall ''a'' ''SET'' [''1''], ReadNoCodecCall ''a'' ''GET'' []])
       (\<lambda>qs. pbind design_execute_async (\<lambda>rs. pret (qs, rs))) (design_batch_new []) =
       (Inr ([''(queued)'', ''(queued)''], rs), s2) \<and>
     service_lines s2 = service_lines s1 \<and> queue s2 = []"
  using design_batch_refines [of "design_batch_new []" "design_service_new stub_manager"
      "[WriteNoCodecCall ''a'' ''SET'' [''1''], ReadNoCodecCall ''a'' ''GET'' []]"]
  by (simp add: design_batch_new_def numeral_2_eq_2)

text \<open>The slot of the stub is the sum of the bytes modulo the number of slots, wrap or not.\<close>

lemma unat_stub_sum:
  "unat (foldl (\<lambda>acc c. acc + of_nat (of_char c)) a key :: u16) =
     (unat a + (\<Sum>c\<leftarrow>key. of_char c)) mod 65536"
proof (induction key arbitrary: a)
  case Nil
  have "unat a < 65536" using unsigned_less [of a] by simp
  then show ?case by simp
next
  case (Cons c key)
  have "unat (a + of_nat (of_char c)) = (unat a + of_char c) mod 65536"
    by (simp add: unat_word_ariths unat_of_nat mod_simps)
  with Cons show ?case by (simp add: mod_simps add.assoc)
qed

theorem stub_calc_slot_sum:
  "unat (stub_calc_slot key) = (\<Sum>c\<leftarrow>key. of_char c) mod 16384"
  by (simp add: stub_calc_slot_def unat_mod unat_stub_sum mod_mod_cancel)

section \<open>The main function of the example\<close>

text \<open>
  A line without a value is a \<open>TextLine\<close>, and so is one whose value is a flag, a number or a
  vector of bytes printed inside a text. A batch that is created starts with a queue of its
  own; one that goes out of scope without being executed leaves nothing.
\<close>

definition say :: "string \<Rightarrow> ('e design_output_scheme, unit) prog" where
  "say t = print_line (TextLine t)"

fun show_bytes :: "design_bytes \<Rightarrow> string" where
  "show_bytes [] = []"
| "show_bytes [c] = show_nat (of_char c)"
| "show_bytes (c # cs) = show_nat (of_char c) @ '', '' @ show_bytes cs"

definition open_batch :: "(design_state, unit) prog" where
  "open_batch = (\<lambda>s. (Inr (), s\<lparr>queue := []\<rparr>))"

fun print_responses :: "nat \<Rightarrow> design_value list \<Rightarrow> ('e design_output_scheme, unit) prog" where
  "print_responses i [] = pret ()"
| "print_responses i (v # vs) =
     pbind (say (''  ['' @ show_nat i @ ''] = '' @ v)) (\<lambda>_. print_responses (Suc i) vs)"

definition main_direct :: "design_service \<Rightarrow> ('e design_output_scheme, unit) prog" where
  "main_direct service =
     (let t = service_table service; codec = string_codec in
     pbind (say (''=== CommandAsyncService'' @
                 utf8 [0xff08, 0x76f4, 0x63a5, 0x6267, 0x884c, 0xff09] @ ''==='')) (\<lambda>_.
     pbind (design_write_async t ''lock:foo'' codec ''SET'' [''val'', ''PX'', ''30000'']) (\<lambda>_.
     pbind (design_read_async t ''lock:foo'' codec ''GET'' []) (\<lambda>_.
     pbind (design_eval_write_async t ''lock:foo'' codec ''EVAL''
              ''return redis.call('SET',KEYS[1],ARGV[1])'' [''lock:foo''] [''1'']) (\<lambda>_.
     pbind (say (''is_batch         = '' @ show_bool (table_is_batch t))) (\<lambda>_.
     pbind (say (''is_eval_cache    = '' @ show_bool (table_eval_cache_active t))) (\<lambda>_.
     pbind (say (''is_track_changes = '' @ show_bool (design_is_track_changes t))) (\<lambda>_.
     say (''encode           = ['' @ show_bytes (design_encode t string_codec ''hi'') @ '']'')
     ))))))))"

definition main_batch :: "design_service \<Rightarrow> (design_state, unit) prog" where
  "main_batch service =
     (let t = batch_table service; codec = string_codec in
     pbind (say (''=== CommandBatchService'' @
                 utf8 [0xff08, 0x7f13, 0x51b2, 0x540e, 0x6279, 0x91cf, 0x6267, 0x884c, 0xff09] @
                 ''==='')) (\<lambda>_.
     pbind open_batch (\<lambda>_.
     pbind (design_write_async t ''key:1'' codec ''SET'' [''a'']) (\<lambda>_.
     pbind (design_write_async t ''key:2'' codec ''SET'' [''b'']) (\<lambda>_.
     pbind (design_read_async t ''key:1'' codec ''GET'' []) (\<lambda>_.
     pbind (design_eval_write_async t ''lock:bar'' codec ''EVAL''
              ''return redis.call('SET',KEYS[1],ARGV[1])'' [''lock:bar''] [''1'']) (\<lambda>_.
     pbind (say (''is_batch         = '' @ show_bool (table_is_batch t))) (\<lambda>_.
     pbind (say (''is_eval_cache    = '' @ show_bool (table_eval_cache_active t))) (\<lambda>_.
     pbind (say (''is_track_changes = '' @ show_bool (design_is_track_changes t))) (\<lambda>_.
     pbind (say []) (\<lambda>_.
     pbind (say (''--- execute_async() '' @
                 utf8 [0x89e6, 0x53d1, 0x771f, 0x6b63, 0x6267, 0x884c] @ '' ---'')) (\<lambda>_.
     pbind design_execute_async (\<lambda>responses.
     pbind (say (''BatchResult: '' @ show_nat (length responses) @ '' responses'')) (\<lambda>_.
     print_responses 0 responses))))))))))))))"

definition design_main :: "(design_state, unit) prog" where
  "design_main =
     (let service = design_service_new stub_manager in
     pbind (main_direct service) (\<lambda>_.
     pbind (say []) (\<lambda>_.
     pbind (main_batch service) (\<lambda>_.
     pbind (say []) (\<lambda>_.
     pbind (say (''=== '' @ utf8 [0x6cdb, 0x578b, 0x591a, 0x6001, 0x8c03, 0x7528] @ '' ==='')) (\<lambda>_.
     pbind (show_info ''CommandAsyncService'' (service_table service)) (\<lambda>_.
     pbind open_batch (\<lambda>_.
     show_info ''CommandBatchService'' (batch_table service)))))))))"

lemma stub_slots:
  "stub_calc_slot ''lock:foo'' = 807" "stub_calc_slot ''key:1'' = 436"
  "stub_calc_slot ''key:2'' = 437" "stub_calc_slot ''lock:bar'' = 792"
  "stub_calc_slot ''poly:key'' = 839"
  by (simp_all add: stub_calc_slot_def)

lemma small_numbers:
  "show_nat 0 = ''0''" "show_nat (Suc 0) = ''1''" "show_nat (Suc (Suc 0)) = ''2''"
  "show_nat (Suc (Suc (Suc 0))) = ''3''" "show_nat (Suc (Suc (Suc (Suc 0)))) = ''4''"
  "show_nat 104 = ''104''" "show_nat 105 = ''105''"
  by (simp_all add: digit_chars show_nat.simps [of 0] show_nat.simps [of "Suc m" for m] show_nat.simps [of 1]
      show_nat.simps [of 10] show_nat.simps [of 104] show_nat.simps [of 105])

lemmas operation_defs = design_write_async_def design_write_async_no_codec_def
  design_read_async_def design_eval_write_async_def design_is_track_changes_def design_encode_def
  inner_encode_def node_source_for_key_def command_inner_new_def

text \<open>
  The transcript: the direct calls are sent at once, those of the batch in the order of the
  calls when it is executed, and the write that \<open>show_info\<close> makes on the second batch is
  queued and never sent.
\<close>

lemma main_direct_lines:
  "main_direct (design_service_new stub_manager) s =
     (Inr (), s\<lparr>printed := printed s @
       [TextLine (''=== CommandAsyncService'' @
          utf8 [0xff08, 0x76f4, 0x63a5, 0x6267, 0x884c, 0xff09] @ ''===''),
        ServiceLine False 807 ''SET'' [''val'', ''PX'', ''30000''],
        ServiceLine True 807 ''GET'' [],
        ServiceLine False 807 ''EVAL''
          [''return redis.call('SET',KEYS[1],ARGV[1])'', ''1'', ''lock:foo'', ''1''],
        TextLine ''is_batch         = false'', TextLine ''is_eval_cache    = true'',
        TextLine ''is_track_changes = false'', TextLine ''encode           = [104, 105]'']\<rparr>)"
  by (simp add: main_direct_def operation_defs service_table_def service_dispatch_def
      design_service_new_def stub_manager_def stub_slots small_numbers say_def show_bool_def
      default_is_batch_def default_eval_cache_active_def Let_def)

lemma main_batch_lines:
  "main_batch (design_service_new stub_manager) s =
     (Inr (), s\<lparr>printed := printed s @
       [TextLine (''=== CommandBatchService'' @
          utf8 [0xff08, 0x7f13, 0x51b2, 0x540e, 0x6279, 0x91cf, 0x6267, 0x884c, 0xff09] @
          ''===''),
        BatchLine 436 ''SET'', BatchLine 437 ''SET'', BatchLine 436 ''GET'', BatchLine 792 ''EVAL'',
        TextLine ''is_batch         = true'', TextLine ''is_eval_cache    = false'',
        TextLine ''is_track_changes = false'', TextLine [],
        TextLine (''--- execute_async() '' @
          utf8 [0x89e6, 0x53d1, 0x771f, 0x6b63, 0x6267, 0x884c] @ '' ---''),
        ServiceLine False 436 ''SET'' [''a''], ServiceLine False 437 ''SET'' [''b''],
        ServiceLine True 436 ''GET'' [],
        ServiceLine False 792 ''EVAL''
          [''return redis.call('SET',KEYS[1],ARGV[1])'', ''1'', ''lock:bar'', ''1''],
        TextLine ''BatchResult: 4 responses'', TextLine ''  [0] = OK'', TextLine ''  [1] = OK'',
        TextLine ''  [2] = OK'', TextLine ''  [3] = OK''], queue := []\<rparr>)"
  by (simp add: main_batch_def operation_defs batch_table_def batch_dispatch_def open_batch_def
      design_execute_async_def service_dispatch_def design_service_new_def stub_manager_def
      stub_slots small_numbers say_def show_bool_def Let_def)

lemma main_generic_lines:
  "pbind (show_info ''CommandAsyncService'' (service_table (design_service_new stub_manager)))
     (\<lambda>_. pbind open_batch (\<lambda>_.
       show_info ''CommandBatchService'' (batch_table (design_service_new stub_manager)))) s =
     (Inr (), s\<lparr>printed := printed s @
       [InfoLine ''CommandAsyncService'' False, ServiceLine False 839 ''SET'' [''v''],
        InfoLine ''CommandBatchService'' False, BatchLine 839 ''SET''],
      queue := [\<lparr>entry_source = \<lparr>source_slot = 839, source_read_only = False\<rparr>,
                 entry_cmd = ''SET'', entry_args = [''v'']\<rparr>]\<rparr>)"
  by (simp add: show_info_def operation_defs service_table_def batch_table_def batch_dispatch_def
      service_dispatch_def open_batch_def design_service_new_def stub_manager_def stub_slots)

text \<open>The requests of the program, in order.\<close>

theorem design_main_sends:
  "service_lines (snd (design_main (design_batch_new []))) =
     [ServiceLine False 807 ''SET'' [''val'', ''PX'', ''30000''], ServiceLine True 807 ''GET'' [],
      ServiceLine False 807 ''EVAL''
        [''return redis.call('SET',KEYS[1],ARGV[1])'', ''1'', ''lock:foo'', ''1''],
      ServiceLine False 436 ''SET'' [''a''], ServiceLine False 437 ''SET'' [''b''],
      ServiceLine True 436 ''GET'' [],
      ServiceLine False 792 ''EVAL''
        [''return redis.call('SET',KEYS[1],ARGV[1])'', ''1'', ''lock:bar'', ''1''],
      ServiceLine False 839 ''SET'' [''v'']]"
  by (simp add: design_main_def design_batch_new_def main_direct_lines main_batch_lines
      main_generic_lines say_def service_lines_def Let_def)

end
