(* ===== verification/TraitDesigns.thy ===== *)
theory TraitDesigns
  imports Utf8
begin

text \<open>
  Three designs of one class hierarchy, from \<open>examples/trait_inheritance_no_blanket.rs\<close>,
  \<open>trait_inheritance.rs\<close> and \<open>trait_inheritance_deref_only.rs\<close>: an object with a name, an
  expirable object, a base lock, a lock and a fair lock. The first writes every trait
  implementation out, the second derives the upper traits from the lowest one, the third has
  no traits and leaves everything to dereferencing. A method does not change its object: it is
  a function to its result, or to the lines it prints. A provided method of a trait takes the
  required methods that it calls as arguments; the fields of unit type are left out.

  What is shown: the designs agree on every call that they share, a fair lock behaves as a
  lock except for the overrides, and the override of \<open>expire\<close> is seen through the traits and
  is not seen through dereferencing.
\<close>

definition numbered :: "u64 \<Rightarrow> string" where
  "numbered n = show_nat (unat n)"

section \<open>Provided methods of the traits\<close>

record object_inner =
  oi_name :: string
  oi_codec :: string

definition trait_get_name :: "('o \<Rightarrow> object_inner) \<Rightarrow> 'o \<Rightarrow> string" where
  "trait_get_name object_inner self = oi_name (object_inner self)"

definition trait_expire :: "('o \<Rightarrow> string) \<Rightarrow> 'o \<Rightarrow> u64 \<Rightarrow> string list" where
  "trait_expire get_name self seconds =
     [''expire key='' @ get_name self @ '' seconds='' @ numbered seconds]"

section \<open>All implementations written out\<close>

record expirable_inner =
  ei_inner :: object_inner

record base_lock_inner =
  bi_inner :: expirable_inner
  bi_id :: string
  bi_entry_name :: string

record redisson_lock_inner =
  li_inner :: base_lock_inner
  li_internal_lock_lease_time :: u64

record fair_lock_inner =
  fi_inner :: redisson_lock_inner
  fi_thread_wait_time :: u64
  fi_threads_queue_name :: string
  fi_timeout_set_name :: string

text \<open>The provided methods of \<open>RedissonBaseLockLike\<close> and of the two traits below it.\<close>

definition trait_get_entry_name :: "('o \<Rightarrow> base_lock_inner) \<Rightarrow> 'o \<Rightarrow> string" where
  "trait_get_entry_name lock_inner self = bi_entry_name (lock_inner self)"

definition trait_get_lock_name :: "('o \<Rightarrow> base_lock_inner) \<Rightarrow> 'o \<Rightarrow> u64 \<Rightarrow> string" where
  "trait_get_lock_name lock_inner self thread_id =
     bi_id (lock_inner self) @ '':'' @ numbered thread_id"

definition trait_schedule_renewal :: "('o \<Rightarrow> string) \<Rightarrow> 'o \<Rightarrow> u64 \<Rightarrow> string list" where
  "trait_schedule_renewal get_entry_name self thread_id =
     [''renewal scheduled: lock='' @ get_entry_name self @ '' thread='' @ numbered thread_id]"

definition trait_get_lease_time :: "('o \<Rightarrow> redisson_lock_inner) \<Rightarrow> 'o \<Rightarrow> u64" where
  "trait_get_lease_time redisson_lock_inner self =
     li_internal_lock_lease_time (redisson_lock_inner self)"

definition trait_get_queue_name :: "('o \<Rightarrow> fair_lock_inner) \<Rightarrow> 'o \<Rightarrow> string" where
  "trait_get_queue_name fair_lock_inner self = fi_threads_queue_name (fair_lock_inner self)"

text \<open>\<open>RedissonLock\<close>: the accessors follow the chain of \<open>Deref\<close>.\<close>

record trait_lock =
  tl_inner :: redisson_lock_inner

definition trait_lock_new :: "string \<Rightarrow> string \<Rightarrow> trait_lock" where
  "trait_lock_new name i =
     \<lparr>tl_inner =
        \<lparr>li_inner =
           \<lparr>bi_inner = \<lparr>ei_inner = \<lparr>oi_name = name, oi_codec = ''default''\<rparr>\<rparr>,
            bi_id = i, bi_entry_name = i @ '':'' @ name\<rparr>,
         li_internal_lock_lease_time = 30000\<rparr>\<rparr>"

definition tl_lock_inner :: "trait_lock \<Rightarrow> base_lock_inner" where
  "tl_lock_inner self = li_inner (tl_inner self)"

definition tl_expirable_inner :: "trait_lock \<Rightarrow> expirable_inner" where
  "tl_expirable_inner self = bi_inner (li_inner (tl_inner self))"

definition tl_object_inner :: "trait_lock \<Rightarrow> object_inner" where
  "tl_object_inner self = ei_inner (bi_inner (li_inner (tl_inner self)))"

definition tl_get_name :: "trait_lock \<Rightarrow> string" where
  "tl_get_name = trait_get_name tl_object_inner"

definition tl_try_lock :: "trait_lock \<Rightarrow> u64 \<Rightarrow> bool \<times> string list" where
  "tl_try_lock self thread_id =
     (True, [''RedissonLock: try lock key='' @ tl_get_name self @ '' lock_name='' @
               trait_get_lock_name tl_lock_inner self thread_id])"

text \<open>\<open>RedissonFairLock\<close>, with its override of \<open>expire\<close>.\<close>

record trait_fair_lock =
  tf_inner :: fair_lock_inner

definition trait_fair_lock_new :: "string \<Rightarrow> string \<Rightarrow> trait_fair_lock" where
  "trait_fair_lock_new name i =
     \<lparr>tf_inner =
        \<lparr>fi_inner =
           \<lparr>li_inner =
              \<lparr>bi_inner = \<lparr>ei_inner = \<lparr>oi_name = name, oi_codec = ''default''\<rparr>\<rparr>,
               bi_id = i, bi_entry_name = i @ '':'' @ name\<rparr>,
            li_internal_lock_lease_time = 30000\<rparr>,
         fi_thread_wait_time = 5000,
         fi_threads_queue_name = ''redisson_lock_queue:'' @ name,
         fi_timeout_set_name = ''redisson_lock_timeout:'' @ name\<rparr>\<rparr>"

definition tf_redisson_lock_inner :: "trait_fair_lock \<Rightarrow> redisson_lock_inner" where
  "tf_redisson_lock_inner self = fi_inner (tf_inner self)"

definition tf_lock_inner :: "trait_fair_lock \<Rightarrow> base_lock_inner" where
  "tf_lock_inner self = li_inner (fi_inner (tf_inner self))"

definition tf_expirable_inner :: "trait_fair_lock \<Rightarrow> expirable_inner" where
  "tf_expirable_inner self = bi_inner (li_inner (fi_inner (tf_inner self)))"

definition tf_object_inner :: "trait_fair_lock \<Rightarrow> object_inner" where
  "tf_object_inner self = ei_inner (bi_inner (li_inner (fi_inner (tf_inner self))))"

definition tf_get_name :: "trait_fair_lock \<Rightarrow> string" where
  "tf_get_name = trait_get_name tf_object_inner"

definition tf_expire :: "trait_fair_lock \<Rightarrow> u64 \<Rightarrow> string list" where
  "tf_expire self seconds =
     [''RedissonFairLock: expire key='' @ tf_get_name self @ '' seconds='' @ numbered seconds @
      '' (fair override)'']"

definition tf_try_lock :: "trait_fair_lock \<Rightarrow> u64 \<Rightarrow> bool \<times> string list" where
  "tf_try_lock self thread_id =
     (True, [''RedissonFairLock: fair try lock key='' @ tf_get_name self @ '' lock_name='' @
               trait_get_lock_name tf_lock_inner self thread_id @ '' queue='' @
               trait_get_queue_name tf_inner self])"

definition no_blanket_main :: "string list" where
  "no_blanket_main =
     (let lock = trait_lock_new ''my-lock'' ''client-1'';
          fair = trait_fair_lock_new ''my-fair-lock'' ''client-1''
      in [''name: '' @ tl_get_name lock] @
         [''lease_time: '' @ numbered (trait_get_lease_time tl_inner lock)] @
         trait_expire tl_get_name lock 30 @
         [''entry_name: '' @ trait_get_entry_name tl_lock_inner lock] @
         [''lock_name: '' @ trait_get_lock_name tl_lock_inner lock 42] @
         trait_schedule_renewal (trait_get_entry_name tl_lock_inner) lock 42 @
         snd (tl_try_lock lock 42) @
         [''---''] @
         [''name: '' @ tf_get_name fair] @
         [''lease_time: '' @ numbered (trait_get_lease_time tf_redisson_lock_inner fair)] @
         [''queue: '' @ trait_get_queue_name tf_inner fair] @
         tf_expire fair 30 @
         trait_schedule_renewal (trait_get_entry_name tf_lock_inner) fair 42 @
         snd (tf_try_lock fair 42))"

section \<open>Upper traits derived\<close>

text \<open>
  In \<open>trait_inheritance.rs\<close> both concrete locks hold a base lock, and the accessors of the
  upper traits are those of the trait below with one field more.
\<close>

record blanket_lock =
  bl_inner :: base_lock_inner

definition blanket_lock_new :: "string \<Rightarrow> string \<Rightarrow> blanket_lock" where
  "blanket_lock_new name i =
     \<lparr>bl_inner =
        \<lparr>bi_inner = \<lparr>ei_inner = \<lparr>oi_name = name, oi_codec = ''default''\<rparr>\<rparr>,
         bi_id = i, bi_entry_name = i @ '':'' @ name\<rparr>\<rparr>"

definition blanket_expirable_inner :: "('o \<Rightarrow> base_lock_inner) \<Rightarrow> 'o \<Rightarrow> expirable_inner" where
  "blanket_expirable_inner lock_inner self = bi_inner (lock_inner self)"

definition blanket_object_inner :: "('o \<Rightarrow> expirable_inner) \<Rightarrow> 'o \<Rightarrow> object_inner" where
  "blanket_object_inner expirable_inner self = ei_inner (expirable_inner self)"

definition blanket_get_name :: "('o \<Rightarrow> base_lock_inner) \<Rightarrow> 'o \<Rightarrow> string" where
  "blanket_get_name lock_inner =
     trait_get_name (blanket_object_inner (blanket_expirable_inner lock_inner))"

definition bl_try_lock :: "blanket_lock \<Rightarrow> u64 \<Rightarrow> bool \<times> string list" where
  "bl_try_lock self thread_id =
     (True, [''RedissonLock: try lock key='' @ blanket_get_name bl_inner self @ '' lock_name='' @
               trait_get_lock_name bl_inner self thread_id])"

record blanket_fair_lock =
  bf_inner :: base_lock_inner

definition blanket_fair_lock_new :: "string \<Rightarrow> string \<Rightarrow> blanket_fair_lock" where
  "blanket_fair_lock_new name i =
     \<lparr>bf_inner =
        \<lparr>bi_inner = \<lparr>ei_inner = \<lparr>oi_name = name, oi_codec = ''default''\<rparr>\<rparr>,
         bi_id = i, bi_entry_name = i @ '':'' @ name\<rparr>\<rparr>"

definition bf_try_lock :: "blanket_fair_lock \<Rightarrow> u64 \<Rightarrow> bool \<times> string list" where
  "bf_try_lock self thread_id =
     (True, [''RedissonFairLock: fair try lock key='' @ blanket_get_name bf_inner self @
               '' lock_name='' @ trait_get_lock_name bf_inner self thread_id])"

definition blanket_main :: "string list" where
  "blanket_main =
     (let lock = blanket_lock_new ''my-lock'' ''client-1'';
          fair = blanket_fair_lock_new ''my-fair-lock'' ''client-1''
      in [''name: '' @ blanket_get_name bl_inner lock] @
         trait_expire (blanket_get_name bl_inner) lock 30 @
         [''entry_name: '' @ trait_get_entry_name bl_inner lock] @
         [''lock_name: '' @ trait_get_lock_name bl_inner lock 42] @
         trait_schedule_renewal (trait_get_entry_name bl_inner) lock 42 @
         snd (bl_try_lock lock 42) @
         [''---''] @
         trait_expire (blanket_get_name bf_inner) fair 30 @
         trait_schedule_renewal (trait_get_entry_name bf_inner) fair 42 @
         snd (bf_try_lock fair 42))"

section \<open>Dereferencing alone\<close>

text \<open>
  In \<open>trait_inheritance_deref_only.rs\<close> a method belongs to the struct of its layer, and a call
  that a struct does not define is a call on the part that \<open>Deref\<close> leads to. Inside a method
  \<open>self\<close> is the struct of the layer, whatever object the call started from.
\<close>

record deref_object =
  do_name :: string
  do_codec :: string

record deref_expirable =
  de_inner :: deref_object

record deref_base_lock =
  db_inner :: deref_expirable
  db_id :: string
  db_entry_name :: string

record deref_lock =
  dl_inner :: deref_base_lock
  dl_internal_lock_lease_time :: u64

record deref_fair_lock =
  df_inner :: deref_lock
  df_thread_wait_time :: u64
  df_threads_queue_name :: string
  df_timeout_set_name :: string

definition object_get_name :: "deref_object \<Rightarrow> string" where
  "object_get_name self = do_name self"

definition object_describe :: "deref_object \<Rightarrow> string list" where
  "object_describe self = [''[RedissonObject::describe] name='' @ object_get_name self]"

definition expirable_expire :: "deref_expirable \<Rightarrow> u64 \<Rightarrow> string list" where
  "expirable_expire self seconds =
     [''expire key='' @ object_get_name (de_inner self) @ '' seconds='' @ numbered seconds]"

definition base_get_entry_name :: "deref_base_lock \<Rightarrow> string" where
  "base_get_entry_name self = db_entry_name self"

definition base_get_lock_name :: "deref_base_lock \<Rightarrow> u64 \<Rightarrow> string" where
  "base_get_lock_name self thread_id = db_id self @ '':'' @ numbered thread_id"

definition base_schedule_renewal :: "deref_base_lock \<Rightarrow> u64 \<Rightarrow> string list" where
  "base_schedule_renewal self thread_id =
     [''renewal: lock='' @ base_get_entry_name self @ '' thread='' @ numbered thread_id]"

definition base_lock_and_expire :: "deref_base_lock \<Rightarrow> u64 \<Rightarrow> string list" where
  "base_lock_and_expire self seconds =
     [''lock_and_expire: about to call expire''] @ expirable_expire (db_inner self) seconds"

definition deref_lock_new :: "string \<Rightarrow> string \<Rightarrow> deref_lock" where
  "deref_lock_new name i =
     \<lparr>dl_inner =
        \<lparr>db_inner = \<lparr>de_inner = \<lparr>do_name = name, do_codec = ''default''\<rparr>\<rparr>,
         db_id = i, db_entry_name = i @ '':'' @ name\<rparr>,
      dl_internal_lock_lease_time = 30000\<rparr>"

definition lock_get_name :: "deref_lock \<Rightarrow> string" where
  "lock_get_name self = object_get_name (de_inner (db_inner (dl_inner self)))"

definition deref_lock_try_lock :: "deref_lock \<Rightarrow> u64 \<Rightarrow> bool \<times> string list" where
  "deref_lock_try_lock self thread_id =
     (True, [''RedissonLock: try lock key='' @ lock_get_name self @ '' lock_name='' @
               base_get_lock_name (dl_inner self) thread_id])"

definition deref_fair_lock_new :: "string \<Rightarrow> string \<Rightarrow> deref_fair_lock" where
  "deref_fair_lock_new name i =
     \<lparr>df_inner = deref_lock_new name i, df_thread_wait_time = 5000,
      df_threads_queue_name = ''redisson_lock_queue:'' @ name,
      df_timeout_set_name = ''redisson_lock_timeout:'' @ name\<rparr>"

definition deref_fair_queue_name :: "deref_fair_lock \<Rightarrow> string" where
  "deref_fair_queue_name self = df_threads_queue_name self"

definition deref_fair_expire :: "deref_fair_lock \<Rightarrow> u64 \<Rightarrow> string list" where
  "deref_fair_expire self seconds =
     [''RedissonFairLock: expire key='' @ lock_get_name (df_inner self) @ '' seconds='' @
      numbered seconds @ '' (fair override)'']"

definition deref_fair_try_lock :: "deref_fair_lock \<Rightarrow> u64 \<Rightarrow> bool \<times> string list" where
  "deref_fair_try_lock self thread_id =
     (True, [''RedissonFairLock: fair try lock key='' @ lock_get_name (df_inner self) @
               '' lock_name='' @ base_get_lock_name (dl_inner (df_inner self)) thread_id @
               '' queue='' @ deref_fair_queue_name self])"

definition deref_only_main :: "string list" where
  "deref_only_main =
     (let lock = deref_lock_new ''my-lock'' ''client-1'';
          fair = deref_fair_lock_new ''my-fair-lock'' ''client-1''
      in [''=== RedissonLock ===''] @
         [''name: '' @ lock_get_name lock] @
         [''entry: '' @ base_get_entry_name (dl_inner lock)] @
         expirable_expire (db_inner (dl_inner lock)) 30 @
         object_describe (de_inner (db_inner (dl_inner lock))) @
         snd (deref_lock_try_lock lock 42) @
         [[]] @
         [''=== RedissonFairLock ==='' ] @
         [''name: '' @ lock_get_name (df_inner fair)] @
         [''queue: '' @ deref_fair_queue_name fair] @
         [''-- '' @ utf8 [0x76f4, 0x63a5, 0x8c03, 0x7528] @ '' fair.expire() --''] @
         deref_fair_expire fair 30 @
         [''-- '' @ utf8 [0x901a, 0x8fc7] @ '' BaseLock '' @
          utf8 [0x65b9, 0x6cd5, 0x95f4, 0x63a5, 0x8c03, 0x7528] @ '' --''] @
         base_lock_and_expire (dl_inner (df_inner fair)) 30)"

section \<open>The designs compared\<close>

lemmas accessor_defs = tl_lock_inner_def tl_expirable_inner_def tl_object_inner_def
  tf_redisson_lock_inner_def tf_lock_inner_def tf_expirable_inner_def tf_object_inner_def
  blanket_expirable_inner_def blanket_object_inner_def

lemmas new_defs = trait_lock_new_def trait_fair_lock_new_def blanket_lock_new_def
  blanket_fair_lock_new_def deref_lock_new_def deref_fair_lock_new_def

lemmas method_defs = trait_get_name_def trait_expire_def trait_get_entry_name_def
  trait_get_lock_name_def trait_schedule_renewal_def trait_get_lease_time_def
  trait_get_queue_name_def tl_get_name_def tf_get_name_def blanket_get_name_def
  object_get_name_def expirable_expire_def base_get_entry_name_def base_get_lock_name_def
  lock_get_name_def deref_fair_queue_name_def

text \<open>Deriving the upper traits gives the lock that writing them out gives.\<close>

lemma blanket_as_written:
  "blanket_get_name bl_inner (blanket_lock_new n i) = tl_get_name (trait_lock_new n i)"
  "trait_expire (blanket_get_name bl_inner) (blanket_lock_new n i) k =
     trait_expire tl_get_name (trait_lock_new n i) k"
  "trait_schedule_renewal (trait_get_entry_name bl_inner) (blanket_lock_new n i) t =
     trait_schedule_renewal (trait_get_entry_name tl_lock_inner) (trait_lock_new n i) t"
  "bl_try_lock (blanket_lock_new n i) t = tl_try_lock (trait_lock_new n i) t"
  by (simp_all add: accessor_defs new_defs method_defs bl_try_lock_def tl_try_lock_def)

text \<open>So does dereferencing, as long as nothing is overridden.\<close>

lemma deref_as_written:
  "lock_get_name (deref_lock_new n i) = tl_get_name (trait_lock_new n i)"
  "expirable_expire (db_inner (dl_inner (deref_lock_new n i))) k =
     trait_expire tl_get_name (trait_lock_new n i) k"
  "deref_lock_try_lock (deref_lock_new n i) t = tl_try_lock (trait_lock_new n i) t"
  "deref_fair_expire (deref_fair_lock_new n i) k = tf_expire (trait_fair_lock_new n i) k"
  "deref_fair_try_lock (deref_fair_lock_new n i) t = tf_try_lock (trait_fair_lock_new n i) t"
  by (simp_all add: accessor_defs new_defs method_defs deref_lock_try_lock_def tl_try_lock_def
      deref_fair_expire_def tf_expire_def deref_fair_try_lock_def tf_try_lock_def)

text \<open>A fair lock is a lock for every provided method that it does not override.\<close>

lemma fair_as_lock:
  "tf_get_name (trait_fair_lock_new n i) = tl_get_name (trait_lock_new n i)"
  "trait_get_lease_time tf_redisson_lock_inner (trait_fair_lock_new n i) =
     trait_get_lease_time tl_inner (trait_lock_new n i)"
  "trait_schedule_renewal (trait_get_entry_name tf_lock_inner) (trait_fair_lock_new n i) t =
     trait_schedule_renewal (trait_get_entry_name tl_lock_inner) (trait_lock_new n i) t"
  by (simp_all add: accessor_defs new_defs method_defs)

text \<open>
  The override of \<open>expire\<close> is not seen by a method of a lower layer when there is only
  dereferencing: \<open>lock_and_expire\<close> on a fair lock prints what it prints on a plain lock, and
  not what \<open>expire\<close> on the fair lock prints.
\<close>

lemma deref_binds_statically:
  "base_lock_and_expire (dl_inner (df_inner (deref_fair_lock_new n i))) k =
     base_lock_and_expire (dl_inner (deref_lock_new n i)) k"
  "base_lock_and_expire (dl_inner (df_inner (deref_fair_lock_new n i))) k \<noteq>
     [''lock_and_expire: about to call expire''] @ deref_fair_expire (deref_fair_lock_new n i) k"
  by (simp_all add: new_defs method_defs base_lock_and_expire_def deref_fair_expire_def)

text \<open>The transcripts of the three programs.\<close>

lemma numbered_values:
  "numbered 30 = ''30''" "numbered 42 = ''42''" "numbered 30000 = ''30000''"
  by (simp_all add: numbered_def digit_chars show_nat.simps [of 3] show_nat.simps [of 4]
      show_nat.simps [of 30] show_nat.simps [of 42] show_nat.simps [of 300] show_nat.simps [of 3000]
      show_nat.simps [of 30000])

lemma no_blanket_transcript:
  "no_blanket_main =
     [''name: my-lock'', ''lease_time: 30000'', ''expire key=my-lock seconds=30'',
      ''entry_name: client-1:my-lock'', ''lock_name: client-1:42'',
      ''renewal scheduled: lock=client-1:my-lock thread=42'',
      ''RedissonLock: try lock key=my-lock lock_name=client-1:42'', ''---'',
      ''name: my-fair-lock'', ''lease_time: 30000'', ''queue: redisson_lock_queue:my-fair-lock'',
      ''RedissonFairLock: expire key=my-fair-lock seconds=30 (fair override)'',
      ''renewal scheduled: lock=client-1:my-fair-lock thread=42'',
      ''RedissonFairLock: fair try lock key=my-fair-lock lock_name=client-1:42 queue=redisson_lock_queue:my-fair-lock'']"
  by (simp add: no_blanket_main_def numbered_values accessor_defs new_defs method_defs
      tl_try_lock_def tf_try_lock_def tf_expire_def)

lemma blanket_transcript:
  "blanket_main =
     [''name: my-lock'', ''expire key=my-lock seconds=30'', ''entry_name: client-1:my-lock'',
      ''lock_name: client-1:42'', ''renewal scheduled: lock=client-1:my-lock thread=42'',
      ''RedissonLock: try lock key=my-lock lock_name=client-1:42'', ''---'',
      ''expire key=my-fair-lock seconds=30'',
      ''renewal scheduled: lock=client-1:my-fair-lock thread=42'',
      ''RedissonFairLock: fair try lock key=my-fair-lock lock_name=client-1:42'']"
  by (simp add: blanket_main_def numbered_values accessor_defs new_defs method_defs
      bl_try_lock_def bf_try_lock_def)

lemma deref_only_transcript:
  "deref_only_main =
     [''=== RedissonLock ==='', ''name: my-lock'', ''entry: client-1:my-lock'',
      ''expire key=my-lock seconds=30'', ''[RedissonObject::describe] name=my-lock'',
      ''RedissonLock: try lock key=my-lock lock_name=client-1:42'', [],
      ''=== RedissonFairLock ==='', ''name: my-fair-lock'',
      ''queue: redisson_lock_queue:my-fair-lock'',
      ''-- '' @ utf8 [0x76f4, 0x63a5, 0x8c03, 0x7528] @ '' fair.expire() --'',
      ''RedissonFairLock: expire key=my-fair-lock seconds=30 (fair override)'',
      ''-- '' @ utf8 [0x901a, 0x8fc7] @ '' BaseLock '' @
      utf8 [0x65b9, 0x6cd5, 0x95f4, 0x63a5, 0x8c03, 0x7528] @ '' --'',
      ''lock_and_expire: about to call expire'', ''expire key=my-fair-lock seconds=30'']"
  by (simp add: deref_only_main_def numbered_values new_defs method_defs object_describe_def
      deref_lock_try_lock_def deref_fair_expire_def base_lock_and_expire_def)

end
