(* ===== verification/MacroDesign.thy ===== *)
theory MacroDesign
  imports TraitDesigns
begin

text \<open>
  \<open>examples/trait_inheritance_macro.rs\<close>: the class hierarchy of TraitDesigns, with macros that
  write the accessors. A macro gets a type and a number of stars, and the accessor that it
  writes dereferences \<open>self\<close> that often and lets the compiler dereference further until the
  type fits. Here every struct of the program is one constructor, dereferencing is a partial
  function on them, and the type check is the question whether an accessor is defined. What
  is shown: all accessors of the two locks type-check and reach the part that they are
  declared for, and the program behaves as the one with all implementations written out.
\<close>

section \<open>Structs and dereferencing\<close>

datatype part =
    ObjectInner string string
  | ExpirableInner part
  | BaseLockInner part string string
  | LockInner part u64
  | FairLockInner part u64 string string
  | MacroLock part
  | MacroFairLock part

datatype part_type = TObject | TExpirable | TBaseLock | TLockInner | TFairLockInner | TLock | TFairLock

fun type_of_part :: "part \<Rightarrow> part_type" where
  "type_of_part (ObjectInner n c) = TObject"
| "type_of_part (ExpirableInner p) = TExpirable"
| "type_of_part (BaseLockInner p i e) = TBaseLock"
| "type_of_part (LockInner p t) = TLockInner"
| "type_of_part (FairLockInner p w q t) = TFairLockInner"
| "type_of_part (MacroLock p) = TLock"
| "type_of_part (MacroFairLock p) = TFairLock"

text \<open>The implementations of \<open>Deref\<close>; the innermost struct has none.\<close>

fun deref_part :: "part \<Rightarrow> part option" where
  "deref_part (ObjectInner n c) = None"
| "deref_part (ExpirableInner p) = Some p"
| "deref_part (BaseLockInner p i e) = Some p"
| "deref_part (LockInner p t) = Some p"
| "deref_part (FairLockInner p w q t) = Some p"
| "deref_part (MacroLock p) = Some p"
| "deref_part (MacroFairLock p) = Some p"

text \<open>The first star of \<open>**self\<close> undoes the reference that \<open>self\<close> is, the others dereference.\<close>

fun stars :: "nat \<Rightarrow> part \<Rightarrow> part option" where
  "stars 0 p = None"
| "stars (Suc 0) p = Some p"
| "stars (Suc (Suc n)) p = Option.bind (deref_part p) (stars (Suc n))"

text \<open>A reference where one of another type is expected: dereferenced until the type fits.\<close>

fun coerce :: "part_type \<Rightarrow> part \<Rightarrow> part option" where
  "coerce t (ObjectInner n c) = (if t = TObject then Some (ObjectInner n c) else None)"
| "coerce t (ExpirableInner p) = (if t = TExpirable then Some (ExpirableInner p) else coerce t p)"
| "coerce t (BaseLockInner p i e) = (if t = TBaseLock then Some (BaseLockInner p i e) else coerce t p)"
| "coerce t (LockInner p d) = (if t = TLockInner then Some (LockInner p d) else coerce t p)"
| "coerce t (FairLockInner p w q d) =
     (if t = TFairLockInner then Some (FairLockInner p w q d) else coerce t p)"
| "coerce t (MacroLock p) = (if t = TLock then Some (MacroLock p) else coerce t p)"
| "coerce t (MacroFairLock p) = (if t = TFairLock then Some (MacroFairLock p) else coerce t p)"

lemma coerce_type: "coerce t p = Some q \<Longrightarrow> type_of_part q = t"
  by (induction p) (auto split: if_splits)

text \<open>Fewer stars do not matter: the coercion makes up for them.\<close>

lemma coerce_deref:
  "deref_part p = Some q \<Longrightarrow> coerce t q = Some r \<Longrightarrow> type_of_part p \<noteq> t \<Longrightarrow> coerce t p = Some r"
  by (cases p) auto

section \<open>The macros\<close>

text \<open>The body \<open>& **..* self\<close> that a macro writes, for the type that the trait declares.\<close>

definition impl_robject :: "nat \<Rightarrow> part \<Rightarrow> part option" where
  "impl_robject n self = Option.bind (stars n self) (coerce TObject)"

definition impl_rexpirable :: "nat \<Rightarrow> part \<Rightarrow> part option" where
  "impl_rexpirable n self = Option.bind (stars n self) (coerce TExpirable)"

definition impl_redisson_lock :: "nat \<Rightarrow> part \<Rightarrow> part option" where
  "impl_redisson_lock n self = Option.bind (stars n self) (coerce TLockInner)"

definition impl_fair_lock :: "nat \<Rightarrow> part \<Rightarrow> part option" where
  "impl_fair_lock n self = Option.bind (stars n self) (coerce TFairLockInner)"

section \<open>The traits\<close>

text \<open>A field of a struct, absent for the other structs.\<close>

fun part_name :: "part \<Rightarrow> string option" where
  "part_name (ObjectInner n c) = Some n"
| "part_name _ = None"

fun part_id :: "part \<Rightarrow> string option" where
  "part_id (BaseLockInner p i e) = Some i"
| "part_id _ = None"

fun part_entry_name :: "part \<Rightarrow> string option" where
  "part_entry_name (BaseLockInner p i e) = Some e"
| "part_entry_name _ = None"

fun part_lease_time :: "part \<Rightarrow> u64 option" where
  "part_lease_time (LockInner p t) = Some t"
| "part_lease_time _ = None"

fun part_queue_name :: "part \<Rightarrow> string option" where
  "part_queue_name (FairLockInner p w q t) = Some q"
| "part_queue_name _ = None"

definition macro_get_name :: "(part \<Rightarrow> part option) \<Rightarrow> part \<Rightarrow> string option" where
  "macro_get_name object_inner self = Option.bind (object_inner self) part_name"

definition macro_expire :: "(part \<Rightarrow> string option) \<Rightarrow> part \<Rightarrow> u64 \<Rightarrow> string list option" where
  "macro_expire get_name self seconds =
     map_option (\<lambda>n. [''expire key='' @ n @ '' seconds='' @ numbered seconds]) (get_name self)"

definition macro_get_entry_name :: "(part \<Rightarrow> part option) \<Rightarrow> part \<Rightarrow> string option" where
  "macro_get_entry_name lock_inner self = Option.bind (lock_inner self) part_entry_name"

definition macro_get_lock_name :: "(part \<Rightarrow> part option) \<Rightarrow> part \<Rightarrow> u64 \<Rightarrow> string option" where
  "macro_get_lock_name lock_inner self thread_id =
     map_option (\<lambda>i. i @ '':'' @ numbered thread_id) (Option.bind (lock_inner self) part_id)"

definition macro_schedule_renewal :: "(part \<Rightarrow> string option) \<Rightarrow> part \<Rightarrow> u64 \<Rightarrow> string list option" where
  "macro_schedule_renewal get_entry_name self thread_id =
     map_option (\<lambda>e. [''renewal scheduled: lock='' @ e @ '' thread='' @ numbered thread_id])
       (get_entry_name self)"

definition macro_get_lease_time :: "(part \<Rightarrow> part option) \<Rightarrow> part \<Rightarrow> u64 option" where
  "macro_get_lease_time redisson_lock_inner self = Option.bind (redisson_lock_inner self) part_lease_time"

definition macro_get_queue_name :: "(part \<Rightarrow> part option) \<Rightarrow> part \<Rightarrow> string option" where
  "macro_get_queue_name fair_lock_inner self = Option.bind (fair_lock_inner self) part_queue_name"

section \<open>The two locks\<close>

definition macro_lock_new :: "string \<Rightarrow> string \<Rightarrow> part" where
  "macro_lock_new name i =
     MacroLock
       (LockInner
         (BaseLockInner (ExpirableInner (ObjectInner name ''default'')) i (i @ '':'' @ name))
         30000)"

definition ml_object_inner :: "part \<Rightarrow> part option" where
  "ml_object_inner = impl_robject 4"

definition ml_expirable_inner :: "part \<Rightarrow> part option" where
  "ml_expirable_inner = impl_rexpirable 3"

definition ml_redisson_lock_inner :: "part \<Rightarrow> part option" where
  "ml_redisson_lock_inner = impl_redisson_lock 1"

definition ml_lock_inner :: "part \<Rightarrow> part option" where
  "ml_lock_inner self = Option.bind (stars 2 self) (coerce TBaseLock)"

definition ml_get_name :: "part \<Rightarrow> string option" where
  "ml_get_name = macro_get_name ml_object_inner"

definition ml_try_lock :: "part \<Rightarrow> u64 \<Rightarrow> (bool \<times> string list) option" where
  "ml_try_lock self thread_id =
     Option.bind (ml_get_name self) (\<lambda>n.
     map_option (\<lambda>l. (True, [''RedissonLock: try lock key='' @ n @ '' lock_name='' @ l]))
       (macro_get_lock_name ml_lock_inner self thread_id))"

definition macro_fair_lock_new :: "string \<Rightarrow> string \<Rightarrow> part" where
  "macro_fair_lock_new name i =
     MacroFairLock
       (FairLockInner
         (LockInner
           (BaseLockInner (ExpirableInner (ObjectInner name ''default'')) i (i @ '':'' @ name))
           30000)
         5000 (''redisson_lock_queue:'' @ name) (''redisson_lock_timeout:'' @ name))"

definition mf_object_inner :: "part \<Rightarrow> part option" where
  "mf_object_inner = impl_robject 5"

definition mf_redisson_lock_inner :: "part \<Rightarrow> part option" where
  "mf_redisson_lock_inner = impl_redisson_lock 2"

definition mf_fair_lock_inner :: "part \<Rightarrow> part option" where
  "mf_fair_lock_inner = impl_fair_lock 1"

definition mf_get_name :: "part \<Rightarrow> string option" where
  "mf_get_name = macro_get_name mf_object_inner"

text \<open>\<open>RExpirableLike\<close> is written by hand, because \<open>expire\<close> is overridden.\<close>

definition mf_expirable_inner :: "part \<Rightarrow> part option" where
  "mf_expirable_inner self = Option.bind (stars 4 self) (coerce TExpirable)"

definition mf_expire :: "part \<Rightarrow> u64 \<Rightarrow> string list option" where
  "mf_expire self seconds =
     map_option (\<lambda>n. [''RedissonFairLock: expire key='' @ n @ '' seconds='' @ numbered seconds @
        '' (fair override)'']) (mf_get_name self)"

definition mf_lock_inner :: "part \<Rightarrow> part option" where
  "mf_lock_inner self = Option.bind (stars 3 self) (coerce TBaseLock)"

definition mf_try_lock :: "part \<Rightarrow> u64 \<Rightarrow> (bool \<times> string list) option" where
  "mf_try_lock self thread_id =
     Option.bind (mf_get_name self) (\<lambda>n.
     Option.bind (macro_get_lock_name mf_lock_inner self thread_id) (\<lambda>l.
     map_option (\<lambda>q. (True, [''RedissonFairLock: fair try lock key='' @ n @ '' lock_name='' @ l @
        '' queue='' @ q])) (macro_get_queue_name mf_fair_lock_inner self)))"

text \<open>The lines of \<open>main\<close>; absent as soon as one of them does not type-check.\<close>

fun all_lines :: "string list option list \<Rightarrow> string list option" where
  "all_lines [] = Some []"
| "all_lines (l # ls) = Option.bind l (\<lambda>x. map_option (append x) (all_lines ls))"

definition line :: "string \<Rightarrow> string option \<Rightarrow> string list option" where
  "line label v = map_option (\<lambda>x. [label @ x]) v"

definition macro_main :: "string list option" where
  "macro_main =
     (let lock = macro_lock_new ''my-lock'' ''client-1'';
          fair = macro_fair_lock_new ''my-fair-lock'' ''client-1''
      in all_lines
        [line ''name: '' (ml_get_name lock),
         line ''lease_time: '' (map_option numbered (macro_get_lease_time ml_redisson_lock_inner lock)),
         macro_expire ml_get_name lock 30,
         line ''entry_name: '' (macro_get_entry_name ml_lock_inner lock),
         line ''lock_name: '' (macro_get_lock_name ml_lock_inner lock 42),
         macro_schedule_renewal (macro_get_entry_name ml_lock_inner) lock 42,
         map_option snd (ml_try_lock lock 42),
         Some [''---''],
         line ''name: '' (mf_get_name fair),
         line ''lease_time: '' (map_option numbered (macro_get_lease_time mf_redisson_lock_inner fair)),
         line ''queue: '' (macro_get_queue_name mf_fair_lock_inner fair),
         mf_expire fair 30,
         macro_schedule_renewal (macro_get_entry_name mf_lock_inner) fair 42,
         map_option snd (mf_try_lock fair 42)])"

section \<open>The accessors type-check\<close>

lemmas macro_defs = impl_robject_def impl_rexpirable_def impl_redisson_lock_def impl_fair_lock_def
  ml_object_inner_def ml_expirable_inner_def ml_redisson_lock_inner_def ml_lock_inner_def
  mf_object_inner_def mf_redisson_lock_inner_def mf_fair_lock_inner_def mf_expirable_inner_def
  mf_lock_inner_def

lemmas macro_new_defs = macro_lock_new_def macro_fair_lock_new_def

lemma stars_Suc: "stars (Suc (Suc n)) p = Option.bind (deref_part p) (stars (Suc n))"
  by simp

text \<open>Every accessor of a lock returns the part of the type that its trait declares.\<close>

lemma lock_accessors:
  "ml_object_inner (macro_lock_new n i) = Some (ObjectInner n ''default'')"
  "ml_expirable_inner (macro_lock_new n i) = Some (ExpirableInner (ObjectInner n ''default''))"
  "\<exists>p. ml_lock_inner (macro_lock_new n i) = Some (BaseLockInner p i (i @ '':'' @ n))"
  "\<exists>p. ml_redisson_lock_inner (macro_lock_new n i) = Some (LockInner p 30000)"
  by (simp_all add: macro_defs macro_new_defs numeral_eq_Suc)

lemma fair_lock_accessors:
  "mf_object_inner (macro_fair_lock_new n i) = Some (ObjectInner n ''default'')"
  "mf_expirable_inner (macro_fair_lock_new n i) = Some (ExpirableInner (ObjectInner n ''default''))"
  "\<exists>p. mf_lock_inner (macro_fair_lock_new n i) = Some (BaseLockInner p i (i @ '':'' @ n))"
  "\<exists>p. mf_redisson_lock_inner (macro_fair_lock_new n i) = Some (LockInner p 30000)"
  "\<exists>p. mf_fair_lock_inner (macro_fair_lock_new n i) =
     Some (FairLockInner p 5000 (''redisson_lock_queue:'' @ n) (''redisson_lock_timeout:'' @ n))"
  by (simp_all add: macro_defs macro_new_defs numeral_eq_Suc)

text \<open>
  How many stars a macro may be given: any number up to the one that reaches the part itself,
  which is one more than the program gives.
\<close>

lemma star_counts:
  assumes "0 < k"
  shows "impl_robject k (macro_lock_new n i) =
      (if k \<le> 5 then Some (ObjectInner n ''default'') else None)"
    and "impl_robject k (macro_fair_lock_new n i) =
      (if k \<le> 6 then Some (ObjectInner n ''default'') else None)"
proof -
  obtain j where k: "k = Suc j" using assms by (cases k) auto
  have "stars (Suc (Suc (Suc (Suc (Suc (Suc m)))))) (macro_lock_new n i) = None" for m
    by (simp add: macro_new_defs)
  moreover have "j < 5 \<or> (\<exists>m. j = Suc (Suc (Suc (Suc (Suc m)))))" by (cases j rule: nat.exhaust) presburger+
  ultimately show "impl_robject k (macro_lock_new n i) =
      (if k \<le> 5 then Some (ObjectInner n ''default'') else None)"
    unfolding k by (auto simp: less_Suc_eq numeral_eq_Suc impl_robject_def macro_new_defs)
  have "stars (Suc (Suc (Suc (Suc (Suc (Suc (Suc m))))))) (macro_fair_lock_new n i) = None" for m
    by (simp add: macro_new_defs)
  moreover have "j < 6 \<or> (\<exists>m. j = Suc (Suc (Suc (Suc (Suc (Suc m))))))" by presburger
  ultimately show "impl_robject k (macro_fair_lock_new n i) =
      (if k \<le> 6 then Some (ObjectInner n ''default'') else None)"
    unfolding k by (auto simp: less_Suc_eq numeral_eq_Suc impl_robject_def macro_new_defs)
qed

section \<open>The program as the one written out\<close>

lemmas macro_method_defs = macro_get_name_def macro_expire_def macro_get_entry_name_def
  macro_get_lock_name_def macro_schedule_renewal_def macro_get_lease_time_def
  macro_get_queue_name_def ml_get_name_def mf_get_name_def

lemma macro_lock_as_written:
  "ml_get_name (macro_lock_new n i) = Some (tl_get_name (trait_lock_new n i))"
  "macro_expire ml_get_name (macro_lock_new n i) k = Some (trait_expire tl_get_name (trait_lock_new n i) k)"
  "macro_get_entry_name ml_lock_inner (macro_lock_new n i) =
     Some (trait_get_entry_name tl_lock_inner (trait_lock_new n i))"
  "macro_get_lock_name ml_lock_inner (macro_lock_new n i) t =
     Some (trait_get_lock_name tl_lock_inner (trait_lock_new n i) t)"
  "macro_get_lease_time ml_redisson_lock_inner (macro_lock_new n i) =
     Some (trait_get_lease_time tl_inner (trait_lock_new n i))"
  "macro_schedule_renewal (macro_get_entry_name ml_lock_inner) (macro_lock_new n i) t =
     Some (trait_schedule_renewal (trait_get_entry_name tl_lock_inner) (trait_lock_new n i) t)"
  "ml_try_lock (macro_lock_new n i) t = Some (tl_try_lock (trait_lock_new n i) t)"
  by (simp_all add: macro_method_defs macro_defs macro_new_defs accessor_defs new_defs method_defs
      ml_try_lock_def tl_try_lock_def numeral_eq_Suc)

lemma macro_fair_lock_as_written:
  "mf_get_name (macro_fair_lock_new n i) = Some (tf_get_name (trait_fair_lock_new n i))"
  "mf_expire (macro_fair_lock_new n i) k = Some (tf_expire (trait_fair_lock_new n i) k)"
  "macro_get_queue_name mf_fair_lock_inner (macro_fair_lock_new n i) =
     Some (trait_get_queue_name tf_inner (trait_fair_lock_new n i))"
  "macro_get_lease_time mf_redisson_lock_inner (macro_fair_lock_new n i) =
     Some (trait_get_lease_time tf_redisson_lock_inner (trait_fair_lock_new n i))"
  "macro_schedule_renewal (macro_get_entry_name mf_lock_inner) (macro_fair_lock_new n i) t =
     Some (trait_schedule_renewal (trait_get_entry_name tf_lock_inner) (trait_fair_lock_new n i) t)"
  "mf_try_lock (macro_fair_lock_new n i) t = Some (tf_try_lock (trait_fair_lock_new n i) t)"
  by (simp_all add: macro_method_defs macro_defs macro_new_defs accessor_defs new_defs method_defs
      mf_try_lock_def tf_try_lock_def mf_expire_def tf_expire_def numeral_eq_Suc)

lemma macro_main_as_written: "macro_main = Some no_blanket_main"
  by (simp add: macro_main_def no_blanket_main_def Let_def line_def macro_lock_as_written
      macro_fair_lock_as_written)

end
