(* ===== verification/DerefDesigns.thy ===== *)
theory DerefDesigns
  imports Utf8
begin

text \<open>
  Three programs on dereferencing: \<open>examples/deref_override_demo.rs\<close> (methods overridden along
  a chain of \<open>Deref\<close>), \<open>examples/deref_transparent_wrapper.rs\<close> (a wrapper that is used as what
  it wraps) and \<open>examples/trait_inheritance_deref.rs\<close> (traits for the methods, dereferencing for
  the fields, and a method that both define). A call \<open>x.f()\<close> is looked up along the chain, and
  that lookup is written out here. What is shown: which method each kind of call reaches, for
  every object, and that two of the programs print what their comments announce.
\<close>

text \<open>What a program prints is a string; \<open>println!\<close> adds a line to it.\<close>

definition println :: "string \<Rightarrow> string" where
  "println s = s @ [CHR 0x0A]"

section \<open>The lookup of a method\<close>

text \<open>
  The types that dereferencing a receiver goes through, each with the methods of the type
  itself and those of the traits that it implements. The first type with a method of that
  name decides, and in it the type itself goes before its traits. All methods here take
  \<open>&self\<close> and nothing else.
\<close>

record 'm layer =
  inherent :: "(string \<times> 'm) list"
  of_traits :: "(string \<times> 'm) list"

definition own_method :: "'m layer \<Rightarrow> string \<Rightarrow> 'm option" where
  "own_method l f = (case map_of (inherent l) f of Some m \<Rightarrow> Some m | None \<Rightarrow> map_of (of_traits l) f)"

fun resolve :: "'m layer list \<Rightarrow> string \<Rightarrow> 'm option" where
  "resolve [] f = None"
| "resolve (l # ls) f = (case own_method l f of Some m \<Rightarrow> Some m | None \<Rightarrow> resolve ls f)"

lemma resolve_find:
  "resolve ls f =
     (case find (\<lambda>l. own_method l f \<noteq> None) ls of None \<Rightarrow> None | Some l \<Rightarrow> own_method l f)"
  by (induction ls) (auto split: option.split)

lemma resolve_append:
  "resolve (ls @ ks) f = (case resolve ls f of Some m \<Rightarrow> Some m | None \<Rightarrow> resolve ks f)"
  by (induction ls) (auto split: option.split)

text \<open>A call that compiles, of a method that prints or returns a text.\<close>

definition call :: "string layer list \<Rightarrow> string \<Rightarrow> string" where
  "call ls f = (case resolve ls f of Some m \<Rightarrow> m | None \<Rightarrow> [])"

section \<open>Overriding along the chain\<close>

record parent =
  pa_name :: string

record child =
  ch_base :: parent
  ch_age :: u32

record grand_child =
  gc_base :: child
  gc_grade :: u32

definition shown :: "u32 \<Rightarrow> string" where
  "shown n = show_nat (unat n)"

definition parent_say_hello :: "parent \<Rightarrow> string" where
  "parent_say_hello self = println (''[Parent] hello: '' @ pa_name self)"

definition parent_say_bye :: "parent \<Rightarrow> string" where
  "parent_say_bye self = println (''[Parent] bye: '' @ pa_name self)"

definition child_deref :: "child \<Rightarrow> parent" where
  "child_deref self = ch_base self"

definition child_say_hello :: "child \<Rightarrow> string" where
  "child_say_hello self =
     println (''[Child] hello: '' @ pa_name (child_deref self) @ '', age: '' @ shown (ch_age self))"

definition child_say_age :: "child \<Rightarrow> string" where
  "child_say_age self = println (''[Child] I'm '' @ shown (ch_age self) @ '' years old'')"

definition grand_child_deref :: "grand_child \<Rightarrow> child" where
  "grand_child_deref self = gc_base self"

definition grand_child_say_hello :: "grand_child \<Rightarrow> string" where
  "grand_child_say_hello self =
     println (''[GrandChild] hello: '' @ pa_name (child_deref (grand_child_deref self)) @
       '', age: '' @
       shown (ch_age (grand_child_deref self)) @ '', grade: '' @ shown (gc_grade self))"

text \<open>The methods of each type, and the chain of an object.\<close>

definition parent_layer :: "parent \<Rightarrow> string layer" where
  "parent_layer p =
     \<lparr>inherent = [(''say_hello'', parent_say_hello p), (''say_bye'', parent_say_bye p)], of_traits = []\<rparr>"

definition child_layer :: "child \<Rightarrow> string layer" where
  "child_layer c =
     \<lparr>inherent = [(''say_hello'', child_say_hello c), (''say_age'', child_say_age c)], of_traits = []\<rparr>"

definition grand_child_layer :: "grand_child \<Rightarrow> string layer" where
  "grand_child_layer g = \<lparr>inherent = [(''say_hello'', grand_child_say_hello g)], of_traits = []\<rparr>"

definition parent_chain :: "parent \<Rightarrow> string layer list" where
  "parent_chain p = [parent_layer p]"

definition child_chain :: "child \<Rightarrow> string layer list" where
  "child_chain c = child_layer c # parent_chain (child_deref c)"

definition grand_child_chain :: "grand_child \<Rightarrow> string layer list" where
  "grand_child_chain g = grand_child_layer g # child_chain (grand_child_deref g)"

lemmas chain_defs = parent_chain_def child_chain_def grand_child_chain_def parent_layer_def
  child_layer_def grand_child_layer_def child_deref_def grand_child_deref_def

text \<open>
  An overridden method is that of the object's own type; a method that is not overridden is the
  ancestor's, run on the ancestor's part, which knows nothing of the overrides below it.
\<close>

lemma override_calls:
  "call (parent_chain p) ''say_hello'' = parent_say_hello p"
  "call (child_chain c) ''say_hello'' = child_say_hello c"
  "call (grand_child_chain g) ''say_hello'' = grand_child_say_hello g"
  "call (parent_chain p) ''say_bye'' = parent_say_bye p"
  "call (child_chain c) ''say_bye'' = parent_say_bye (ch_base c)"
  "call (grand_child_chain g) ''say_bye'' = parent_say_bye (ch_base (gc_base g))"
  "call (grand_child_chain g) ''say_age'' = child_say_age (gc_base g)"
  "resolve (parent_chain p) ''say_age'' = None"
  by (simp_all add: call_def own_method_def chain_defs)

text \<open>
  \<open>main\<close> of \<open>deref_override_demo.rs\<close>. A method that is called by its path runs on the part it
  is given, without a lookup; a field is found along the chain as a method is.
\<close>

definition demo_parent :: parent where
  "demo_parent = \<lparr>pa_name = ''parent''\<rparr>"

definition demo_child :: child where
  "demo_child = \<lparr>ch_base = \<lparr>pa_name = ''child''\<rparr>, ch_age = 10\<rparr>"

definition demo_grand_child :: grand_child where
  "demo_grand_child =
     \<lparr>gc_base = \<lparr>ch_base = \<lparr>pa_name = ''grandchild''\<rparr>, ch_age = 15\<rparr>, gc_grade = 5\<rparr>"

definition override_title :: string where
  "override_title =
     println (utf8 [0x2554] @ utf8 (replicate 62 0x2550) @ utf8 [0x2557]) @
     println (utf8 [0x2551] @ ''  Deref + '' @ utf8 [0x65b9, 0x6cd5, 0x8986, 0x76d6] @
       ''                                              '' @ utf8 [0x2551]) @
     println (utf8 [0x255a] @ utf8 (replicate 62 0x2550) @ utf8 [0x255d]) @ println []"

definition called_by_name :: "string \<Rightarrow> string" where
  "called_by_name f =
     ''   Parent:    '' @ call (parent_chain demo_parent) f @
     ''   Child:     '' @ call (child_chain demo_child) f @
     ''   GrandChild:'' @ call (grand_child_chain demo_grand_child) f @
     println []"

definition called_by_path :: string where
  "called_by_path =
     ''   Child '' @ utf8 [0x8c03, 0x7528] @ '' Parent.say_hello:    '' @
       parent_say_hello (ch_base demo_child) @
     ''   GrandChild '' @ utf8 [0x8c03, 0x7528] @ '' Child.say_hello: '' @
       child_say_hello (gc_base demo_grand_child) @
     ''   GrandChild '' @ utf8 [0x8c03, 0x7528] @ '' Parent.say_hello: '' @
       parent_say_hello (ch_base (gc_base demo_grand_child)) @
     println []"

definition demo_fields :: string where
  "demo_fields =
     println (''   grandchild.name = '' @
       quoted (pa_name (child_deref (grand_child_deref demo_grand_child))) @ ''  (Parent '' @
       utf8 [0x7684, 0x5b57, 0x6bb5] @ '')'') @
     println (''   grandchild.age = '' @ shown (ch_age (grand_child_deref demo_grand_child)) @
       ''    (Child '' @ utf8 [0x7684, 0x5b57, 0x6bb5] @ '')'') @
     println (''   grandchild.grade = '' @ shown (gc_grade demo_grand_child) @
       ''  (GrandChild '' @ utf8 [0x7684, 0x5b57, 0x6bb5] @ '')'') @
     println []"

definition override_summary :: string where
  "override_summary =
     println (utf8 [0x2554] @ utf8 (replicate 62 0x2550) @ utf8 [0x2557]) @
     println (utf8 [0x2551] @ ''  '' @ utf8 [0x603b, 0x7ed3, 0xff1a] @
       ''                                                        '' @ utf8 [0x2551]) @
     println (utf8 [0x2560] @ utf8 (replicate 62 0x2550) @ utf8 [0x2563]) @
     println (utf8 [0x2551] @ ''  1. Deref '' @
       utf8 [0x4e0d, 0x963b, 0x6b62, 0x8986, 0x76d6, 0x65b9, 0x6cd5] @
       ''                                       '' @ utf8 [0x2551]) @
     println (utf8 [0x2551] @ ''  2. '' @
       utf8 [0x5b50, 0x7c7b, 0x540c, 0x540d, 0x65b9, 0x6cd5, 0x4f1a, 0x906e, 0x853d, 0x7236, 0x7c7b, 0x65b9, 0x6cd5] @ ''                            '' @ utf8 [0x2551]) @
     println (utf8 [0x2551] @ ''  3. '' @ utf8 [0x53ef, 0x4ee5, 0x901a, 0x8fc7] @
       '' Parent::method(&child.base) '' @ utf8 [0x8c03, 0x7528, 0x7236, 0x7c7b, 0x7248, 0x672c] @
       ''          '' @ utf8 [0x2551]) @
     println (utf8 [0x2551] @ ''  4. '' @
       utf8 [0x672a, 0x8986, 0x76d6, 0x7684, 0x65b9, 0x6cd5, 0x81ea, 0x52a8, 0x901a, 0x8fc7] @
       '' Deref '' @ utf8 [0x8bbf, 0x95ee, 0x7236, 0x7c7b] @ ''                        '' @
       utf8 [0x2551]) @
     println (utf8 [0x255a] @ utf8 (replicate 62 0x2550) @ utf8 [0x255d])"

definition override_main :: string where
  "override_main =
     override_title @
     println (''1. say_hello ('' @ utf8 [0x6bcf, 0x5c42, 0x90fd, 0x8986, 0x76d6] @ ''):'') @
     called_by_name ''say_hello'' @
     println (''2. say_bye ('' @ utf8 [0x53ea, 0x6709] @ '' Parent '' @
       utf8 [0x6709, 0xff0c, 0x5176, 0x4ed6, 0x901a, 0x8fc7] @ '' Deref '' @
       utf8 [0x8bbf, 0x95ee] @ ''):'') @
     called_by_name ''say_bye'' @
     println (''3. '' @ utf8 [0x660e, 0x786e, 0x8c03, 0x7528, 0x7279, 0x5b9a, 0x5b9e, 0x73b0] @
       '':'') @
     called_by_path @
     println (''4. '' @ utf8 [0x8bbf, 0x95ee, 0x5b57, 0x6bb5] @ '' ('' @ utf8 [0x901a, 0x8fc7] @
       '' Deref '' @ utf8 [0x94fe] @ ''):'') @
     demo_fields @
     override_summary"

lemma shown_demo: "shown 5 = ''5''" "shown 10 = ''10''" "shown 15 = ''15''"
  by (simp_all add: shown_def digit_chars show_nat.simps [of "Suc 0"] show_nat.simps [of 5]
      show_nat.simps [of 10] show_nat.simps [of 15])

lemmas demo_defs = demo_parent_def demo_child_def demo_grand_child_def

lemma called_by_name_prints:
  "called_by_name ''say_hello'' =
     ''   Parent:    [Parent] hello: parent'' @ [CHR 0x0A] @
     ''   Child:     [Child] hello: child, age: 10'' @ [CHR 0x0A] @
     ''   GrandChild:[GrandChild] hello: grandchild, age: 15, grade: 5'' @ [CHR 0x0A, CHR 0x0A]"
  "called_by_name ''say_bye'' =
     ''   Parent:    [Parent] bye: parent'' @ [CHR 0x0A] @
     ''   Child:     [Parent] bye: child'' @ [CHR 0x0A] @
     ''   GrandChild:[Parent] bye: grandchild'' @ [CHR 0x0A, CHR 0x0A]"
  unfolding called_by_name_def override_calls
  by (simp_all add: demo_defs parent_say_hello_def child_say_hello_def grand_child_say_hello_def
      parent_say_bye_def child_deref_def grand_child_deref_def shown_demo println_def)

section \<open>A transparent wrapper\<close>

text \<open>\<open>deref_transparent_wrapper.rs\<close>: \<open>get\<close> returns its text, \<open>set\<close> prints it.\<close>

record wrapped_client =
  wc_id :: string

definition wrapped_client_new :: "string \<Rightarrow> wrapped_client" where
  "wrapped_client_new i = \<lparr>wc_id = i\<rparr>"

definition client_get :: "wrapped_client \<Rightarrow> string \<Rightarrow> string" where
  "client_get self key = ''['' @ wc_id self @ ''] GET '' @ key"

definition client_set :: "wrapped_client \<Rightarrow> string \<Rightarrow> string \<Rightarrow> string" where
  "client_set self key v = println (''['' @ wc_id self @ ''] SET '' @ key @ '' = '' @ v)"

record wrapper_options =
  wo_timeout_ms :: u64
  wo_max_attempts :: u32

record 'c with_options_wrapper =
  wow_client :: 'c
  wow_options :: wrapper_options

definition options_of_wrapper :: "'c with_options_wrapper \<Rightarrow> wrapper_options" where
  "options_of_wrapper self = wow_options self"

definition wrapper_deref :: "'c with_options_wrapper \<Rightarrow> 'c" where
  "wrapper_deref self = wow_client self"

definition client_with_options ::
  "wrapped_client \<Rightarrow> wrapper_options \<Rightarrow> wrapped_client with_options_wrapper" where
  "client_with_options self o1 = \<lparr>wow_client = self, wow_options = o1\<rparr>"

text \<open>The chain of a wrapped client: the wrapper, which knows \<open>options\<close> only, the reference it holds,
  and the client.\<close>

definition wrapper_chain :: "string \<Rightarrow> string \<Rightarrow> wrapped_client with_options_wrapper \<Rightarrow> string layer list" where
  "wrapper_chain key v w =
     [\<lparr>inherent =
         [(''options'', ''timeout='' @ show_nat (unat (wo_timeout_ms (options_of_wrapper w))) @
            ''ms max_attempts='' @ show_nat (unat (wo_max_attempts (options_of_wrapper w))))],
       of_traits = []\<rparr>,
      \<lparr>inherent = [], of_traits = []\<rparr>,
      \<lparr>inherent =
         [(''get'', client_get (wrapper_deref w) key), (''set'', client_set (wrapper_deref w) key v)],
       of_traits = []\<rparr>]"

definition wrapper_main :: string where
  "wrapper_main =
     (let client = wrapped_client_new ''client-1'';
          options = \<lparr>wo_timeout_ms = 500, wo_max_attempts = 3\<rparr>;
          with_options = client_with_options client options
      in println (call (wrapper_chain ''foo'' [] with_options) ''get'') @
         call (wrapper_chain ''bar'' ''hello'' with_options) ''set'' @
         println (call (wrapper_chain [] [] with_options) ''options''))"

text \<open>The wrapper cannot be told from the client, whatever its options.\<close>

lemma wrapper_transparent:
  "call (wrapper_chain k v (client_with_options c o1)) ''get'' = client_get c k"
  "call (wrapper_chain k v (client_with_options c o1)) ''set'' = client_set c k v"
  by (simp_all add: call_def own_method_def wrapper_chain_def client_with_options_def wrapper_deref_def)

section \<open>Traits for methods, dereferencing for fields\<close>

record field_object =
  fo_name :: string
  fo_codec :: string

definition struct_describe :: "field_object \<Rightarrow> string" where
  "struct_describe self = ''from RedissonObjectInner struct method''"

text \<open>The provided methods of \<open>RObjectLike\<close>.\<close>

definition robject_get_name :: "('o \<Rightarrow> field_object) \<Rightarrow> 'o \<Rightarrow> string" where
  "robject_get_name object_inner self = fo_name (object_inner self)"

definition robject_describe :: "'o \<Rightarrow> string" where
  "robject_describe self = ''from RObjectLike trait default method''"

record field_expirable =
  fe_base :: field_object

definition field_expirable_deref :: "field_expirable \<Rightarrow> field_object" where
  "field_expirable_deref self = fe_base self"

definition rexpirable_expire :: "('o \<Rightarrow> field_expirable) \<Rightarrow> 'o \<Rightarrow> u64 \<Rightarrow> string" where
  "rexpirable_expire expirable_inner self seconds =
     println (''expire key='' @ fo_name (field_expirable_deref (expirable_inner self)) @
       '' seconds='' @ show_nat (unat seconds))"

text \<open>Whatever implements \<open>RExpirableLike\<close> implements \<open>RObjectLike\<close>.\<close>

definition field_object_inner :: "('o \<Rightarrow> field_expirable) \<Rightarrow> 'o \<Rightarrow> field_object" where
  "field_object_inner expirable_inner self = fe_base (expirable_inner self)"

record field_base_lock =
  fb_base :: field_expirable
  fb_id :: string
  fb_entry_name :: string

definition field_base_lock_deref :: "field_base_lock \<Rightarrow> field_expirable" where
  "field_base_lock_deref self = fb_base self"

definition rbase_lock_get_entry_name :: "('o \<Rightarrow> field_base_lock) \<Rightarrow> 'o \<Rightarrow> string" where
  "rbase_lock_get_entry_name lock_inner self = fb_entry_name (lock_inner self)"

definition rbase_lock_get_lock_name :: "('o \<Rightarrow> field_base_lock) \<Rightarrow> 'o \<Rightarrow> u64 \<Rightarrow> string" where
  "rbase_lock_get_lock_name lock_inner self thread_id =
     fb_id (lock_inner self) @ '':'' @ show_nat (unat thread_id)"

definition rbase_lock_schedule_renewal ::
  "('o \<Rightarrow> field_base_lock) \<Rightarrow> ('o \<Rightarrow> string) \<Rightarrow> 'o \<Rightarrow> u64 \<Rightarrow> string" where
  "rbase_lock_schedule_renewal lock_inner get_entry_name self thread_id =
     println (''renewal scheduled: key='' @
       fo_name (field_expirable_deref (field_base_lock_deref (lock_inner self))) @
       '' lock='' @ get_entry_name self @ '' thread='' @ show_nat (unat thread_id))"

text \<open>Whatever implements \<open>RedissonBaseLockLike\<close> implements \<open>RExpirableLike\<close>.\<close>

definition field_expirable_inner :: "('o \<Rightarrow> field_base_lock) \<Rightarrow> 'o \<Rightarrow> field_expirable" where
  "field_expirable_inner lock_inner self = fb_base (lock_inner self)"

record field_lock =
  fl_inner :: field_base_lock

definition field_lock_deref :: "field_lock \<Rightarrow> field_base_lock" where
  "field_lock_deref self = fl_inner self"

definition field_lock_new :: "string \<Rightarrow> string \<Rightarrow> field_lock" where
  "field_lock_new name i =
     \<lparr>fl_inner =
        \<lparr>fb_base = \<lparr>fe_base = \<lparr>fo_name = name, fo_codec = ''default''\<rparr>\<rparr>,
         fb_id = i, fb_entry_name = i @ '':'' @ name\<rparr>\<rparr>"

text \<open>\<open>self.name\<close> in the two locks, through three dereferences.\<close>

definition field_lock_name :: "field_lock \<Rightarrow> string" where
  "field_lock_name self =
     fo_name (field_expirable_deref (field_base_lock_deref (field_lock_deref self)))"

definition field_lock_try_lock :: "field_lock \<Rightarrow> u64 \<Rightarrow> bool \<times> string" where
  "field_lock_try_lock self thread_id =
     (True, println (''RedissonLock: try lock key='' @ field_lock_name self @ '' lock_name='' @
        rbase_lock_get_lock_name fl_inner self thread_id))"

record field_fair_lock =
  ff_inner :: field_base_lock

definition field_fair_lock_deref :: "field_fair_lock \<Rightarrow> field_base_lock" where
  "field_fair_lock_deref self = ff_inner self"

definition field_fair_lock_new :: "string \<Rightarrow> string \<Rightarrow> field_fair_lock" where
  "field_fair_lock_new name i =
     \<lparr>ff_inner =
        \<lparr>fb_base = \<lparr>fe_base = \<lparr>fo_name = name, fo_codec = ''default''\<rparr>\<rparr>,
         fb_id = i, fb_entry_name = i @ '':'' @ name\<rparr>\<rparr>"

definition field_fair_lock_name :: "field_fair_lock \<Rightarrow> string" where
  "field_fair_lock_name self =
     fo_name (field_expirable_deref (field_base_lock_deref (field_fair_lock_deref self)))"

definition field_fair_lock_try_lock :: "field_fair_lock \<Rightarrow> u64 \<Rightarrow> bool \<times> string" where
  "field_fair_lock_try_lock self thread_id =
     (True, println (''RedissonFairLock: fair try lock key='' @ field_fair_lock_name self @
       '' lock_name='' @
        rbase_lock_get_lock_name ff_inner self thread_id))"

text \<open>
  The chain of a lock: only the lock itself implements the traits, only the object at the
  end has a \<open>describe\<close> of its own.
\<close>

definition field_lock_chain :: "field_lock \<Rightarrow> string layer list" where
  "field_lock_chain l =
     [\<lparr>inherent = [],
       of_traits =
         [(''get_name'', robject_get_name (field_object_inner (field_expirable_inner fl_inner)) l),
          (''describe'', robject_describe l)]\<rparr>,
      \<lparr>inherent = [], of_traits = []\<rparr>,
      \<lparr>inherent = [], of_traits = []\<rparr>,
      \<lparr>inherent =
         [(''describe'', struct_describe (field_expirable_deref (field_base_lock_deref (field_lock_deref l))))],
       of_traits = []\<rparr>]"

definition field_main :: string where
  "field_main =
     (let lock = field_lock_new ''my-lock'' ''client-1'';
          fair_lock = field_fair_lock_new ''my-fair-lock'' ''client-1''
      in println (''name via Deref:       '' @ field_lock_name lock) @
         println (''id via Deref:         '' @ fb_id (field_lock_deref lock)) @
         println (''entry_name via Deref: '' @ fb_entry_name (field_lock_deref lock)) @
         println (''name via trait:  '' @ call (field_lock_chain lock) ''get_name'') @
         rexpirable_expire (field_expirable_inner fl_inner) lock 30 @
         rbase_lock_schedule_renewal fl_inner (rbase_lock_get_entry_name fl_inner) lock 42 @
         snd (field_lock_try_lock lock 42) @
         println ''---'' @
         println (''name via Deref: '' @ field_fair_lock_name fair_lock) @
         rexpirable_expire (field_expirable_inner ff_inner) fair_lock 30 @
         snd (field_fair_lock_try_lock fair_lock 42) @
         println ''---'' @
         println (''lock.describe() = '' @ call (field_lock_chain lock) ''describe'') @
         println (''RedissonObjectInner::describe() = '' @
           struct_describe (field_object_inner (field_expirable_inner fl_inner) lock)))"

lemmas field_defs = field_lock_name_def field_fair_lock_name_def field_lock_deref_def
  field_fair_lock_deref_def field_base_lock_deref_def field_expirable_deref_def
  field_object_inner_def field_expirable_inner_def field_lock_new_def field_fair_lock_new_def
  robject_get_name_def rexpirable_expire_def rbase_lock_get_entry_name_def
  rbase_lock_get_lock_name_def rbase_lock_schedule_renewal_def

text \<open>The field that dereferencing reaches is the one that the trait method returns.\<close>

lemma field_name_agrees:
  "robject_get_name (field_object_inner (field_expirable_inner fl_inner)) l = field_lock_name l"
  "robject_get_name (field_object_inner (field_expirable_inner ff_inner)) f = field_fair_lock_name f"
  by (simp_all add: field_defs)

text \<open>
  The trap that the program warns of: \<open>describe\<close> on a lock is the provided method of the trait,
  although the chain ends at a type with a method of that name, which is the one found as
  soon as the call starts at a type without the trait.
\<close>

lemma describe_shadowed:
  "call (field_lock_chain l) ''describe'' = robject_describe l"
  "call (tl (field_lock_chain l)) ''describe'' =
     struct_describe (field_object_inner (field_expirable_inner fl_inner) l)"
  "robject_describe l \<noteq> struct_describe x"
  by (simp_all add: call_def own_method_def field_lock_chain_def field_defs robject_describe_def
      struct_describe_def)

section \<open>Transcripts\<close>

text \<open>The lines of an output.\<close>

definition out_lines :: "string list \<Rightarrow> string" where
  "out_lines ls = concat (map println ls)"

lemma wrapper_transcript:
  "wrapper_main =
     out_lines [''[client-1] GET foo'', ''[client-1] SET bar = hello'', ''timeout=500ms max_attempts=3'']"
proof -
  have "show_nat 500 = ''500''" "show_nat 3 = ''3''"
    by (simp_all add: digit_chars show_nat.simps [of 3] show_nat.simps [of 5] show_nat.simps [of 50] show_nat.simps [of 500])
  then show ?thesis
    by (simp add: wrapper_main_def wrapper_transparent out_lines_def)
      (simp add: call_def own_method_def wrapper_chain_def options_of_wrapper_def client_with_options_def
        client_get_def client_set_def wrapped_client_new_def)
qed

lemma field_transcript:
  "field_main =
     out_lines
       [''name via Deref:       my-lock'', ''id via Deref:         client-1'',
        ''entry_name via Deref: client-1:my-lock'', ''name via trait:  my-lock'',
        ''expire key=my-lock seconds=30'',
        ''renewal scheduled: key=my-lock lock=client-1:my-lock thread=42'',
        ''RedissonLock: try lock key=my-lock lock_name=client-1:42'', ''---'',
        ''name via Deref: my-fair-lock'', ''expire key=my-fair-lock seconds=30'',
        ''RedissonFairLock: fair try lock key=my-fair-lock lock_name=client-1:42'', ''---'',
        ''lock.describe() = from RObjectLike trait default method'',
        ''RedissonObjectInner::describe() = from RedissonObjectInner struct method'']"
proof -
  have "show_nat 30 = ''30''" "show_nat 42 = ''42''"
    by (simp_all add: digit_chars show_nat.simps [of 3] show_nat.simps [of 4] show_nat.simps [of 30] show_nat.simps [of 42])
  then show ?thesis
    by (simp add: field_main_def out_lines_def field_defs field_lock_try_lock_def
        field_fair_lock_try_lock_def call_def own_method_def field_lock_chain_def robject_describe_def
        struct_describe_def)
qed

end
