(* ===== verification/ObjectSafety.thy ===== *)
theory ObjectSafety
  imports Utf8
begin

text \<open>
  \<open>examples/object_safety_demo.rs\<close>: an object over an executor, once with the executor's type
  as a parameter and once through a trait object, and a future that is awaited where it is
  made or stored and awaited later. A method that only awaits is a function of its
  arguments; a future is the function that runs when it is awaited.
\<close>

section \<open>Executors\<close>

datatype my_executor = RealExecutor | MockExecutor

definition executor_execute :: "my_executor \<Rightarrow> string \<Rightarrow> string" where
  "executor_execute self key =
     (case self of
        RealExecutor \<Rightarrow> ''RealExecutor: got key='' @ key
      | MockExecutor \<Rightarrow> ''MockExecutor: got key='' @ key)"

text \<open>An object over any type of executors, given by what \<open>execute\<close> does.\<close>

record 'ce generic_object =
  go_executor :: 'ce
  go_name :: string

definition generic_object_new :: "'ce \<Rightarrow> string \<Rightarrow> 'ce generic_object" where
  "generic_object_new executor name = \<lparr>go_executor = executor, go_name = name\<rparr>"

definition generic_do_something :: "('ce \<Rightarrow> string \<Rightarrow> string) \<Rightarrow> 'ce generic_object \<Rightarrow> string" where
  "generic_do_something execute self = execute (go_executor self) (go_name self)"

text \<open>
  A trait object is its table of methods: here the one method, of the one type that
  implements the trait. The boxed future of \<open>execute_dyn\<close> runs when it is awaited.
\<close>

record my_executor_dyn =
  dyn_execute :: "string \<Rightarrow> unit \<Rightarrow> string"

definition real_executor_dyn :: my_executor_dyn where
  "real_executor_dyn =
     \<lparr>dyn_execute = (\<lambda>key _. ''RealExecutor(dyn): got key='' @ key)\<rparr>"

record boxed_object =
  bx_executor :: my_executor_dyn
  bx_name :: string

definition boxed_object_new :: "my_executor_dyn \<Rightarrow> string \<Rightarrow> boxed_object" where
  "boxed_object_new executor name = \<lparr>bx_executor = executor, bx_name = name\<rparr>"

definition dyn_do_something :: "boxed_object \<Rightarrow> string" where
  "dyn_do_something self = dyn_execute (bx_executor self) (bx_name self) ()"

text \<open>The trait object an executor would be coerced to, were its trait object safe.\<close>

definition coerced_executor :: "('ce \<Rightarrow> string \<Rightarrow> string) \<Rightarrow> 'ce \<Rightarrow> my_executor_dyn" where
  "coerced_executor execute e = \<lparr>dyn_execute = (\<lambda>key _. execute e key)\<rparr>"

lemma dyn_as_generic:
  "dyn_do_something (boxed_object_new (coerced_executor execute e) name) =
     generic_do_something execute (generic_object_new e name)"
  by (simp add: dyn_do_something_def boxed_object_new_def coerced_executor_def generic_do_something_def
      generic_object_new_def)

text \<open>Objects that share an executor differ in their names only.\<close>

lemma executors_told_apart:
  "generic_do_something executor_execute (generic_object_new e n) =
     generic_do_something executor_execute (generic_object_new e' n') \<longleftrightarrow> e = e' \<and> n = n'"
  by (cases e; cases e') (simp_all add: generic_do_something_def generic_object_new_def executor_execute_def)

section \<open>Futures\<close>

text \<open>\<open>x * 2\<close> on \<open>u32\<close> panics when it overflows in a build with overflow checks and wraps in others.\<close>

definition auto_pinned :: "bool \<Rightarrow> u32 \<Rightarrow> err + u32" where
  "auto_pinned checks x =
     (if checks \<and> 2 ^ 32 \<le> 2 * unat x then Inl (Msg ''attempt to multiply with overflow'')
      else Inr (x * 2))"

record stored_future =
  sf_future :: "unit \<Rightarrow> err + u32"

definition stored_future_new :: "bool \<Rightarrow> u32 \<Rightarrow> stored_future" where
  "stored_future_new checks x = \<lparr>sf_future = (\<lambda>_. auto_pinned checks x)\<rparr>"

definition stored_future_run :: "stored_future \<Rightarrow> err + u32" where
  "stored_future_run self = sf_future self ()"

text \<open>Storing a future does not change what it yields, the panic included.\<close>

lemma stored_as_awaited: "stored_future_run (stored_future_new checks x) = auto_pinned checks x"
  by (simp add: stored_future_run_def stored_future_new_def)

lemma auto_pinned_value:
  assumes "unat x < 2 ^ 31"
  shows "\<exists>y. auto_pinned checks x = Inr y \<and> unat y = 2 * unat x"
proof -
  have "unat (x * 2) = unat x * 2 mod 2 ^ 32" by (simp add: unat_word_ariths)
  with assms show ?thesis by (simp add: auto_pinned_def)
qed

lemma auto_pinned_panics: "(\<exists>e. auto_pinned True x = Inl e) \<longleftrightarrow> 2 ^ 31 \<le> unat x"
  by (auto simp: auto_pinned_def)

section \<open>The main function\<close>

definition put_line :: "string \<Rightarrow> (string list, unit) prog" where
  "put_line t = (\<lambda>out. (Inr (), out @ [t]))"

definition await :: "err + 'a \<Rightarrow> (string list, 'a) prog" where
  "await r = (\<lambda>out. (r, out))"

definition safety_main :: "bool \<Rightarrow> (string list, unit) prog" where
  "safety_main checks =
     (let executor = RealExecutor;
          obj1 = generic_object_new executor ''my-lock'';
          obj2 = generic_object_new executor ''my-bucket'';
          obj3 = boxed_object_new real_executor_dyn ''my-map'';
          mock_obj = generic_object_new MockExecutor ''test-key'';
          stored = stored_future_new checks 21
      in
      pbind (put_line (''=== '' @ utf8 [0x6cdb, 0x578b, 0x65b9, 0x6848] @ '' ==='')) (\<lambda>_.
      pbind (put_line (generic_do_something executor_execute obj1)) (\<lambda>_.
      pbind (put_line (generic_do_something executor_execute obj2)) (\<lambda>_.
      pbind (put_line
        ([CHR 0x0A] @ ''=== dyn '' @ utf8 [0x65b9, 0x6848, 0xff08] @ ''Box<dyn Future>'' @
          utf8 [0xff09] @ ''==='')) (\<lambda>_.
      pbind (put_line (dyn_do_something obj3)) (\<lambda>_.
      pbind (put_line ([CHR 0x0A] @ ''=== '' @ utf8 [0x6362, 0x6210] @
        '' MockExecutor ==='')) (\<lambda>_.
      pbind (put_line (generic_do_something executor_execute mock_obj)) (\<lambda>_.
      pbind (put_line
        ([CHR 0x0A] @ ''=== async fn '' @ utf8 [0x81ea, 0x52a8] @ '' Pin'' @
          utf8 [0xff08, 0x65e0, 0x9700, 0x624b, 0x5199, 0xff09] @ ''==='')) (\<lambda>_.
      pbind (await (auto_pinned checks 21)) (\<lambda>result.
      pbind (put_line (''auto_pinned(21) = '' @ show_nat (unat result))) (\<lambda>_.
      pbind (put_line
        ([CHR 0x0A] @ ''=== '' @ utf8 [0x624b, 0x52a8] @ '' Pin<Box<dyn Future>>'' @
          utf8 [0xff08] @ ''Future '' @ utf8 [0x5b58, 0x8fdb, 0x7ed3, 0x6784, 0x4f53, 0xff09] @
          ''==='')) (\<lambda>_.
      pbind (await (stored_future_run stored)) (\<lambda>result.
      put_line (''StoredFuture(21).run() = '' @ show_nat (unat result)))))))))))))))"

text \<open>It ends in every build, with these lines.\<close>

lemma safety_transcript:
  "safety_main checks [] =
     (Inr (),
      [''=== '' @ utf8 [0x6cdb, 0x578b, 0x65b9, 0x6848] @ '' ==='',
       ''RealExecutor: got key=my-lock'', ''RealExecutor: got key=my-bucket'',
       [CHR 0x0A] @ ''=== dyn '' @ utf8 [0x65b9, 0x6848, 0xff08] @ ''Box<dyn Future>'' @
         utf8 [0xff09] @ ''==='',
       ''RealExecutor(dyn): got key=my-map'',
       [CHR 0x0A] @ ''=== '' @ utf8 [0x6362, 0x6210] @ '' MockExecutor ==='',
       ''MockExecutor: got key=test-key'',
       [CHR 0x0A] @ ''=== async fn '' @ utf8 [0x81ea, 0x52a8] @ '' Pin'' @
         utf8 [0xff08, 0x65e0, 0x9700, 0x624b, 0x5199, 0xff09] @ ''==='',
       ''auto_pinned(21) = 42'',
       [CHR 0x0A] @ ''=== '' @ utf8 [0x624b, 0x52a8] @ '' Pin<Box<dyn Future>>'' @ utf8 [0xff08] @
         ''Future '' @ utf8 [0x5b58, 0x8fdb, 0x7ed3, 0x6784, 0x4f53, 0xff09] @ ''==='',
       ''StoredFuture(21).run() = 42''])"
proof -
  have "show_nat 42 = ''42''"
    by (simp add: digit_chars show_nat.simps [of 4] show_nat.simps [of 42])
  then show ?thesis
    by (simp add: safety_main_def put_line_def await_def stored_as_awaited auto_pinned_def
        generic_do_something_def generic_object_new_def executor_execute_def dyn_do_something_def
        boxed_object_new_def real_executor_dyn_def Let_def)
qed

end
