(* ===== verification/Spec2Isabelle.thy ===== *)
theory Spec2Isabelle
  imports BatchExamples DirectExample ServiceExamples ScriptExamples TopicExample LockDemo ExecutorDesign TraitDesigns
    MacroDesign DerefDesigns ObjectSafety
begin

text \<open>
  A model of redisson-rs, a Rust client for Redis in the shape of Java's Redisson, built on
  the client library fred. The code is under \<open>src/redisson-rs/src\<close>; paths below are relative
  to it.

  \<^bold>\<open>The program.\<close> A \<open>Redisson\<close> (\<open>redisson.rs\<close>) starts a connection manager
  (\<open>connection/fred_connection_manager.rs\<close>) that owns a pool of connections, the
  configuration (\<open>config\<close>), a registry of client-side caches with process-wide caches of script
  digests and replication states (\<open>connection/service_manager.rs\<close>) and the publish/subscribe
  service (\<open>pubsub/publish_subscribe_service.rs\<close>). Commands
  (\<open>client/protocol/redis_command.rs\<close>) go to the servers one by one through the command service
  (\<open>command/command_async_service.rs\<close>), which also evaluates scripts by digest and with
  synchronisation of replicas, or many at once through the batch service
  (\<open>command/command_batch_service.rs\<close>). Pattern topics (\<open>api/rpattern_topic.rs\<close>) register
  listeners at the publish/subscribe service. Beside them stand the bookkeeping of lock
  holders (\<open>renewal/lock_entry.rs\<close>) and of waiting tasks (\<open>pubsub/redisson_lock_entry.rs\<close>).

  \<^bold>\<open>What is outside.\<close> The client library, the servers, the async runtime, the hasher and the
  SHA-1 function are arguments: a record of functions for the pool and the routing table
  (\<open>fred\<close> in Runtime), one for the subscriber (\<open>subscriber\<close> in PubSub), one for the
  constructors (\<open>client_lib\<close> in Startup). The type of the remote world is a type variable.
  Outside a cluster the lookups of the connection manager also turn the pool's rotation by one
  client, which is left out: they do not change the remote state. The
  standard library's strings, numbers and collections are modelled: strings are lists of
  bytes with \<open>chars\<close> for their code points, machine integers are words, a hash map is a list of
  entries (whose order stands for the unspecified iteration order) or a map.

  \<^bold>\<open>The theories.\<close>
  \<^item> Prelude: errors as values, state-passing programs with \<open>pbind\<close> for the \<open>?\<close> operator, string
    operations, durations, and the contract of hash keys (locale \<open>hash_key\<close>), interpreted for
    channel names and for entries.
  \<^item> Runtime: values, servers, requests, the client library, the process-wide statics
    (\<open>globals\<close>), and a client that records its requests.
  \<^item> Commands: \<open>RedisCommand\<close>, its classification and routing key, \<open>execute_on\<close> for pipelines and
    \<open>execute\<close> for single commands.
  \<^item> Config, Options: the configuration and its conversions, the options of a batch.
  \<^item> Services: digest cache, script caches, replication states and client-side caches
    (locales \<open>sha_oracle\<close> and \<open>node_cache\<close>, interpreted on the two per-node caches).
  \<^item> Connection: entries, node sources and the lookups of the connection manager (locale
    \<open>topology\<close>).
  \<^item> Channels, Glob, PubSub, Dispatch, Topics: channel names and listeners, the glob matcher,
    the listener maps with \<open>psubscribe\<close> and \<open>remove_listener\<close> (locales \<open>listener_purge\<close> and
    \<open>listener_registry\<close>), the background tasks that deliver, and the interleavings of
    concurrent calls as a step relation.
  \<^item> Startup: from the configuration to a started client.
  \<^item> Executor, Async, Info: the shared record of the command services, single commands with
    eviction, scripts by digest, the synchronised evaluation, and the reading of INFO.
  \<^item> Batch, BatchRun: issuing a command, one node's task, the execution of a batch.
  \<^item> Renewal: lock entries and waiters.
  \<^item> LockHierarchy, LockDemo, ExecutorDesign, TraitDesigns: programs under \<open>examples\<close> that carry
    designs of the library, the lock hierarchy of \<open>inheritance_demo.rs\<close> (locale \<open>counting_lock\<close>;
    its \<open>main\<close> in LockDemo), the
    executors of \<open>command_executor_design.rs\<close> (locale \<open>answering_dispatch\<close>) and three designs of
    one class hierarchy (\<open>trait_inheritance.rs\<close>, \<open>trait_inheritance_no_blanket.rs\<close> and
    \<open>trait_inheritance_deref_only.rs\<close>).
  \<^item> MacroDesign, DerefDesigns, ObjectSafety: the smaller programs under \<open>examples\<close>: the same
    hierarchy with macros (\<open>trait_inheritance_macro.rs\<close>), the lookup of a method
    along a chain of \<open>Deref\<close> (\<open>trait_inheritance_deref.rs\<close>, \<open>deref_override_demo.rs\<close> and
    \<open>deref_transparent_wrapper.rs\<close>) and trait objects (\<open>object_safety_demo.rs\<close>),
    each with its \<open>main\<close>.
  \<^item> Utf8: the encoding of text as bytes, with the round trip through \<open>chars\<close>.
  \<^item> ScriptCoherence, ScriptTransparency: the script caches against what the servers hold, over
    histories of loads, restarts and events, and batches with the cache against batches without.
  \<^item> BatchDirect: a batch against the same commands issued one by one on the plain service; TopicUse:
    pattern topics used one call after the other, against a list of subscriptions.
  \<^item> CoreSpec, PubSubSpec, BatchSpec, BatchNodes, BatchRedis, AsyncSpec: the properties of these
    parts; BatchExamples, DirectExample, ServiceExamples, ScriptExamples and TopicExample:
    concrete instances of those with hypotheses.

  \<^bold>\<open>What is proved.\<close> For batches: every reachable state keeps the invariant that queued
  channels are open and all others settled, an execution answers every call, its responses
  come in the order of the calls, and neither the iteration order of the node map nor the
  order in which the tasks end can be seen in the result; on servers that do not fail, a batch
  answers what its commands answer on the plain service. For publish/subscribe: the exact
  effect of one call on the listener maps and on the requests, the exact multiset of
  deliveries of a message, what holds of every interleaving, and what a sequence of calls leaves
  registered, served and delivered. For scripts: evaluation by
  digest equals evaluation of the text, on one node, within four requests; the synchronised
  evaluation returns, and what it returns; what the caches claim about a node is true of it
  unless it restarted since its last reconnection event, and then a batch ends with the cache
  as it ends without it. For the caches and the lock entries: refinement of
  a specification that reads the history alone. For the designs: a nested use of the fair lock
  counts its open calls without overflow, a batch that is executed is direct calls, later, and
  the lookup of a method finds the first definition along the chain it is called through, so
  that an override is seen or not according to the type the call goes through.
  An evaluation by digest sends the text of a script exactly when it is asked for.
  Several theorems state defects as they are:
  a failed \<open>psubscribe\<close> blocks its channel, a publication that several patterns of the client match
  reaches each of their listeners as many times, a command issued after the execution is never
  answered, \<open>MULTI\<close> and the first command of a redis-based batch use different connections,
  error replies in a plain batch become null, an evaluation that is to wait for the
  append-only file alone sends no wait, of a \<open>DEL\<close> with several keys only the first is
  evicted from the client-side caches, two configuration fields are ignored.

  \<^bold>\<open>Nondeterminism, bounds and loops.\<close> What the scheduler and the servers decide during the
  execution of a batch (iteration order, order of completion, which tasks had ended when a
  failed one made the batch give up, the replies and what the pipelines do to the servers, where
  a timeout strikes) is the record
  \<open>schedule\<close>, and the theorems quantify over it. What the pipelines do to the servers is a
  function of the state they start in, so a theorem that compares two runs says in a
  hypothesis when their effects agree. No function needs fuel: the retries of
  \<open>resolve_entry\<close> recurse on the number of attempts, the loop of \<open>synced_eval\<close> on the flag that
  lets it repeat once, the glob matcher on the lengths of its arguments, and the endless
  background loops are functions of the finite sequence of items they received so far.

  \<^bold>\<open>Not modelled.\<close> Most of the lock and object files (\<open>redisson_lock.rs\<close>,
  \<open>redisson_base_lock.rs\<close>, \<open>redisson_object.rs\<close>, \<open>redisson_expirable.rs\<close>, \<open>ext.rs\<close>,
  \<open>renewal/lock_task.rs\<close>, \<open>renewal/lock_renewal_scheduler.rs\<close>, \<open>pubsub/lock_pub_sub.rs\<close>) and parts
  of the service manager and the publish/subscribe service are commented out at this commit:
  there is no code to model. Traits without default methods, logging, the deserialisation
  by serde and the tests are left out.
\<close>

end
